theory Spec2Isabelle
  imports Complex_Main
begin

section \<open>JavaScript values\<close>

text \<open>
  A JavaScript number is modelled by an exact rational, the two infinities (one constructor:
  their sign is not modelled) or NaN. The rounding of binary64 and the sign of zero are not
  modelled: \<open>-0\<close> is \<open>Num 0\<close>, and both are falsy, as in JavaScript.
\<close>

datatype jsnum = Num rat | Infinite | NaN

text \<open>The value of an \<open>ExifDateTime\<close> of exiftool-vendored: its text and its optional zone.\<close>

datatype ExifDateTime = ExifDateTime (rawValue: string) (zone: "string option")

text \<open>
  A tag value as the tag reader hands it out (the handlers type them \<open>any\<close>). An absent,
  \<open>null\<close> or \<open>undefined\<close> tag is \<open>None\<close> of the enclosing option.
\<close>

datatype tagval = TString string | TNumber jsnum | TDateTime ExifDateTime | TArray "tagval list"

text \<open>A field that tells \<open>undefined\<close> from \<open>null\<close>, where the source's test does.\<close>

datatype 'a nullable = Undefined | Null | Val 'a

text \<open>\<open>new Date(s)\<close> and \<open>exifDate.toDate()\<close>: the instant is kept as the value it was built from.\<close>

datatype instant = DateOfString string | DateOfExif ExifDateTime

definition truthyNum :: "jsnum \<Rightarrow> bool" where
  "truthyNum n = (case n of Num q \<Rightarrow> (if q = 0 then False else True) | Infinite \<Rightarrow> True | NaN \<Rightarrow> False)"

definition truthy :: "tagval \<Rightarrow> bool" where
  "truthy v = (case v of TString s \<Rightarrow> (if s = [] then False else True) | TNumber n \<Rightarrow> truthyNum n
                | TDateTime d \<Rightarrow> True | TArray xs \<Rightarrow> True)"

text \<open>Truthiness of a value that may be \<open>null\<close> or \<open>undefined\<close>.\<close>

definition truthyOpt :: "tagval option \<Rightarrow> bool" where
  "truthyOpt v = (case v of None \<Rightarrow> False | Some x \<Rightarrow> truthy x)"

definition truthyStr :: "string option \<Rightarrow> bool" where
  "truthyStr v = (case v of None \<Rightarrow> False | Some s \<Rightarrow> (if s = [] then False else True))"

definition truthyNumOpt :: "jsnum option \<Rightarrow> bool" where
  "truthyNumOpt v = (case v of None \<Rightarrow> False | Some n \<Rightarrow> truthyNum n)"

section \<open>Strings: \<open>split\<close>, \<open>parseInt\<close>, \<open>parseFloat\<close>\<close>

text \<open>The ASCII members of the white space that \<open>parseInt\<close> and \<open>parseFloat\<close> skip.\<close>

definition isWhiteSpace :: "char \<Rightarrow> bool" where
  "isWhiteSpace c = (c \<in> set [CHR 0x09, CHR 0x0A, CHR 0x0B, CHR 0x0C, CHR 0x0D, CHR '' ''])"

definition digitValue :: "char \<Rightarrow> nat option" where
  "digitValue c =
     (let n = (of_char c :: nat) in
      if 48 \<le> n \<and> n \<le> 57 then Some (n - 48)
      else if 97 \<le> n \<and> n \<le> 102 then Some (n - 87)
      else if 65 \<le> n \<and> n \<le> 70 then Some (n - 55)
      else None)"

definition isRadixDigit :: "nat \<Rightarrow> char \<Rightarrow> bool" where
  "isRadixDigit R c = (case digitValue c of None \<Rightarrow> False | Some d \<Rightarrow> d < R)"

text \<open>The class \<open>[0-9]\<close>.\<close>

definition isDecimalDigit :: "char \<Rightarrow> bool" where
  "isDecimalDigit c = isRadixDigit 10 c"

fun digitsValue :: "nat \<Rightarrow> nat \<Rightarrow> string \<Rightarrow> nat" where
  "digitsValue R acc [] = acc"
| "digitsValue R acc (c # cs) =
     digitsValue R (acc * R + (case digitValue c of None \<Rightarrow> 0 | Some d \<Rightarrow> d)) cs"

text \<open>
  \<open>parseInt(string)\<close> with no radix: leading white space, a sign, the prefix \<open>0x\<close> for
  radix 16, then the longest run of digits; NaN when that run is empty.
\<close>

definition parseInt :: "string \<Rightarrow> jsnum" where
  "parseInt inputString =
     (let S = dropWhile isWhiteSpace inputString;
          neg = (case S of [] \<Rightarrow> False | c # _ \<Rightarrow> c = CHR ''-'');
          S1 = (case S of [] \<Rightarrow> [] | c # r \<Rightarrow> if c = CHR ''+'' \<or> c = CHR ''-'' then r else S);
          hex = (take 2 S1 = ''0x'' \<or> take 2 S1 = ''0X'');
          R = (if hex then 16 else 10);
          S2 = (if hex then drop 2 S1 else S1);
          Z = takeWhile (isRadixDigit R) S2
      in if Z = [] then NaN
         else Num (if neg then - of_nat (digitsValue R 0 Z) else of_nat (digitsValue R 0 Z)))"

text \<open>The exponent part of a decimal literal: \<open>e\<close> or \<open>E\<close>, a sign, digits; 0 when there is none.\<close>

definition exponentPart :: "string \<Rightarrow> int" where
  "exponentPart s =
     (case s of
        [] \<Rightarrow> 0
      | c # r \<Rightarrow>
          if c = CHR ''e'' \<or> c = CHR ''E'' then
            (let neg = (case r of [] \<Rightarrow> False | d # _ \<Rightarrow> d = CHR ''-'');
                 r1 = (case r of [] \<Rightarrow> [] | d # t \<Rightarrow> if d = CHR ''+'' \<or> d = CHR ''-'' then t else r);
                 ds = takeWhile isDecimalDigit r1
             in if neg then - int (digitsValue 10 0 ds) else int (digitsValue 10 0 ds))
          else 0)"

text \<open>
  \<open>parseFloat(string)\<close>: leading white space, a sign, then \<open>Infinity\<close> or the longest prefix
  that is a decimal literal (digits, a fraction, an exponent); NaN when there is no digit.
\<close>

definition parseFloat :: "string \<Rightarrow> jsnum" where
  "parseFloat inputString =
     (let S = dropWhile isWhiteSpace inputString;
          neg = (case S of [] \<Rightarrow> False | c # _ \<Rightarrow> c = CHR ''-'');
          S1 = (case S of [] \<Rightarrow> [] | c # r \<Rightarrow> if c = CHR ''+'' \<or> c = CHR ''-'' then r else S)
      in if take 8 S1 = ''Infinity'' then Infinite
         else
           (let ip = takeWhile isDecimalDigit S1;
                r1 = dropWhile isDecimalDigit S1;
                dot = (case r1 of [] \<Rightarrow> False | c # _ \<Rightarrow> c = CHR ''.'');
                fp = (if dot then takeWhile isDecimalDigit (tl r1) else []);
                r2 = (if dot then dropWhile isDecimalDigit (tl r1) else r1);
                ex = exponentPart r2;
                mant = (of_nat (digitsValue 10 0 (ip @ fp)) :: rat) / 10 ^ length fp;
                val = (if 0 \<le> ex then mant * 10 ^ nat ex else mant / 10 ^ nat (- ex))
            in if ip = [] \<and> fp = [] then NaN
               else Num (if neg then - val else val)))"

text \<open>The quotient of two numbers.\<close>

definition js_div :: "jsnum \<Rightarrow> jsnum \<Rightarrow> jsnum" where
  "js_div x y =
     (case (x, y) of
        (Num a, Num b) \<Rightarrow> if b = 0 then (if a = 0 then NaN else Infinite) else Num (a / b)
      | (Num a, Infinite) \<Rightarrow> Num 0
      | (Infinite, Num b) \<Rightarrow> Infinite
      | _ \<Rightarrow> NaN)"

text \<open>\<open>Math.round\<close>: the nearest integer, ties towards plus infinity.\<close>

definition Math_round :: "jsnum \<Rightarrow> jsnum" where
  "Math_round x =
     (case x of Num q \<Rightarrow> Num (of_int \<lfloor>q + 1 / 2\<rfloor>) | Infinite \<Rightarrow> Infinite | NaN \<Rightarrow> NaN)"

fun split_from :: "char \<Rightarrow> string \<Rightarrow> string \<Rightarrow> string list" where
  "split_from sep cur [] = [rev cur]"
| "split_from sep cur (c # cs) =
     (if c = sep then rev cur # split_from sep [] cs else split_from sep (c # cur) cs)"

text \<open>\<open>s.split(sep)\<close> for a separator of one character.\<close>

definition split_on :: "char \<Rightarrow> string \<Rightarrow> string list" where
  "split_on sep s = split_from sep [] s"

section \<open>The frame rate of a video stream\<close>

text \<open>
  Lines 326 to 332 of \<open>extractVideoMetadata\<close>: the new value of \<open>newExif.fps\<close> for a video
  stream whose rate is \<open>r_frame_rate\<close>, from its old value \<open>fps\<close>.
\<close>

definition frameRate :: "string option \<Rightarrow> jsnum option \<Rightarrow> jsnum option" where
  "frameRate r_frame_rate fps =
     (case r_frame_rate of
        None \<Rightarrow> fps
      | Some r \<Rightarrow>
          if r = [] then fps
          else (let fpsParts = split_on CHR ''/'' r in
                if length fpsParts = 2
                then Some (Math_round (js_div (parseInt (fpsParts ! 0)) (parseInt (fpsParts ! 1))))
                else fps))"

section \<open>The location patterns\<close>

text \<open>
  One group \<open>([+-][0-9]+\.[0-9]+)\<close> matched at the head of \<open>s\<close>: the text of the group and
  the rest. In both patterns a group is followed by a sign or by the slash, never by a digit
  or a dot, so a run of digits shorter than the longest one can never lead to a match: the
  greedy runs are taken whole and nothing is tried again.
\<close>

definition matchGroup :: "string \<Rightarrow> (string \<times> string) option" where
  "matchGroup s =
     (case s of
        [] \<Rightarrow> None
      | c # r \<Rightarrow>
          if c = CHR ''+'' \<or> c = CHR ''-'' then
            (let d1 = takeWhile isDecimalDigit r; r1 = dropWhile isDecimalDigit r in
             if d1 = [] then None
             else (case r1 of
                     [] \<Rightarrow> None
                   | p # r2 \<Rightarrow>
                       if p = CHR ''.'' then
                         (let d2 = takeWhile isDecimalDigit r2; r3 = dropWhile isDecimalDigit r2 in
                          if d2 = [] then None else Some (c # d1 @ p # d2, r3))
                       else None))
          else None)"

text \<open>\<open>n\<close> groups, then the slash, then the end of the input (\<open>\/$\<close>), from the head of \<open>s\<close>.\<close>

fun matchGroupsAt :: "nat \<Rightarrow> string \<Rightarrow> string list option" where
  "matchGroupsAt 0 s = (if s = ''/'' then Some [] else None)"
| "matchGroupsAt (Suc n) s =
     (case matchGroup s of
        None \<Rightarrow> None
      | Some (g, r) \<Rightarrow> (case matchGroupsAt n r of None \<Rightarrow> None | Some gs \<Rightarrow> Some (g # gs)))"

text \<open>
  \<open>location.match(locationRegex)\<close> for the pattern of \<open>n\<close> groups: the patterns have no
  anchor at the start, so the match is looked for at every position, from the left; the
  result is the array of the matched text and the groups, or \<open>null\<close>.
\<close>

fun matchLocation :: "nat \<Rightarrow> string \<Rightarrow> string list option" where
  "matchLocation n [] = None"
| "matchLocation n (c # cs) =
     (case matchGroupsAt n (c # cs) of
        Some gs \<Rightarrow> Some ((c # cs) # gs)
      | None \<Rightarrow> matchLocation n cs)"

text \<open>
  Lines 283 to 301 for a tag value that is a string: the coordinates the \<open>location\<close> tag
  yields (pattern of two groups, array of length 3), and those of the ISO 6709 tag (three
  groups, length 4). \<open>None\<close>: the latitude and longitude stay as they were.
\<close>

definition parseLocation :: "string \<Rightarrow> (jsnum \<times> jsnum) option" where
  "parseLocation location =
     (case matchLocation 2 location of
        None \<Rightarrow> None
      | Some m \<Rightarrow> if length m = 3 then Some (parseFloat (m ! 1), parseFloat (m ! 2)) else None)"

definition parseLocationISO6709 :: "string \<Rightarrow> (jsnum \<times> jsnum) option" where
  "parseLocationISO6709 location =
     (case matchLocation 3 location of
        None \<Rightarrow> None
      | Some m \<Rightarrow> if length m = 4 then Some (parseFloat (m ! 1), parseFloat (m ! 2)) else None)"

section \<open>Merging the tag sources\<close>

type_synonym Tags = "string \<Rightarrow> tagval option"

text \<open>\<open>data?.[property]\<close>: a failed read left \<open>data\<close> null.\<close>

definition tagOf :: "Tags option \<Rightarrow> string \<Rightarrow> tagval option" where
  "tagOf data property = (case data of None \<Rightarrow> None | Some tags \<Rightarrow> tags property)"

text \<open>\<open>getExifProperty\<close> (lines 139 to 148), with the two tag sets it closes over.\<close>

fun getExifProperty :: "Tags option \<Rightarrow> Tags option \<Rightarrow> string list \<Rightarrow> tagval option" where
  "getExifProperty sidecarExifData mediaExifData [] = None"
| "getExifProperty sidecarExifData mediaExifData (property # properties) =
     (case (case tagOf sidecarExifData property of
              Some v \<Rightarrow> Some v
            | None \<Rightarrow> tagOf mediaExifData property) of
        Some value \<Rightarrow> Some value
      | None \<Rightarrow> getExifProperty sidecarExifData mediaExifData properties)"

text \<open>\<open>x ?? s\<close> for a string \<open>s\<close>: the fallback on the asset's own (filesystem) timestamp.\<close>

definition orString :: "tagval option \<Rightarrow> string \<Rightarrow> tagval" where
  "orString v s = (case v of Some x \<Rightarrow> x | None \<Rightarrow> TString s)"

section \<open>Entities\<close>

datatype AssetType = IMAGE | VIDEO | AUDIO | OTHER

record AssetEntity =
  id :: string
  ownerId :: string
  type :: AssetType
  originalPath :: string
  sidecarPath :: "string option"
  isVisible :: bool
  livePhotoVideoId :: "string option"
  fileCreatedAt :: string
  fileModifiedAt :: string
  duration :: "string option"

text \<open>
  The metadata record, with the fields the handlers assign (\<open>exif_make\<close> is the field
  \<open>make\<close>). A field that is \<open>null\<close> or was never assigned is \<open>None\<close>; \<open>orientation\<close>
  keeps the two apart, because the image handler tests it with \<open>=== null\<close>.
\<close>

record ExifEntity =
  assetId :: string
  fileSizeInByte :: "jsnum option"
  exif_make :: "tagval option"
  model :: "tagval option"
  exifImageHeight :: "tagval option"
  exifImageWidth :: "tagval option"
  exposureTime :: "tagval option"
  orientation :: "string nullable"
  dateTimeOriginal :: "instant option"
  modifyDate :: "instant option"
  timeZone :: "string option"
  lensModel :: "tagval option"
  fNumber :: "tagval option"
  focalLength :: "jsnum option"
  iso :: "tagval option"
  latitude :: "tagval option"
  longitude :: "tagval option"
  livePhotoCID :: "tagval option"
  city :: "string option"
  state :: "string option"
  country :: "string option"
  fps :: "jsnum option"

text \<open>\<open>new ExifEntity()\<close>: nothing is assigned yet.\<close>

definition new_ExifEntity :: ExifEntity where
  "new_ExifEntity =
     \<lparr>assetId = [], fileSizeInByte = None, exif_make = None, model = None,
      exifImageHeight = None, exifImageWidth = None, exposureTime = None,
      orientation = Undefined, dateTimeOriginal = None, modifyDate = None, timeZone = None,
      lensModel = None, fNumber = None, focalLength = None, iso = None, latitude = None,
      longitude = None, livePhotoCID = None, city = None, state = None, country = None,
      fps = None\<rparr>"

datatype JobName =
  QUEUE_METADATA_EXTRACTION | EXIF_EXTRACTION | EXTRACT_VIDEO_METADATA
| STORAGE_TEMPLATE_MIGRATION_SINGLE | QUEUE_SIDECAR | SIDECAR_SYNC | SIDECAR_DISCOVERY

datatype QueueName = METADATA_EXTRACTION | SIDECAR

text \<open>A per-asset job: its name and the asset snapshot it carries (\<open>job.data.asset\<close>).\<close>

datatype Job = Job (name: JobName) (data_asset: AssetEntity)

text \<open>The fields of the partial asset that the handlers pass to \<open>assetCore.save\<close>.\<close>

datatype AssetField =
  LivePhotoVideoId string | IsVisible bool | FileCreatedAt string | Duration "string option"

fun setField :: "AssetField \<Rightarrow> AssetEntity \<Rightarrow> AssetEntity" where
  "setField (LivePhotoVideoId v) a = a\<lparr>livePhotoVideoId := Some v\<rparr>"
| "setField (IsVisible b) a = a\<lparr>isVisible := b\<rparr>"
| "setField (FileCreatedAt t) a = a\<lparr>fileCreatedAt := t\<rparr>"
| "setField (Duration d) a = a\<lparr>duration := d\<rparr>"

definition setFields :: "AssetField list \<Rightarrow> AssetEntity \<Rightarrow> AssetEntity" where
  "setFields fs a = fold setField fs a"

datatype LivePhotoSearchOptions =
  LivePhotoSearchOptions (opt_livePhotoCID: tagval) (opt_otherAssetId: string)
    (opt_ownerId: string) (opt_type: AssetType)

datatype SharpMetadata =
  SharpMetadata (sharp_height: "jsnum option") (sharp_width: "jsnum option")
    (sharp_orientation: "jsnum option")

datatype FfprobeStream =
  FfprobeStream (codec_type: "string option") (stream_width: "jsnum option")
    (stream_height: "jsnum option") (rotation: "tagval option") (r_frame_rate: "string option")

datatype FfprobeData =
  FfprobeData (format_duration: "jsnum option") (format_size: "jsnum option")
    (format_tags: "Tags option") (streams: "FfprobeStream list")

section \<open>The world: tables, queue, and the calls made\<close>

datatype level = LOG | WARN | ERROR

text \<open>Every call that leaves the processor, in the order it is made.\<close>

datatype event =
  ExiftoolRead string | StatSync string | SharpMetadataOf string | Ffprobe string
| TzLookup tagval tagval | ReverseGeocode tagval tagval
| FindLivePhotoMatch LivePhotoSearchOptions | AssetSave string "AssetField list"
| ExifUpsert ExifEntity | JobQueue Job | JobPause QueueName | JobResume QueueName
| GeocodingInit | GeocodingDeleteCache | GetPage nat | Logger level

record world =
  assets :: "AssetEntity list"
  exifs :: "ExifEntity list"
  jobs :: "Job list"
  paused :: "QueueName list"
  trace :: "event list"

text \<open>
  What the collaborators answer: the tag reader, the file system, the image and video
  probes, the geocoder, the time zone table, the runtime's conversions, and for each call
  to a repository or to the queue whether it rejects. \<open>None\<close> (or \<open>True\<close> for a
  \<open>_rejects\<close> field, \<open>False\<close> for \<open>geocoding_init\<close> and \<open>geocoding_deleteCache\<close>) is a
  call that throws.
\<close>

record env =
  reverseGeocodingEnabled :: bool
  exiftool_read :: "string \<Rightarrow> Tags option"
  fs_statSync :: "string \<Rightarrow> jsnum option"
  sharp_metadata :: "string \<Rightarrow> SharpMetadata option"
  ffprobe :: "string \<Rightarrow> FfprobeData option"
  tz_lookup :: "tagval \<Rightarrow> tagval \<Rightarrow> string option"
  reverseGeocode :: "tagval \<Rightarrow> tagval \<Rightarrow> (string option \<times> string option \<times> string option) option"
  geocoding_init :: bool
  geocoding_deleteCache :: bool
  toISOString :: "instant \<Rightarrow> string option"
  toString :: "tagval \<Rightarrow> string"
  toNumber :: "string \<Rightarrow> jsnum"
  toFormat :: "jsnum \<Rightarrow> string"
  save_rejects :: "string \<Rightarrow> AssetField list \<Rightarrow> bool"
  findLivePhotoMatch_rejects :: "LivePhotoSearchOptions \<Rightarrow> bool"
  upsert_rejects :: "ExifEntity \<Rightarrow> bool"
  queue_rejects :: "Job \<Rightarrow> bool"
  pause_rejects :: "QueueName \<Rightarrow> bool"
  resume_rejects :: "QueueName \<Rightarrow> bool"
  getPage_rejects :: "nat \<Rightarrow> bool"

text \<open>
  A computation returns a value or throws, and leaves a world either way: what was written
  before a throw stays written.
\<close>

datatype 'a result = Ok 'a | Throw

type_synonym 'a io = "world \<Rightarrow> 'a result \<times> world"

definition ret :: "'a \<Rightarrow> 'a io" where
  "ret x = (\<lambda>s. (Ok x, s))"

definition throw :: "'a io" where
  "throw = (\<lambda>s. (Throw, s))"

definition bnd :: "'a io \<Rightarrow> ('a \<Rightarrow> 'b io) \<Rightarrow> 'b io" where
  "bnd m f = (\<lambda>s. case m s of (Ok x, s') \<Rightarrow> f x s' | (Throw, s') \<Rightarrow> (Throw, s'))"

text \<open>\<open>try { m } catch { h }\<close>.\<close>

definition tryCatch :: "'a io \<Rightarrow> 'a io \<Rightarrow> 'a io" where
  "tryCatch m h = (\<lambda>s. case m s of (Ok x, s') \<Rightarrow> (Ok x, s') | (Throw, s') \<Rightarrow> h s')"

definition emit :: "event \<Rightarrow> unit io" where
  "emit ev = (\<lambda>s. (Ok (), s\<lparr>trace := trace s @ [ev]\<rparr>))"

text \<open>The world a computation leaves, and whether it returned.\<close>

definition after :: "'a io \<Rightarrow> world \<Rightarrow> world" where
  "after m s = snd (m s)"

definition returns :: "'a io \<Rightarrow> world \<Rightarrow> bool" where
  "returns m s = (case fst (m s) of Ok x \<Rightarrow> True | Throw \<Rightarrow> False)"

text \<open>A call whose answer the environment gives: it is recorded, then returns or throws.\<close>

definition call :: "event \<Rightarrow> 'a option \<Rightarrow> 'a io" where
  "call ev answer = bnd (emit ev) (\<lambda>_. case answer of Some x \<Rightarrow> ret x | None \<Rightarrow> throw)"

section \<open>Repositories and queue\<close>

text \<open>
  Modelled from the spec: \<open>AssetCore.findLivePhotoMatch\<close> and the asset repository behind
  it are not in the sources. The spec's Live-Photo Pairer searches for another asset owned by
  the same user with a matching content identifier and the complementary type, excluding
  the current asset itself; the content identifier is the one of the asset's stored metadata
  record. Among several candidates the choice must be deterministic: the first row of the
  table is taken.
\<close>

definition isLivePhotoMatch :: "LivePhotoSearchOptions \<Rightarrow> ExifEntity list \<Rightarrow> AssetEntity \<Rightarrow> bool" where
  "isLivePhotoMatch opts es x =
     (id x \<noteq> opt_otherAssetId opts \<and> ownerId x = opt_ownerId opts \<and> type x = opt_type opts
      \<and> list_ex (\<lambda>r. assetId r = id x \<and> livePhotoCID r = Some (opt_livePhotoCID opts)) es)"

definition findLivePhotoMatch :: "env \<Rightarrow> LivePhotoSearchOptions \<Rightarrow> AssetEntity option io" where
  "findLivePhotoMatch env opts =
     bnd (emit (FindLivePhotoMatch opts)) (\<lambda>_.
       if findLivePhotoMatch_rejects env opts then throw
       else (\<lambda>s. (Ok (find (isLivePhotoMatch opts (exifs s)) (assets s)), s)))"

text \<open>
  Modelled from the spec: \<open>AssetCore.save\<close> is not in the sources. The spec's asset
  repository has \<open>updateAsset(id, partialFields) -> updatedAsset\<close>: the given fields of the
  row with that identity are overwritten in place and the updated row is returned. A row that
  does not exist cannot be updated: the call throws.
\<close>

definition savedRows :: "string \<Rightarrow> AssetField list \<Rightarrow> AssetEntity list \<Rightarrow> AssetEntity list" where
  "savedRows i fs A = map (\<lambda>y. if id y = i then setFields fs y else y) A"

definition assetSave :: "env \<Rightarrow> string \<Rightarrow> AssetField list \<Rightarrow> AssetEntity io" where
  "assetSave env i fs =
     bnd (emit (AssetSave i fs)) (\<lambda>_.
       if save_rejects env i fs then throw
       else (\<lambda>s. case find (\<lambda>x. id x = i) (assets s) of
                    None \<Rightarrow> (Throw, s)
                  | Some x \<Rightarrow> (Ok (setFields fs x), s\<lparr>assets := savedRows i fs (assets s)\<rparr>)))"

text \<open>
  Modelled from the spec: the metadata record store is the ORM's repository, not in the
  sources. The spec's \<open>upsert(record, conflictKey=assetId)\<close> creates the record or replaces,
  wholesale, the one of the same asset.
\<close>

definition upsertExif :: "ExifEntity \<Rightarrow> ExifEntity list \<Rightarrow> ExifEntity list" where
  "upsertExif e es =
     (if list_ex (\<lambda>r. assetId r = assetId e) es
      then map (\<lambda>r. if assetId r = assetId e then e else r) es
      else es @ [e])"

definition exifUpsert :: "env \<Rightarrow> ExifEntity \<Rightarrow> unit io" where
  "exifUpsert env e =
     bnd (emit (ExifUpsert e)) (\<lambda>_.
       if upsert_rejects env e then throw
       else (\<lambda>s. (Ok (), s\<lparr>exifs := upsertExif e (exifs s)\<rparr>)))"

text \<open>
  Modelled from the spec: the job repository is not in the sources. The spec's job queue has
  \<open>enqueue(jobName, payload)\<close>, \<open>pause(queueName)\<close> and \<open>resume(queueName)\<close>.
\<close>

definition jobQueue :: "env \<Rightarrow> Job \<Rightarrow> unit io" where
  "jobQueue env j =
     bnd (emit (JobQueue j)) (\<lambda>_.
       if queue_rejects env j then throw
       else (\<lambda>s. (Ok (), s\<lparr>jobs := jobs s @ [j]\<rparr>)))"

definition jobPause :: "env \<Rightarrow> QueueName \<Rightarrow> unit io" where
  "jobPause env q =
     bnd (emit (JobPause q)) (\<lambda>_.
       if pause_rejects env q then throw
       else (\<lambda>s. (Ok (), s\<lparr>paused := List.insert q (paused s)\<rparr>)))"

definition jobResume :: "env \<Rightarrow> QueueName \<Rightarrow> unit io" where
  "jobResume env q =
     bnd (emit (JobResume q)) (\<lambda>_.
       if resume_rejects env q then throw
       else (\<lambda>s. (Ok (), s\<lparr>paused := removeAll q (paused s)\<rparr>)))"

section \<open>\<open>MetadataExtractionProcessor.init\<close>\<close>

text \<open>Lines 54 to 74. The geocoding repository's \<open>deleteCache\<close> and \<open>init\<close> resolve or throw.\<close>

definition init :: "env \<Rightarrow> bool \<Rightarrow> unit io" where
  "init env deleteCache =
     bnd (emit (Logger WARN)) (\<lambda>_.
       if reverseGeocodingEnabled env then
         tryCatch
           (bnd (if deleteCache
                 then call GeocodingDeleteCache (if geocoding_deleteCache env then Some () else None)
                 else ret ()) (\<lambda>_.
            bnd (emit (Logger LOG)) (\<lambda>_.
            bnd (jobPause env METADATA_EXTRACTION) (\<lambda>_.
            bnd (call GeocodingInit (if geocoding_init env then Some () else None)) (\<lambda>_.
            bnd (jobResume env METADATA_EXTRACTION) (\<lambda>_.
            emit (Logger LOG)))))))
           (emit (Logger ERROR))
       else ret ())"

section \<open>\<open>handleQueueMetadataExtraction\<close>\<close>

text \<open>
  Modelled from the spec: \<open>usePagination\<close>, \<open>JOBS_ASSET_PAGINATION_SIZE\<close> and the asset
  repository's \<open>getAll\<close> and \<open>getWithout\<close> are not in the sources. The spec's dispatcher
  enumerates the population through a page source of bounded page size, all assets when
  \<open>force\<close> is set and else the assets with no metadata record; the pages are pulled one
  after the other, each pull a call that may fail.
\<close>

definition JOBS_ASSET_PAGINATION_SIZE :: nat where
  "JOBS_ASSET_PAGINATION_SIZE = 1000"

definition withoutExif :: "world \<Rightarrow> AssetEntity list" where
  "withoutExif s =
     filter (\<lambda>a. if list_ex (\<lambda>r. assetId r = id a) (exifs s) then False else True) (assets s)"

function usePagination :: "nat \<Rightarrow> 'a list \<Rightarrow> 'a list list" where
  "usePagination pageSize items =
     (if pageSize = 0 \<or> length items \<le> pageSize then [items]
      else take pageSize items # usePagination pageSize (drop pageSize items))"
  by pat_completeness auto
termination
  by (relation "measure (\<lambda>(pageSize, items). length items)") auto

declare usePagination.simps [simp del]

definition getPage :: "env \<Rightarrow> nat \<Rightarrow> unit io" where
  "getPage env k = call (GetPage k) (if getPage_rejects env k then None else Some ())"

text \<open>Lines 88 and 89 (and 415 and 416): the extraction job of an asset, by its type.\<close>

definition metadataJob :: "AssetEntity \<Rightarrow> Job" where
  "metadataJob asset =
     Job (if type asset = VIDEO then EXTRACT_VIDEO_METADATA else EXIF_EXTRACTION) asset"

text \<open>The inner loop of lines 87 to 90: one job per asset of the page.\<close>

fun queueAssets :: "env \<Rightarrow> AssetEntity list \<Rightarrow> unit io" where
  "queueAssets env [] = ret ()"
| "queueAssets env (asset # rest) =
     bnd (jobQueue env (metadataJob asset)) (\<lambda>_. queueAssets env rest)"

text \<open>The queue takes the job of this asset.\<close>

definition accepted :: "env \<Rightarrow> AssetEntity \<Rightarrow> bool" where
  "accepted env a = (\<not> queue_rejects env (metadataJob a))"

text \<open>The outer loop of lines 86 to 91: page \<open>k\<close> is pulled, then its assets are queued.\<close>

fun scanPages :: "env \<Rightarrow> nat \<Rightarrow> AssetEntity list list \<Rightarrow> unit io" where
  "scanPages env k [] = ret ()"
| "scanPages env k (page # pages) =
     bnd (getPage env k) (\<lambda>_.
     bnd (queueAssets env page) (\<lambda>_.
     scanPages env (Suc k) pages))"

text \<open>Lines 76 to 95, on the job's \<open>force\<close> flag.\<close>

definition handleQueueMetadataExtraction :: "env \<Rightarrow> bool \<Rightarrow> unit io" where
  "handleQueueMetadataExtraction env force =
     (\<lambda>s. tryCatch
            (scanPages env 0
               (usePagination JOBS_ASSET_PAGINATION_SIZE (if force then assets s else withoutExif s)))
            (emit (Logger ERROR)) s)"

section \<open>\<open>SidecarProcessor.handleSidecarSync\<close>\<close>

text \<open>Lines 407 to 420.\<close>

definition handleSidecarSync :: "env \<Rightarrow> AssetEntity \<Rightarrow> unit io" where
  "handleSidecarSync env asset =
     (if isVisible asset then
        tryCatch (jobQueue env (metadataJob asset)) (emit (Logger ERROR))
      else ret ())"

section \<open>\<open>extractExifInfo\<close>\<close>

text \<open>
  \<open>exiftool.read(path).catch(...)\<close> (lines 102 to 108, 110 to 116 and 248 to 254): a read
  that fails is logged as a warning and yields \<open>null\<close>.
\<close>

definition readTags :: "env \<Rightarrow> string \<Rightarrow> Tags option io" where
  "readTags env path =
     tryCatch (bnd (call (ExiftoolRead path) (exiftool_read env path)) (\<lambda>tags. ret (Some tags)))
       (bnd (emit (Logger WARN)) (\<lambda>_. ret None))"

text \<open>The string of a value: \<open>String(v)\<close>, \<open>v.toString()\<close> and template literals.\<close>

definition toStr :: "env \<Rightarrow> tagval \<Rightarrow> string" where
  "toStr env v = (case v of TString s \<Rightarrow> s | TNumber n \<Rightarrow> toString env v
                   | TDateTime d \<Rightarrow> toString env v | TArray xs \<Rightarrow> toString env v)"

text \<open>
  \<open>exifToDate\<close> (lines 119 to 127). A truthy value that is neither a string nor an
  \<open>ExifDateTime\<close> has no \<open>toDate\<close>: the call throws.
\<close>

definition exifToDate :: "tagval \<Rightarrow> instant option io" where
  "exifToDate exifDate =
     (if truthy exifDate then
        (case exifDate of
           TString s \<Rightarrow> ret (Some (DateOfString s))
         | TDateTime d \<Rightarrow> ret (Some (DateOfExif d))
         | TNumber n \<Rightarrow> throw
         | TArray xs \<Rightarrow> throw)
      else ret None)"

text \<open>\<open>exifTimeZone\<close> (lines 129 to 137).\<close>

definition exifTimeZone :: "tagval \<Rightarrow> string option" where
  "exifTimeZone exifDate =
     (if truthy exifDate then
        (case exifDate of
           TString s \<Rightarrow> None
         | TDateTime d \<Rightarrow> zone d
         | TNumber n \<Rightarrow> None
         | TArray xs \<Rightarrow> None)
      else None)"

text \<open>\<open>n || null\<close> for a number that may be undefined.\<close>

definition numOrNull :: "jsnum option \<Rightarrow> tagval option" where
  "numOrNull n = (case n of None \<Rightarrow> None | Some x \<Rightarrow> if truthyNum x then Some (TNumber x) else None)"

text \<open>Lines 150 to 178: the new record, and the capture date that line 216 saves.\<close>

definition imageExif ::
  "env \<Rightarrow> AssetEntity \<Rightarrow> Tags option \<Rightarrow> Tags option \<Rightarrow> (ExifEntity \<times> instant option) io" where
  "imageExif env asset sidecarExifData mediaExifData =
     (let getExif = getExifProperty sidecarExifData mediaExifData;
          timeZone' = exifTimeZone
            (orString (getExif [''DateTimeOriginal'', ''CreateDate'']) (fileCreatedAt asset))
      in
      bnd (exifToDate
             (orString (getExif [''DateTimeOriginal'', ''CreateDate'']) (fileCreatedAt asset)))
        (\<lambda>fileCreatedAt'.
      bnd (exifToDate (orString (getExif [''ModifyDate'']) (fileModifiedAt asset)))
        (\<lambda>fileModifiedAt'.
      bnd (call (StatSync (originalPath asset)) (fs_statSync env (originalPath asset)))
        (\<lambda>fileSizeInBytes.
      ret (new_ExifEntity
             \<lparr>assetId := id asset,
              fileSizeInByte := Some fileSizeInBytes,
              exif_make := getExif [''Make''],
              model := getExif [''Model''],
              exifImageHeight := getExif [''ExifImageHeight'', ''ImageHeight''],
              exifImageWidth := getExif [''ExifImageWidth'', ''ImageWidth''],
              exposureTime := getExif [''ExposureTime''],
              orientation :=
                (case getExif [''Orientation''] of None \<Rightarrow> Undefined | Some v \<Rightarrow> Val (toStr env v)),
              dateTimeOriginal := fileCreatedAt',
              modifyDate := fileModifiedAt',
              timeZone := timeZone',
              lensModel := getExif [''LensModel''],
              fNumber := getExif [''FNumber''],
              focalLength :=
                (case getExif [''FocalLength''] of
                   None \<Rightarrow> None
                 | Some v \<Rightarrow> if truthy v then Some (parseFloat (toStr env v)) else None),
              iso :=
                (case getExif [''ISO''] of
                   None \<Rightarrow> None
                 | Some (TArray xs) \<Rightarrow> (case xs of [] \<Rightarrow> None | x # _ \<Rightarrow> Some x)
                 | Some v \<Rightarrow> if truthy v then Some v else None),
              latitude := getExif [''GPSLatitude''],
              longitude := getExif [''GPSLongitude''],
              livePhotoCID := getExif [''MediaGroupUUID'']\<rparr>,
           fileCreatedAt')))))"

text \<open>Lines 180 to 191: the still looks for its motion video.\<close>

definition pairWithMotionAsset :: "env \<Rightarrow> AssetEntity \<Rightarrow> ExifEntity \<Rightarrow> unit io" where
  "pairWithMotionAsset env asset newExif =
     (case livePhotoCID newExif of
        None \<Rightarrow> ret ()
      | Some cid \<Rightarrow>
          if truthy cid \<and> \<not> truthyStr (livePhotoVideoId asset) then
            bnd (findLivePhotoMatch env
                   (LivePhotoSearchOptions cid (id asset) (ownerId asset) VIDEO))
              (\<lambda>motionAsset.
                 case motionAsset of
                   None \<Rightarrow> ret ()
                 | Some m \<Rightarrow>
                     bnd (assetSave env (id asset) [LivePhotoVideoId (id m)]) (\<lambda>_.
                     bnd (assetSave env (id m) [IsVisible False]) (\<lambda>_. ret ())))
          else ret ())"

text \<open>\<open>applyReverseGeocoding\<close> (lines 347 to 362).\<close>

definition applyReverseGeocoding :: "env \<Rightarrow> AssetEntity \<Rightarrow> ExifEntity \<Rightarrow> ExifEntity io" where
  "applyReverseGeocoding env asset newExif =
     (case (latitude newExif, longitude newExif) of
        (Some lat, Some lon) \<Rightarrow>
          if reverseGeocodingEnabled env \<and> truthy lon \<and> truthy lat then
            tryCatch
              (bnd (call (ReverseGeocode lat lon) (reverseGeocode env lat lon))
                 (\<lambda>(country', state', city').
                    ret (newExif\<lparr>country := country', state := state', city := city'\<rparr>)))
              (bnd (emit (Logger WARN)) (\<lambda>_. ret newExif))
          else ret newExif
      | _ \<Rightarrow> ret newExif)"

definition falsyOrientation :: "string nullable \<Rightarrow> bool" where
  "falsyOrientation v = (case v of Undefined \<Rightarrow> True | Null \<Rightarrow> True | Val s \<Rightarrow> s = [])"

definition falsyOpt :: "tagval option \<Rightarrow> bool" where
  "falsyOpt v = (if truthyOpt v then False else True)"

text \<open>Lines 195 to 213: the image header is read when a dimension or the orientation is unset.\<close>

definition inspectImage :: "env \<Rightarrow> AssetEntity \<Rightarrow> ExifEntity \<Rightarrow> ExifEntity io" where
  "inspectImage env asset newExif =
     (if falsyOpt (exifImageHeight newExif) \<or> falsyOpt (exifImageWidth newExif)
         \<or> falsyOrientation (orientation newExif) then
        bnd (call (SharpMetadataOf (originalPath asset)) (sharp_metadata env (originalPath asset)))
          (\<lambda>metadata.
             ret (newExif
                    \<lparr>exifImageHeight :=
                       (if exifImageHeight newExif = None then numOrNull (sharp_height metadata)
                        else exifImageHeight newExif),
                     exifImageWidth :=
                       (if exifImageWidth newExif = None then numOrNull (sharp_width metadata)
                        else exifImageWidth newExif),
                     orientation :=
                       (if orientation newExif = Null then
                          (case sharp_orientation metadata of
                             None \<Rightarrow> Null
                           | Some n \<Rightarrow> Val (toStr env (TNumber n)))
                        else orientation newExif)\<rparr>))
      else ret newExif)"

text \<open>Lines 215 to 217: the record is upserted, the capture date saved, the next job queued.\<close>

definition persistImage ::
  "env \<Rightarrow> AssetEntity \<Rightarrow> ExifEntity \<Rightarrow> instant option \<Rightarrow> unit io" where
  "persistImage env asset newExif fileCreatedAt' =
     bnd (exifUpsert env newExif) (\<lambda>_.
     bnd (case fileCreatedAt' of
            None \<Rightarrow> ret []
          | Some d \<Rightarrow> (case toISOString env d of None \<Rightarrow> throw | Some t \<Rightarrow> ret [FileCreatedAt t]))
       (\<lambda>fields.
     bnd (assetSave env (id asset) fields) (\<lambda>asset'.
     jobQueue env (Job STORAGE_TEMPLATE_MIGRATION_SINGLE asset'))))"

text \<open>Lines 102 to 178: the two tag sets are read and the record is built.\<close>

definition readImageExif :: "env \<Rightarrow> AssetEntity \<Rightarrow> (ExifEntity \<times> instant option) io" where
  "readImageExif env asset =
     bnd (readTags env (originalPath asset)) (\<lambda>mediaExifData.
     bnd (case sidecarPath asset of
            None \<Rightarrow> ret (Some Map.empty)
          | Some p \<Rightarrow> if p = [] then ret (Some Map.empty) else readTags env p)
       (\<lambda>sidecarExifData.
     imageExif env asset sidecarExifData mediaExifData))"

text \<open>Lines 193 to 213: the place names and the image header complete the record.\<close>

definition completeImageExif :: "env \<Rightarrow> AssetEntity \<Rightarrow> ExifEntity \<Rightarrow> ExifEntity io" where
  "completeImageExif env asset newExif =
     bnd (applyReverseGeocoding env asset newExif) (\<lambda>newExif.
     inspectImage env asset newExif)"

text \<open>Lines 193 to 217: what follows the pairing.\<close>

definition finishImageExif ::
  "env \<Rightarrow> AssetEntity \<Rightarrow> ExifEntity \<Rightarrow> instant option \<Rightarrow> unit io" where
  "finishImageExif env asset newExif fileCreatedAt' =
     bnd (completeImageExif env asset newExif) (\<lambda>newExif.
     persistImage env asset newExif fileCreatedAt')"

text \<open>Lines 97 to 224, on the job's asset snapshot.\<close>

definition extractExifInfo :: "env \<Rightarrow> AssetEntity \<Rightarrow> unit io" where
  "extractExifInfo env asset =
     tryCatch
       (bnd (readImageExif env asset) (\<lambda>(newExif, fileCreatedAt').
        bnd (pairWithMotionAsset env asset newExif) (\<lambda>_.
        finishImageExif env asset newExif fileCreatedAt')))
       (emit (Logger ERROR))"

section \<open>\<open>extractVideoMetadata\<close>\<close>

text \<open>
  \<open>extractDuration\<close> (lines 364 to 371), on \<open>data.format.duration || asset.duration\<close>: a
  number, a string or \<open>null\<close>. \<open>Number\<close> of a string and the formatting of the duration
  are the runtime's.
\<close>

definition extractDuration :: "env \<Rightarrow> tagval option \<Rightarrow> string option" where
  "extractDuration env duration' =
     (let videoDurationInSecond =
            (case duration' of
               None \<Rightarrow> Num 0
             | Some (TNumber n) \<Rightarrow> n
             | Some (TString t) \<Rightarrow> toNumber env t
             | Some v \<Rightarrow> NaN)
      in if truthyNum videoDurationInSecond then Some (toFormat env videoDurationInSecond)
         else None)"

text \<open>Lines 237 to 246: the capture date of a video, from the container's tags.\<close>

definition videoCreatedAt :: "env \<Rightarrow> AssetEntity \<Rightarrow> Tags option \<Rightarrow> string" where
  "videoCreatedAt env asset videoTags =
     (case videoTags of
        None \<Rightarrow> fileCreatedAt asset
      | Some tags \<Rightarrow>
          (case tags ''com.apple.quicktime.creationdate'' of
             Some v \<Rightarrow>
               if truthy v then toStr env v
               else (case tags ''creation_time'' of
                       Some w \<Rightarrow> if truthy w then toStr env w else fileCreatedAt asset
                     | None \<Rightarrow> fileCreatedAt asset)
           | None \<Rightarrow>
               (case tags ''creation_time'' of
                  Some w \<Rightarrow> if truthy w then toStr env w else fileCreatedAt asset
                | None \<Rightarrow> fileCreatedAt asset)))"

text \<open>Lines 256 to 268: the new record of a video.\<close>

definition videoExif :: "AssetEntity \<Rightarrow> FfprobeData \<Rightarrow> string \<Rightarrow> Tags option \<Rightarrow> ExifEntity" where
  "videoExif asset data' fileCreatedAt' exifData =
     new_ExifEntity
       \<lparr>assetId := id asset,
        fileSizeInByte := (if truthyNumOpt (format_size data') then format_size data' else None),
        dateTimeOriginal := (if fileCreatedAt' = [] then None else Some (DateOfString fileCreatedAt')),
        modifyDate := None,
        timeZone := None,
        latitude := None,
        longitude := None,
        city := None,
        state := None,
        country := None,
        fps := None,
        livePhotoCID :=
          (if truthyOpt (tagOf exifData ''ContentIdentifier'')
           then tagOf exifData ''ContentIdentifier'' else None)\<rparr>"

text \<open>Lines 270 to 281: the motion video looks for its still.\<close>

definition pairWithPhotoAsset :: "env \<Rightarrow> AssetEntity \<Rightarrow> ExifEntity \<Rightarrow> unit io" where
  "pairWithPhotoAsset env asset newExif =
     (case livePhotoCID newExif of
        None \<Rightarrow> ret ()
      | Some cid \<Rightarrow>
          if truthy cid then
            bnd (findLivePhotoMatch env
                   (LivePhotoSearchOptions cid (id asset) (ownerId asset) IMAGE))
              (\<lambda>photoAsset.
                 case photoAsset of
                   None \<Rightarrow> ret ()
                 | Some p \<Rightarrow>
                     bnd (assetSave env (id p) [LivePhotoVideoId (id asset)]) (\<lambda>_.
                     bnd (assetSave env (id asset) [IsVisible False]) (\<lambda>_. ret ())))
          else ret ())"

text \<open>The coordinates of a parsed location, written into the record.\<close>

definition setCoordinates :: "(jsnum \<times> jsnum) option \<Rightarrow> ExifEntity \<Rightarrow> ExifEntity" where
  "setCoordinates c newExif =
     (case c of
        None \<Rightarrow> newExif
      | Some (lat, lon) \<Rightarrow> newExif\<lparr>latitude := Some (TNumber lat), longitude := Some (TNumber lon)\<rparr>)"

text \<open>
  Lines 283 to 301. The tag value is cast to a string, not converted: a truthy value that is
  not a string has no \<open>match\<close>, and the call throws.
\<close>

definition videoLocation :: "Tags option \<Rightarrow> ExifEntity \<Rightarrow> ExifEntity io" where
  "videoLocation videoTags newExif =
     (case videoTags of
        None \<Rightarrow> ret newExif
      | Some tags \<Rightarrow>
          if truthyOpt (tags ''location'') then
            (case tags ''location'' of
               Some (TString location) \<Rightarrow> ret (setCoordinates (parseLocation location) newExif)
             | _ \<Rightarrow> throw)
          else if truthyOpt (tags ''com.apple.quicktime.location.ISO6709'') then
            (case tags ''com.apple.quicktime.location.ISO6709'' of
               Some (TString location) \<Rightarrow>
                 ret (setCoordinates (parseLocationISO6709 location) newExif)
             | _ \<Rightarrow> throw)
          else ret newExif)"

text \<open>Lines 303 to 309: the time zone from the coordinates.\<close>

definition videoTimeZone :: "env \<Rightarrow> ExifEntity \<Rightarrow> ExifEntity io" where
  "videoTimeZone env newExif =
     (case (latitude newExif, longitude newExif) of
        (Some lat, Some lon) \<Rightarrow>
          if truthy lon \<and> truthy lat then
            tryCatch
              (bnd (call (TzLookup lat lon) (tz_lookup env lat lon))
                 (\<lambda>tz. ret (newExif\<lparr>timeZone := Some tz\<rparr>)))
              (bnd (emit (Logger WARN)) (\<lambda>_. ret newExif))
          else ret newExif
      | _ \<Rightarrow> ret newExif)"

text \<open>Lines 314 to 333: one stream of the loop.\<close>

definition videoStream :: "env \<Rightarrow> FfprobeStream \<Rightarrow> ExifEntity \<Rightarrow> ExifEntity" where
  "videoStream env stream newExif =
     (if codec_type stream = Some ''video'' then
        newExif
          \<lparr>exifImageWidth := numOrNull (stream_width stream),
           exifImageHeight := numOrNull (stream_height stream),
           orientation :=
             (case rotation stream of
                Some (TString r) \<Rightarrow> Val r
              | Some (TNumber n) \<Rightarrow> Val (toStr env (TNumber n))
              | _ \<Rightarrow> Null),
           fps := frameRate (r_frame_rate stream) (fps newExif)\<rparr>
      else newExif)"

text \<open>Lines 336 to 338.\<close>

definition persistVideo ::
  "env \<Rightarrow> AssetEntity \<Rightarrow> ExifEntity \<Rightarrow> string option \<Rightarrow> string \<Rightarrow> unit io" where
  "persistVideo env asset newExif durationString fileCreatedAt' =
     bnd (exifUpsert env newExif) (\<lambda>_.
     bnd (assetSave env (id asset) [Duration durationString, FileCreatedAt fileCreatedAt'])
       (\<lambda>asset'.
     jobQueue env (Job STORAGE_TEMPLATE_MIGRATION_SINGLE asset')))"

text \<open>Lines 235 to 268: the probe, the tag read and the new record.\<close>

definition readVideoExif :: "env \<Rightarrow> AssetEntity \<Rightarrow> (FfprobeData \<times> ExifEntity) io" where
  "readVideoExif env asset =
     bnd (call (Ffprobe (originalPath asset)) (ffprobe env (originalPath asset))) (\<lambda>data'.
     bnd (readTags env
            (case sidecarPath asset of
               None \<Rightarrow> originalPath asset
             | Some p \<Rightarrow> if p = [] then originalPath asset else p))
       (\<lambda>exifData.
     ret (data', videoExif asset data' (videoCreatedAt env asset (format_tags data')) exifData)))"

text \<open>
  Lines 283 to 334: the location, the time zone, the place names and the streams complete
  the record.
\<close>

definition completeVideoExif ::
  "env \<Rightarrow> AssetEntity \<Rightarrow> FfprobeData \<Rightarrow> ExifEntity \<Rightarrow> ExifEntity io" where
  "completeVideoExif env asset data' newExif =
     bnd (videoLocation (format_tags data') newExif) (\<lambda>newExif.
     bnd (videoTimeZone env newExif) (\<lambda>newExif.
     bnd (applyReverseGeocoding env asset newExif) (\<lambda>newExif.
     ret (fold (videoStream env) (streams data') newExif))))"

text \<open>Lines 283 to 338: what follows the pairing.\<close>

definition finishVideoExif :: "env \<Rightarrow> AssetEntity \<Rightarrow> FfprobeData \<Rightarrow> ExifEntity \<Rightarrow> unit io" where
  "finishVideoExif env asset data' newExif =
     bnd (completeVideoExif env asset data' newExif) (\<lambda>newExif.
     persistVideo env asset newExif
       (extractDuration env
          (if truthyNumOpt (format_duration data')
           then map_option TNumber (format_duration data')
           else map_option TString (duration asset)))
       (videoCreatedAt env asset (format_tags data')))"

text \<open>Lines 226 to 345, on the job's asset snapshot.\<close>

definition extractVideoMetadata :: "env \<Rightarrow> AssetEntity \<Rightarrow> unit io" where
  "extractVideoMetadata env asset =
     (if isVisible asset then
        tryCatch
          (bnd (readVideoExif env asset) (\<lambda>(data', newExif).
           bnd (pairWithPhotoAsset env asset newExif) (\<lambda>_.
           finishVideoExif env asset data' newExif)))
          (emit (Logger ERROR))
      else ret ())"

section \<open>Example inputs\<close>

text \<open>
  A still and its motion video of one owner. The still's file carries the content identifier
  \<open>X\<close> in \<open>MediaGroupUUID\<close>, the video's file in \<open>ContentIdentifier\<close>; every other file has
  no tags to read.
\<close>

definition stillA :: AssetEntity where
  "stillA =
     \<lparr>id = ''A'', ownerId = ''u'', type = IMAGE, originalPath = ''/a.heic'', sidecarPath = None,
      isVisible = True, livePhotoVideoId = None, fileCreatedAt = ''2023-01-01T10:00:00.000Z'',
      fileModifiedAt = ''2023-01-02T10:00:00.000Z'', duration = None\<rparr>"

definition motionB :: AssetEntity where
  "motionB =
     \<lparr>id = ''B'', ownerId = ''u'', type = VIDEO, originalPath = ''/b.mov'', sidecarPath = None,
      isVisible = True, livePhotoVideoId = None, fileCreatedAt = ''2023-01-01T10:00:00.000Z'',
      fileModifiedAt = ''2023-01-02T10:00:00.000Z'', duration = None\<rparr>"

definition exampleTags :: "string \<Rightarrow> Tags option" where
  "exampleTags path =
     (if path = ''/a.heic'' then Some [''MediaGroupUUID'' \<mapsto> TString ''X'']
      else if path = ''/b.mov'' then Some [''ContentIdentifier'' \<mapsto> TString ''X'']
      else None)"

text \<open>An environment in which every call succeeds.\<close>

definition exampleEnv :: env where
  "exampleEnv =
     \<lparr>reverseGeocodingEnabled = True,
      exiftool_read = exampleTags,
      fs_statSync = (\<lambda>path. Some (Num 1024)),
      sharp_metadata = (\<lambda>path. Some (SharpMetadata (Some (Num 480)) (Some (Num 640)) None)),
      ffprobe = (\<lambda>path. Some (FfprobeData (Some (Num 3)) (Some (Num 2048)) None [])),
      tz_lookup = (\<lambda>lat lon. Some ''Etc/UTC''),
      reverseGeocode = (\<lambda>lat lon. Some (Some ''Country'', Some ''State'', Some ''City'')),
      geocoding_init = True,
      geocoding_deleteCache = True,
      toISOString = (\<lambda>d. case d of DateOfString t \<Rightarrow> Some t | DateOfExif e \<Rightarrow> Some (rawValue e)),
      toString = (\<lambda>v. ''value''),
      toNumber = (\<lambda>t. NaN),
      toFormat = (\<lambda>n. ''00:00:03.000''),
      save_rejects = (\<lambda>i fs. False),
      findLivePhotoMatch_rejects = (\<lambda>opts. False),
      upsert_rejects = (\<lambda>e. False),
      queue_rejects = (\<lambda>j. False),
      pause_rejects = (\<lambda>q. False),
      resume_rejects = (\<lambda>q. False),
      getPage_rejects = (\<lambda>k. False)\<rparr>"

definition exampleWorld :: world where
  "exampleWorld = \<lparr>assets = [stillA, motionB], exifs = [], jobs = [], paused = [], trace = []\<rparr>"

section \<open>What a handler leaves in the tables\<close>

text \<open>
  Most stages of a handler only call out (they read a file, probe an image, look a time zone
  up) and leave the tables as they are: whatever the world, they give the same result and
  append the same events.
\<close>

definition traceOnly :: "'a io \<Rightarrow> bool" where
  "traceOnly m = (\<exists>r evs. \<forall>s. m s = (r, s\<lparr>trace := trace s @ evs\<rparr>))"

text \<open>The result of such a stage is the one it gives on empty tables.\<close>

definition emptyWorld :: world where
  "emptyWorld = \<lparr>assets = [], exifs = [], jobs = [], paused = [], trace = []\<rparr>"

definition pureResult :: "'a io \<Rightarrow> 'a result" where
  "pureResult m = fst (m emptyWorld)"

text \<open>A save throws when it is rejected or when the row does not exist.\<close>

definition saveFails :: "env \<Rightarrow> string \<Rightarrow> AssetField list \<Rightarrow> AssetEntity list \<Rightarrow> bool" where
  "saveFails env i fs A = (save_rejects env i fs \<or> find (\<lambda>x. id x = i) A = None)"

text \<open>The tables after the pairing step of a handler, and whether the step returned.\<close>

definition pairTables ::
  "env \<Rightarrow> LivePhotoSearchOptions \<Rightarrow> (string \<Rightarrow> string \<times> AssetField list)
     \<Rightarrow> (string \<Rightarrow> string \<times> AssetField list) \<Rightarrow> AssetEntity list \<Rightarrow> ExifEntity list
     \<Rightarrow> bool \<times> AssetEntity list" where
  "pairTables env opts save1 save2 A E =
     (if findLivePhotoMatch_rejects env opts then (False, A)
      else case find (isLivePhotoMatch opts E) A of
             None \<Rightarrow> (True, A)
           | Some m \<Rightarrow>
               (if saveFails env (fst (save1 (id m))) (snd (save1 (id m))) A then (False, A)
                else if saveFails env (fst (save2 (id m))) (snd (save2 (id m)))
                          (savedRows (fst (save1 (id m))) (snd (save1 (id m))) A)
                then (False, savedRows (fst (save1 (id m))) (snd (save1 (id m))) A)
                else (True, savedRows (fst (save2 (id m))) (snd (save2 (id m)))
                              (savedRows (fst (save1 (id m))) (snd (save1 (id m))) A))))"

definition motionPairing ::
  "env \<Rightarrow> AssetEntity \<Rightarrow> ExifEntity \<Rightarrow> AssetEntity list \<Rightarrow> ExifEntity list \<Rightarrow> bool \<times> AssetEntity list" where
  "motionPairing env asset e A E =
     (case livePhotoCID e of
        None \<Rightarrow> (True, A)
      | Some cid \<Rightarrow>
          if truthy cid \<and> \<not> truthyStr (livePhotoVideoId asset) then
            pairTables env (LivePhotoSearchOptions cid (id asset) (ownerId asset) VIDEO)
              (\<lambda>m. (id asset, [LivePhotoVideoId m])) (\<lambda>m. (m, [IsVisible False])) A E
          else (True, A))"

definition photoPairing ::
  "env \<Rightarrow> AssetEntity \<Rightarrow> ExifEntity \<Rightarrow> AssetEntity list \<Rightarrow> ExifEntity list \<Rightarrow> bool \<times> AssetEntity list" where
  "photoPairing env asset e A E =
     (case livePhotoCID e of
        None \<Rightarrow> (True, A)
      | Some cid \<Rightarrow>
          if truthy cid then
            pairTables env (LivePhotoSearchOptions cid (id asset) (ownerId asset) IMAGE)
              (\<lambda>m. (m, [LivePhotoVideoId (id asset)])) (\<lambda>m. (id asset, [IsVisible False])) A E
          else (True, A))"

text \<open>The fields that line 216 saves: \<open>None\<close> when \<open>toISOString\<close> throws.\<close>

definition isoFields :: "env \<Rightarrow> instant option \<Rightarrow> AssetField list option" where
  "isoFields env fca =
     (case fca of
        None \<Rightarrow> Some []
      | Some d \<Rightarrow> (case toISOString env d of None \<Rightarrow> None | Some t \<Rightarrow> Some [FileCreatedAt t]))"

text \<open>The tables after the record is upserted and the asset saved.\<close>

definition persistTables ::
  "env \<Rightarrow> string \<Rightarrow> ExifEntity \<Rightarrow> AssetField list option \<Rightarrow> AssetEntity list \<Rightarrow> ExifEntity list
     \<Rightarrow> AssetEntity list \<times> ExifEntity list" where
  "persistTables env i e toSave A E =
     (if upsert_rejects env e then (A, E)
      else case toSave of
             None \<Rightarrow> (A, upsertExif e E)
           | Some fs \<Rightarrow> (if saveFails env i fs A then A else savedRows i fs A, upsertExif e E))"

text \<open>The two tables after the image handler and after the video handler.\<close>

definition imageTables ::
  "env \<Rightarrow> AssetEntity \<Rightarrow> AssetEntity list \<Rightarrow> ExifEntity list \<Rightarrow> AssetEntity list \<times> ExifEntity list" where
  "imageTables env asset A E =
     (case pureResult (readImageExif env asset) of
        Throw \<Rightarrow> (A, E)
      | Ok (e, fca) \<Rightarrow>
          if fst (motionPairing env asset e A E) then
            (case pureResult (completeImageExif env asset e) of
               Throw \<Rightarrow> (snd (motionPairing env asset e A E), E)
             | Ok e2 \<Rightarrow>
                 persistTables env (id asset) e2 (isoFields env fca)
                   (snd (motionPairing env asset e A E)) E)
          else (snd (motionPairing env asset e A E), E))"

text \<open>The fields that line 337 saves.\<close>

definition videoFields :: "env \<Rightarrow> AssetEntity \<Rightarrow> FfprobeData \<Rightarrow> AssetField list" where
  "videoFields env asset d =
     [Duration (extractDuration env
          (if truthyNumOpt (format_duration d)
           then map_option TNumber (format_duration d)
           else map_option TString (duration asset))),
      FileCreatedAt (videoCreatedAt env asset (format_tags d))]"

definition videoTables ::
  "env \<Rightarrow> AssetEntity \<Rightarrow> AssetEntity list \<Rightarrow> ExifEntity list \<Rightarrow> AssetEntity list \<times> ExifEntity list" where
  "videoTables env asset A E =
     (if isVisible asset then
        (case pureResult (readVideoExif env asset) of
           Throw \<Rightarrow> (A, E)
         | Ok (d, e) \<Rightarrow>
             if fst (photoPairing env asset e A E) then
               (case pureResult (completeVideoExif env asset d e) of
                  Throw \<Rightarrow> (snd (photoPairing env asset e A E), E)
                | Ok e2 \<Rightarrow>
                    persistTables env (id asset) e2 (Some (videoFields env asset d))
                      (snd (photoPairing env asset e A E)) E)
             else (snd (photoPairing env asset e A E), E))
      else (A, E))"

text \<open>The fields that the saves after the pairing write: not the link, not the visibility.\<close>

definition plainField :: "AssetField \<Rightarrow> bool" where
  "plainField f =
     (case f of LivePhotoVideoId v \<Rightarrow> False | IsVisible b \<Rightarrow> False
        | FileCreatedAt t \<Rightarrow> True | Duration d \<Rightarrow> True)"

text \<open>The stored record of asset \<open>i\<close> carries the content identifier.\<close>

definition hasCID :: "ExifEntity list \<Rightarrow> string \<Rightarrow> tagval \<Rightarrow> bool" where
  "hasCID E i cid = list_ex (\<lambda>r. assetId r = i \<and> livePhotoCID r = Some cid) E"

text \<open>
  A still \<open>a\<close> and a video \<open>b\<close> of one owner are rows of the asset table, no two rows share
  an identity, and the two are the only candidates of a search: no other image or video of
  that owner has a stored record with the content identifier. Assets of other owners, and
  records of assets that are not in the table, are free.
\<close>

definition soleCandidates ::
  "tagval \<Rightarrow> AssetEntity \<Rightarrow> AssetEntity \<Rightarrow> AssetEntity list \<Rightarrow> ExifEntity list \<Rightarrow> bool" where
  "soleCandidates cid a b A E =
     (distinct (map id A)
      \<and> list_ex (\<lambda>x. id x = id a \<and> type x = IMAGE \<and> ownerId x = ownerId a) A
      \<and> list_ex (\<lambda>x. id x = id b \<and> type x = VIDEO \<and> ownerId x = ownerId a) A
      \<and> ownerId b = ownerId a \<and> type a = IMAGE \<and> type b = VIDEO
      \<and> list_all (\<lambda>x. if ownerId x = ownerId a \<and> (type x = IMAGE \<or> type x = VIDEO)
                            \<and> hasCID E (id x) cid
                         then id x = id a \<or> id x = id b else True) A)"

text \<open>
  The motion video's record is already stored, and the save of the capture date (line 216) is
  rejected.
\<close>

definition storedMotionWorld :: world where
  "storedMotionWorld =
     exampleWorld\<lparr>exifs := [new_ExifEntity\<lparr>assetId := ''B'', livePhotoCID := Some (TString ''X'')\<rparr>]\<rparr>"

definition dateSaveRejectingEnv :: env where
  "dateSaveRejectingEnv =
     exampleEnv\<lparr>save_rejects := (\<lambda>i fs. case fs of [FileCreatedAt t] \<Rightarrow> True | _ \<Rightarrow> False)\<rparr>"

definition upsertRejectingEnv :: env where
  "upsertRejectingEnv = exampleEnv\<lparr>upsert_rejects := (\<lambda>e. True)\<rparr>"

section \<open>The first rejected call of a scan\<close>

text \<open>
  The first call of the scan that is rejected, if there is one, and the assets whose jobs
  are queued before it: page \<open>k\<close> is pulled, then its assets are queued one by one.
\<close>

fun firstFailure :: "env \<Rightarrow> nat \<Rightarrow> AssetEntity list list \<Rightarrow> event option \<times> AssetEntity list" where
  "firstFailure env k [] = (None, [])"
| "firstFailure env k (page # pages) =
     (if getPage_rejects env k then (Some (GetPage k), [])
      else case dropWhile (accepted env) page of
             [] \<Rightarrow> (fst (firstFailure env (Suc k) pages), page @ snd (firstFailure env (Suc k) pages))
           | a # rest \<Rightarrow> (Some (JobQueue (metadataJob a)), takeWhile (accepted env) page))"

section \<open>More example inputs\<close>

text \<open>A population of two pages, and a page source whose second pull fails.\<close>

definition thousandStills :: "AssetEntity list" where
  "thousandStills = map (\<lambda>n. stillA\<lparr>id := ''A'' @ replicate n (CHR ''*'')\<rparr>) [0..<1000]"

definition crowdedWorld :: world where
  "crowdedWorld = exampleWorld\<lparr>assets := thousandStills @ [motionB]\<rparr>"

definition secondPageRejectingEnv :: env where
  "secondPageRejectingEnv = exampleEnv\<lparr>getPage_rejects := (\<lambda>k. k = 1)\<rparr>"

text \<open>
  A still with a sidecar. Both tag sets define \<open>Make\<close>, \<open>CreateDate\<close>, \<open>ISO\<close> and
  \<open>ImageHeight\<close>; only the embedded tags define \<open>DateTimeOriginal\<close> and \<open>Model\<close>.
\<close>

definition sidecarTags :: Tags where
  "sidecarTags =
     [''Make'' \<mapsto> TString ''Sidecar'',
      ''CreateDate'' \<mapsto> TString ''2021-01-01T00:00:00.000Z'',
      ''ISO'' \<mapsto> TNumber (Num 0),
      ''ImageHeight'' \<mapsto> TNumber (Num 480)]"

definition embeddedTags :: Tags where
  "embeddedTags =
     [''Make'' \<mapsto> TString ''Embedded'',
      ''Model'' \<mapsto> TString ''M'',
      ''DateTimeOriginal'' \<mapsto> TString ''2019-01-01T00:00:00.000Z'',
      ''CreateDate'' \<mapsto> TString ''2020-01-01T00:00:00.000Z'',
      ''ISO'' \<mapsto> TNumber (Num 800),
      ''ImageHeight'' \<mapsto> TNumber (Num 100)]"

definition sidecarEnv :: env where
  "sidecarEnv =
     exampleEnv\<lparr>exiftool_read :=
       (\<lambda>path. if path = ''/a.xmp'' then Some sidecarTags
               else if path = ''/a.heic'' then Some embeddedTags else None)\<rparr>"

definition stillWithSidecar :: AssetEntity where
  "stillWithSidecar = stillA\<lparr>sidecarPath := Some ''/a.xmp''\<rparr>"

text \<open>
  A still whose job already carries a link, a video whose job carries a hidden asset, and a
  table with a video of another owner whose stored record has the same content identifier.
\<close>

definition linkedStill :: AssetEntity where
  "linkedStill = stillA\<lparr>livePhotoVideoId := Some ''Z''\<rparr>"

definition linkedWorld :: world where
  "linkedWorld = exampleWorld\<lparr>assets := [linkedStill, motionB]\<rparr>"

definition hiddenMotion :: AssetEntity where
  "hiddenMotion = motionB\<lparr>isVisible := False\<rparr>"

definition hiddenWorld :: world where
  "hiddenWorld = exampleWorld\<lparr>assets := [stillA, hiddenMotion]\<rparr>"

definition strangerVideo :: AssetEntity where
  "strangerVideo = motionB\<lparr>id := ''C'', ownerId := ''v''\<rparr>"

definition neighbourWorld :: world where
  "neighbourWorld =
     exampleWorld\<lparr>assets := [stillA, strangerVideo, motionB],
                  exifs := [new_ExifEntity\<lparr>assetId := ''C'', livePhotoCID := Some (TString ''X'')\<rparr>]\<rparr>"

section \<open>Unfolding the computations\<close>

lemmas io_defs = ret_def throw_def bnd_def tryCatch_def emit_def call_def after_def returns_def

lemmas parse_defs = parseInt_def parseFloat_def exponentPart_def isWhiteSpace_def
  isDecimalDigit_def isRadixDigit_def digitValue_def

lemmas example_defs = exampleEnv_def exampleWorld_def stillA_def motionB_def exampleTags_def

lemmas truthy_defs = truthy_def truthyOpt_def truthyStr_def truthyNum_def truthyNumOpt_def
  falsyOpt_def falsyOrientation_def numOrNull_def

lemmas repository_defs = findLivePhotoMatch_def isLivePhotoMatch_def assetSave_def savedRows_def
  setFields_def
  exifUpsert_def upsertExif_def jobQueue_def

lemmas image_defs = extractExifInfo_def readImageExif_def imageExif_def pairWithMotionAsset_def
  finishImageExif_def completeImageExif_def applyReverseGeocoding_def inspectImage_def persistImage_def readTags_def
  exifToDate_def exifTimeZone_def orString_def tagOf_def new_ExifEntity_def toStr_def

lemmas video_defs = extractVideoMetadata_def readVideoExif_def videoExif_def
  pairWithPhotoAsset_def finishVideoExif_def completeVideoExif_def videoLocation_def videoTimeZone_def videoStream_def
  persistVideo_def extractDuration_def videoCreatedAt_def setCoordinates_def
  applyReverseGeocoding_def readTags_def tagOf_def new_ExifEntity_def toStr_def

section \<open>The precedence of the tag sources\<close>

lemma getExifProperty_find:
  "getExifProperty sidecar media properties =
     (case find (\<lambda>p. tagOf sidecar p \<noteq> None \<or> tagOf media p \<noteq> None) properties of
        None \<Rightarrow> None
      | Some p \<Rightarrow> (case tagOf sidecar p of Some v \<Rightarrow> Some v | None \<Rightarrow> tagOf media p))"
  by (induction properties) (auto split: option.splits)

lemma getExifProperty_unpopulated:
  "\<forall>p\<in>set properties. tagOf sidecar p = None \<and> tagOf media p = None
   \<Longrightarrow> getExifProperty sidecar media properties = None"
  by (induction properties) auto

section \<open>The frame rate\<close>

lemma frameRate_rounds:
  "frameRate (Some ''30000/1001'') fps' = Some (Num 30)
   \<and> frameRate (Some ''25/1'') fps' = Some (Num 25)
   \<and> frameRate (Some ''25'') fps' = fps'"
  by (simp add: frameRate_def split_on_def parse_defs js_div_def Math_round_def floor_eq_iff)

text \<open>
  C4, at the failing input: a video stream whose \<open>r_frame_rate\<close> is \<open>0/0\<close> gets the frame
  rate NaN, not \<open>null\<close>; nothing guards the division.
\<close>

theorem frame_rate_zero_by_zero_is_NaN:
  "fps (videoStream env (FfprobeStream (Some ''video'') w h r (Some ''0/0'')) newExif) = Some NaN"
  by (simp add: videoStream_def frameRate_def split_on_def parse_defs js_div_def Math_round_def)

section \<open>The location of a video\<close>

lemma parseLocation_examples:
  "parseLocation ''+40.7128-074.0060/'' = Some (Num 40.7128, Num (- 74.006))
   \<and> parseLocation ''+40.7128-074.0060'' = None
   \<and> parseLocationISO6709 ''+40.7128-074.0060+010.000/'' = Some (Num 40.7128, Num (- 74.006))
   \<and> parseLocationISO6709 ''+40.7128-074.0060/'' = None"
  by (simp add: parseLocation_def parseLocationISO6709_def matchGroup_def parse_defs
      numeral_2_eq_2 numeral_3_eq_3)

text \<open>
  C5, at the failing input: a \<open>location\<close> tag with a third group (an altitude) is not
  rejected. The pattern has no anchor at the start, so its two groups match the longitude
  and the altitude, which become the latitude and the longitude of the record.
\<close>

theorem location_with_extra_field_is_parsed:
  "videoLocation (Some [''location'' \<mapsto> TString ''+40.7128-074.0060+010.000/'']) newExif s =
     (Ok (newExif\<lparr>latitude := Some (TNumber (Num (- 74.006))),
                 longitude := Some (TNumber (Num 10))\<rparr>), s)"
  by (simp add: videoLocation_def truthyOpt_def truthy_def parseLocation_def setCoordinates_def
      matchGroup_def parse_defs numeral_2_eq_2 ret_def)

section \<open>Coordinates that are zero or null\<close>

text \<open>
  C9. When the latitude or the longitude of the record is \<open>null\<close> or exactly 0, reverse
  geocoding returns the record as it is (country, state and city untouched) and calls
  nothing, whether or not it is enabled and whatever the other coordinate is; the time zone
  lookup of the video handler does the same.
\<close>

theorem zero_coordinate_skips_geocoding:
  "latitude newExif = None \<or> latitude newExif = Some (TNumber (Num 0))
   \<or> longitude newExif = None \<or> longitude newExif = Some (TNumber (Num 0))
   \<Longrightarrow> applyReverseGeocoding env asset newExif s = (Ok newExif, s)
     \<and> videoTimeZone env newExif s = (Ok newExif, s)"
  by (auto simp: applyReverseGeocoding_def videoTimeZone_def truthy_def truthyNum_def ret_def
      split: option.splits)

theorem zero_coordinate_skips_geocoding_witness:
  "reverseGeocodingEnabled exampleEnv
   \<and> applyReverseGeocoding exampleEnv stillA
       (new_ExifEntity\<lparr>latitude := Some (TNumber (Num 0)), longitude := Some (TNumber (Num 5))\<rparr>)
       exampleWorld
     = (Ok (new_ExifEntity\<lparr>latitude := Some (TNumber (Num 0)), longitude := Some (TNumber (Num 5))\<rparr>),
        exampleWorld)"
  using zero_coordinate_skips_geocoding[of
      "new_ExifEntity\<lparr>latitude := Some (TNumber (Num 0)), longitude := Some (TNumber (Num 5))\<rparr>"
      exampleEnv stillA exampleWorld]
  by (simp add: exampleEnv_def)

section \<open>The geocoding index and the queue\<close>

lemma init_success:
  "after (init (env\<lparr>reverseGeocodingEnabled := True, pause_rejects := (\<lambda>q. False),
                    resume_rejects := (\<lambda>q. False), geocoding_init := True\<rparr>) False) s
   = s\<lparr>paused := removeAll METADATA_EXTRACTION (List.insert METADATA_EXTRACTION (paused s)),
       trace := trace s @ [Logger WARN, Logger LOG, JobPause METADATA_EXTRACTION, GeocodingInit,
                           JobResume METADATA_EXTRACTION, Logger LOG]\<rparr>"
  by (simp add: init_def jobPause_def jobResume_def io_defs)

text \<open>
  C3, at the failing input: reverse geocoding is enabled, the queue accepts the pause and the
  build of the index fails. The queue has been paused, the error is logged, and \<open>resume\<close> is
  never called: the metadata-extraction queue stays paused.
\<close>

theorem init_build_failure_leaves_queue_paused:
  "after (init (env\<lparr>reverseGeocodingEnabled := True, pause_rejects := (\<lambda>q. False),
                    geocoding_init := False\<rparr>) False) s
   = s\<lparr>paused := List.insert METADATA_EXTRACTION (paused s),
       trace := trace s @ [Logger WARN, Logger LOG, JobPause METADATA_EXTRACTION, GeocodingInit,
                           Logger ERROR]\<rparr>"
  by (simp add: init_def jobPause_def jobResume_def io_defs)

section \<open>The dispatcher\<close>

lemma concat_usePagination: "concat (usePagination n xs) = xs"
proof (induction n xs rule: usePagination.induct)
  case (1 pageSize items)
  show ?case
  proof (cases "pageSize = 0 \<or> length items \<le> pageSize")
    case True
    then show ?thesis by (subst usePagination.simps) simp
  next
    case False
    with 1 show ?thesis by (subst usePagination.simps) simp
  qed
qed

lemma queueAssets_run:
  "fst (queueAssets env page s) = (if list_all (accepted env) page then Ok () else Throw)
   \<and> jobs (snd (queueAssets env page s)) = jobs s @ map metadataJob (takeWhile (accepted env) page)
   \<and> assets (snd (queueAssets env page s)) = assets s
   \<and> exifs (snd (queueAssets env page s)) = exifs s
   \<and> (\<exists>evs. trace (snd (queueAssets env page s)) = trace s @ evs \<and> Logger ERROR \<notin> set evs)"
proof (induction page arbitrary: s)
  case Nil
  show ?case by (simp add: ret_def)
next
  case (Cons a page)
  show ?case
  proof (cases "accepted env a")
    case False
    then show ?thesis by (simp add: jobQueue_def io_defs accepted_def)
  next
    case True
    let ?s1 = "s\<lparr>trace := trace s @ [JobQueue (metadataJob a)], jobs := jobs s @ [metadataJob a]\<rparr>"
    have step: "queueAssets env (a # page) s = queueAssets env page ?s1"
      using True by (simp add: jobQueue_def io_defs accepted_def)
    from Cons[of ?s1] obtain evs where
      evs: "trace (snd (queueAssets env page ?s1)) = trace ?s1 @ evs" "Logger ERROR \<notin> set evs"
      by blast
    have "trace (snd (queueAssets env (a # page) s)) = trace s @ (JobQueue (metadataJob a) # evs)
          \<and> Logger ERROR \<notin> set (JobQueue (metadataJob a) # evs)"
      using evs step by simp
    then have tr: "\<exists>evs. trace (snd (queueAssets env (a # page) s)) = trace s @ evs \<and> Logger ERROR \<notin> set evs"
      by blast
    from Cons[of ?s1] True tr show ?thesis unfolding step by simp
  qed
qed

lemma scanPages_run:
  assumes "\<forall>k. \<not> getPage_rejects env k"
  shows "fst (scanPages env k pages s) = (if list_all (accepted env) (concat pages) then Ok () else Throw)
   \<and> jobs (snd (scanPages env k pages s)) = jobs s @ map metadataJob (takeWhile (accepted env) (concat pages))
   \<and> assets (snd (scanPages env k pages s)) = assets s
   \<and> exifs (snd (scanPages env k pages s)) = exifs s
   \<and> (\<exists>evs. trace (snd (scanPages env k pages s)) = trace s @ evs \<and> Logger ERROR \<notin> set evs)"
proof (induction pages arbitrary: k s)
  case Nil
  show ?case by (simp add: ret_def)
next
  case (Cons page pages)
  let ?s0 = "s\<lparr>trace := trace s @ [GetPage k]\<rparr>"
  obtain r s1 where q: "queueAssets env page ?s0 = (r, s1)" by (cases "queueAssets env page ?s0")
  from queueAssets_run[of env page ?s0] q obtain evs1 where
    r: "r = (if list_all (accepted env) page then Ok () else Throw)" and
    j1: "jobs s1 = jobs s @ map metadataJob (takeWhile (accepted env) page)" and
    a1: "assets s1 = assets s" and e1: "exifs s1 = exifs s" and
    t1: "trace s1 = trace s @ (GetPage k # evs1)" "Logger ERROR \<notin> set evs1"
    by auto
  show ?case
  proof (cases "list_all (accepted env) page")
    case False
    then have thr: "scanPages env k (page # pages) s = (Throw, s1)"
      using assms q r by (simp add: getPage_def io_defs)
    from False obtain x where "x \<in> set page" "\<not> accepted env x" by (auto simp: list_all_iff)
    then have tw: "takeWhile (accepted env) (page @ concat pages) = takeWhile (accepted env) page"
      by (rule takeWhile_append1)
    have "trace s1 = trace s @ (GetPage k # evs1) \<and> Logger ERROR \<notin> set (GetPage k # evs1)"
      using t1 by simp
    then have "\<exists>evs. trace s1 = trace s @ evs \<and> Logger ERROR \<notin> set evs" by blast
    with False j1 a1 e1 tw thr show ?thesis by simp
  next
    case True
    then have ok: "scanPages env k (page # pages) s = scanPages env (Suc k) pages s1"
      using assms q r by (simp add: getPage_def io_defs)
    have tw: "takeWhile (accepted env) (page @ concat pages) = page @ takeWhile (accepted env) (concat pages)"
      using True by (simp add: takeWhile_append2 list_all_iff)
    have tk: "takeWhile (accepted env) page = page"
      using True by (simp add: list_all_iff)
    from Cons[of "Suc k" s1] obtain evs2 where
      evs2: "trace (snd (scanPages env (Suc k) pages s1)) = trace s1 @ evs2" "Logger ERROR \<notin> set evs2"
      by blast
    have "trace (snd (scanPages env k (page # pages) s)) = trace s @ (GetPage k # evs1 @ evs2)
        \<and> Logger ERROR \<notin> set (GetPage k # evs1 @ evs2)"
      using t1 evs2 ok by simp
    then have tr: "\<exists>evs. trace (snd (scanPages env k (page # pages) s)) = trace s @ evs \<and> Logger ERROR \<notin> set evs"
      by blast
    from Cons[of "Suc k" s1] True tw tk tr j1 a1 e1 show ?thesis unfolding ok by simp
  qed
qed

lemma scanPages_first_page_rejected:
  "getPage_rejects env k \<Longrightarrow> scanPages env k (page # pages) s = (Throw, s\<lparr>trace := trace s @ [GetPage k]\<rparr>)"
  by (simp add: getPage_def io_defs)

lemma usePagination_nonempty: "\<exists>page pages. usePagination n xs = page # pages"
  by (subst usePagination.simps) simp

lemma tryCatch_returns: "(\<And>t. \<exists>x. fst (h t) = Ok x) \<Longrightarrow> returns (tryCatch m h) s"
  by (auto simp: io_defs split: prod.splits result.splits) (metis fst_conv result.distinct(1))

lemma scanPages_frame:
  "assets (snd (scanPages env k pages s)) = assets s \<and> exifs (snd (scanPages env k pages s)) = exifs s"
proof (induction pages arbitrary: k s)
  case Nil
  show ?case by (simp add: ret_def)
next
  case (Cons page pages)
  let ?s0 = "s\<lparr>trace := trace s @ [GetPage k]\<rparr>"
  obtain r s1 where q: "queueAssets env page ?s0 = (r, s1)" by (cases "queueAssets env page ?s0")
  from queueAssets_run[of env page ?s0] q have a1: "assets s1 = assets s" "exifs s1 = exifs s" by auto
  show ?case
  proof (cases "getPage_rejects env k")
    case True
    show ?thesis unfolding scanPages_first_page_rejected[OF True] by simp
  next
    case False
    show ?thesis
    proof (cases r)
      case Throw
      with False q have "scanPages env k (page # pages) s = (Throw, s1)" by (simp add: getPage_def io_defs)
      with a1 show ?thesis by simp
    next
      case (Ok u)
      with False q have "scanPages env k (page # pages) s = scanPages env (Suc k) pages s1"
        by (simp add: getPage_def io_defs)
      with a1 Cons[of "Suc k" s1] show ?thesis by simp
    qed
  qed
qed

lemma queueAssets_last:
  "dropWhile (accepted env) page = a # rest \<Longrightarrow>
     \<exists>evs. trace (snd (queueAssets env page s)) = trace s @ evs @ [JobQueue (metadataJob a)]
           \<and> Logger ERROR \<notin> set evs"
proof (induction page arbitrary: s)
  case Nil
  then show ?case by simp
next
  case (Cons x page)
  show ?case
  proof (cases "accepted env x")
    case False
    with Cons.prems have "x = a" by simp
    with False have "trace (snd (queueAssets env (x # page) s)) = trace s @ [] @ [JobQueue (metadataJob a)]"
      by (simp add: jobQueue_def io_defs accepted_def)
    then show ?thesis by (intro exI[of _ "[]"]) simp
  next
    case True
    let ?s1 = "s\<lparr>trace := trace s @ [JobQueue (metadataJob x)], jobs := jobs s @ [metadataJob x]\<rparr>"
    have step: "queueAssets env (x # page) s = queueAssets env page ?s1"
      using True by (simp add: jobQueue_def io_defs accepted_def)
    from True Cons.prems have "dropWhile (accepted env) page = a # rest" by simp
    from Cons.IH[OF this, of ?s1] obtain evs where
      evs: "trace (snd (queueAssets env page ?s1)) = trace ?s1 @ evs @ [JobQueue (metadataJob a)]"
        "Logger ERROR \<notin> set evs" by blast
    have "trace (snd (queueAssets env (x # page) s))
            = trace s @ (JobQueue (metadataJob x) # evs) @ [JobQueue (metadataJob a)]
          \<and> Logger ERROR \<notin> set (JobQueue (metadataJob x) # evs)"
      using evs step by simp
    then show ?thesis by blast
  qed
qed

lemma find_dropWhile: "find (\<lambda>x. \<not> P x) xs = Some a \<Longrightarrow> \<exists>more. dropWhile P xs = a # more"
  by (induction xs) (auto split: if_splits)

lemma dropWhile_accepted:
  "(dropWhile (accepted env) page = []) = list_all (accepted env) page"
  by (simp add: list_all_iff)

text \<open>What the scan does, by the first rejected call.\<close>

lemma scanPages_firstFailure:
  "fst (scanPages env k pages s) = (case fst (firstFailure env k pages) of None \<Rightarrow> Ok () | Some e \<Rightarrow> Throw)
   \<and> jobs (snd (scanPages env k pages s)) = jobs s @ map metadataJob (snd (firstFailure env k pages))
   \<and> (case fst (firstFailure env k pages) of
        None \<Rightarrow> \<exists>evs. trace (snd (scanPages env k pages s)) = trace s @ evs \<and> Logger ERROR \<notin> set evs
      | Some e \<Rightarrow> \<exists>evs. trace (snd (scanPages env k pages s)) = trace s @ evs @ [e] \<and> Logger ERROR \<notin> set evs)"
proof (induction pages arbitrary: k s)
  case Nil
  show ?case by (simp add: ret_def)
next
  case (Cons page pages)
  show ?case
  proof (cases "getPage_rejects env k")
    case True
    have "trace s @ [GetPage k] = trace s @ [] @ [GetPage k] \<and> Logger ERROR \<notin> set []" by simp
    then have "\<exists>evs. trace s @ [GetPage k] = trace s @ evs @ [GetPage k] \<and> Logger ERROR \<notin> set evs"
      by blast
    moreover have "firstFailure env k (page # pages) = (Some (GetPage k), [])"
      using True by simp
    ultimately show ?thesis unfolding scanPages_first_page_rejected[OF True] by simp
  next
    case pulled: False
    let ?s0 = "s\<lparr>trace := trace s @ [GetPage k]\<rparr>"
    obtain r s1 where q: "queueAssets env page ?s0 = (r, s1)" by (cases "queueAssets env page ?s0")
    from queueAssets_run[of env page ?s0] q obtain evs1 where
      r: "r = (if list_all (accepted env) page then Ok () else Throw)" and
      j1: "jobs s1 = jobs s @ map metadataJob (takeWhile (accepted env) page)" and
      t1: "trace s1 = trace s @ (GetPage k # evs1)" "Logger ERROR \<notin> set evs1"
      by auto
    show ?thesis
    proof (cases "dropWhile (accepted env) page")
      case Nil
      then have all: "list_all (accepted env) page" by (simp add: list_all_iff)
      then have tk: "takeWhile (accepted env) page = page" by (simp add: list_all_iff)
      have ok: "scanPages env k (page # pages) s = scanPages env (Suc k) pages s1"
        using pulled q r all by (simp add: getPage_def io_defs)
      have ff: "firstFailure env k (page # pages)
                  = (fst (firstFailure env (Suc k) pages), page @ snd (firstFailure env (Suc k) pages))"
        using pulled by (simp add: Nil)
      note IH = Cons.IH[of "Suc k" s1]
      have tr: "case fst (firstFailure env (Suc k) pages) of
          None \<Rightarrow> \<exists>evs. trace (snd (scanPages env (Suc k) pages s1)) = trace s @ evs \<and> Logger ERROR \<notin> set evs
        | Some e \<Rightarrow> \<exists>evs. trace (snd (scanPages env (Suc k) pages s1)) = trace s @ evs @ [e]
                          \<and> Logger ERROR \<notin> set evs"
      proof (cases "fst (firstFailure env (Suc k) pages)")
        case None
        with IH obtain evs2 where
          "trace (snd (scanPages env (Suc k) pages s1)) = trace s1 @ evs2" "Logger ERROR \<notin> set evs2"
          by auto
        with t1 have "trace (snd (scanPages env (Suc k) pages s1)) = trace s @ (GetPage k # evs1 @ evs2)
            \<and> Logger ERROR \<notin> set (GetPage k # evs1 @ evs2)" by simp
        then have "\<exists>evs. trace (snd (scanPages env (Suc k) pages s1)) = trace s @ evs \<and> Logger ERROR \<notin> set evs"
          by blast
        with None show ?thesis by simp
      next
        case (Some e)
        with IH obtain evs2 where
          "trace (snd (scanPages env (Suc k) pages s1)) = trace s1 @ evs2 @ [e]" "Logger ERROR \<notin> set evs2"
          by auto
        with t1 have "trace (snd (scanPages env (Suc k) pages s1)) = trace s @ (GetPage k # evs1 @ evs2) @ [e]
            \<and> Logger ERROR \<notin> set (GetPage k # evs1 @ evs2)" by simp
        then have "\<exists>evs. trace (snd (scanPages env (Suc k) pages s1)) = trace s @ evs @ [e]
                        \<and> Logger ERROR \<notin> set evs"
          by blast
        with Some show ?thesis by simp
      qed
      from IH j1 tk tr show ?thesis unfolding ok ff by simp
    next
      case (Cons a rest)
      then have nall: "\<not> list_all (accepted env) page"
        using dropWhile_accepted[of env page] by simp
      have thr: "scanPages env k (page # pages) s = (Throw, s1)"
        using pulled q r nall by (simp add: getPage_def io_defs)
      have ff: "firstFailure env k (page # pages)
                  = (Some (JobQueue (metadataJob a)), takeWhile (accepted env) page)"
        using pulled by (simp add: Cons)
      from queueAssets_last[OF Cons, of ?s0] q obtain evs where
        "trace s1 = trace ?s0 @ evs @ [JobQueue (metadataJob a)]" "Logger ERROR \<notin> set evs" by auto
      then have "trace s1 = trace s @ (GetPage k # evs) @ [JobQueue (metadataJob a)]
          \<and> Logger ERROR \<notin> set (GetPage k # evs)" by simp
      then have "\<exists>evs. trace s1 = trace s @ evs @ [JobQueue (metadataJob a)] \<and> Logger ERROR \<notin> set evs"
        by blast
      with j1 show ?thesis unfolding thr ff by simp
    qed
  qed
qed

text \<open>Where the first rejected call is.\<close>

lemma firstFailure_none:
  "(\<forall>i<length pages. \<not> getPage_rejects env (k + i)) \<Longrightarrow> list_all (accepted env) (concat pages)
     \<Longrightarrow> firstFailure env k pages = (None, concat pages)"
proof (induction pages arbitrary: k)
  case Nil
  show ?case by simp
next
  case (Cons page pages)
  from Cons.prems(1) have p0: "\<not> getPage_rejects env k" by force
  have later: "\<forall>i<length pages. \<not> getPage_rejects env (Suc k + i)"
  proof (intro allI impI)
    fix i assume "i < length pages"
    with Cons.prems(1) have "\<not> getPage_rejects env (k + Suc i)" by force
    then show "\<not> getPage_rejects env (Suc k + i)" by simp
  qed
  from Cons.prems(2) have all: "list_all (accepted env) page" "list_all (accepted env) (concat pages)"
    by simp_all
  from all(1) have dw: "dropWhile (accepted env) page = []" by (simp add: list_all_iff)
  from Cons.IH[OF later all(2)] p0 show ?case by (simp add: dw)
qed

lemma firstFailure_page:
  "j < length pages \<Longrightarrow> getPage_rejects env (k + j) \<Longrightarrow> (\<forall>i<j. \<not> getPage_rejects env (k + i))
     \<Longrightarrow> list_all (accepted env) (concat (take j pages))
     \<Longrightarrow> firstFailure env k pages = (Some (GetPage (k + j)), concat (take j pages))"
proof (induction pages arbitrary: k j)
  case Nil
  then show ?case by simp
next
  case (Cons page pages)
  show ?case
  proof (cases j)
    case 0
    with Cons.prems show ?thesis by simp
  next
    case (Suc j')
    from Cons.prems(3) Suc have p0: "\<not> getPage_rejects env k" by force
    have later: "\<forall>i<j'. \<not> getPage_rejects env (Suc k + i)"
    proof (intro allI impI)
      fix i assume "i < j'"
      with Cons.prems(3) Suc have "\<not> getPage_rejects env (k + Suc i)" by force
      then show "\<not> getPage_rejects env (Suc k + i)" by simp
    qed
    from Cons.prems(4) Suc have all: "list_all (accepted env) page"
      "list_all (accepted env) (concat (take j' pages))" by simp_all
    from all(1) have dw: "dropWhile (accepted env) page = []" by (simp add: list_all_iff)
    from Cons.prems(1) Suc have lt: "j' < length pages" by simp
    from Cons.prems(2) Suc have rj: "getPage_rejects env (Suc k + j')" by simp
    from Cons.IH[OF lt rj later all(2)] p0 Suc show ?thesis by (simp add: dw)
  qed
qed

lemma firstFailure_emission:
  "j < length pages \<Longrightarrow> (\<forall>i\<le>j. \<not> getPage_rejects env (k + i))
     \<Longrightarrow> list_all (accepted env) (concat (take j pages))
     \<Longrightarrow> find (\<lambda>x. \<not> accepted env x) (pages ! j) = Some a
     \<Longrightarrow> firstFailure env k pages
           = (Some (JobQueue (metadataJob a)), takeWhile (accepted env) (concat pages))"
proof (induction pages arbitrary: k j)
  case Nil
  then show ?case by simp
next
  case (Cons page pages)
  from Cons.prems(2) have p0: "\<not> getPage_rejects env k" by force
  show ?case
  proof (cases j)
    case 0
    with Cons.prems(4) have f: "find (\<lambda>x. \<not> accepted env x) page = Some a" by simp
    from find_dropWhile[OF this] obtain more where dw: "dropWhile (accepted env) page = a # more"
      by blast
    from f have "\<exists>x\<in>set page. \<not> accepted env x" by (auto simp: find_Some_iff)
    then have tw: "takeWhile (accepted env) (page @ concat pages) = takeWhile (accepted env) page"
      by (auto intro: takeWhile_append1)
    from p0 tw show ?thesis by (simp add: dw)
  next
    case (Suc j')
    have later: "\<forall>i\<le>j'. \<not> getPage_rejects env (Suc k + i)"
    proof (intro allI impI)
      fix i assume "i \<le> j'"
      with Cons.prems(2) Suc have "\<not> getPage_rejects env (k + Suc i)" by force
      then show "\<not> getPage_rejects env (Suc k + i)" by simp
    qed
    from Cons.prems(3) Suc have all: "list_all (accepted env) page"
      "list_all (accepted env) (concat (take j' pages))" by simp_all
    from all(1) have dw: "dropWhile (accepted env) page = []" by (simp add: list_all_iff)
    from all(1) have tw: "takeWhile (accepted env) (page @ concat pages)
        = page @ takeWhile (accepted env) (concat pages)"
      by (simp add: takeWhile_append2 list_all_iff)
    from Cons.prems(1) Suc have lt: "j' < length pages" by simp
    from Cons.prems(4) Suc have f: "find (\<lambda>x. \<not> accepted env x) (pages ! j') = Some a" by simp
    from Cons.IH[OF lt later all(2) f] p0 tw show ?thesis by (simp add: dw)
  qed
qed

lemma firstFailure_prefix: "\<exists>rest. concat pages = snd (firstFailure env k pages) @ rest"
proof (induction pages arbitrary: k)
  case Nil
  show ?case by simp
next
  case (Cons page pages)
  from Cons[of "Suc k"] obtain rest where
    rest: "concat pages = snd (firstFailure env (Suc k) pages) @ rest" by blast
  show ?case
  proof (cases "getPage_rejects env k")
    case True
    then show ?thesis by simp
  next
    case False
    show ?thesis
    proof (cases "dropWhile (accepted env) page")
      case Nil
      then have "page @ concat pages = (page @ snd (firstFailure env (Suc k) pages)) @ rest"
        using rest by simp
      moreover have "snd (firstFailure env k (page # pages)) = page @ snd (firstFailure env (Suc k) pages)"
        using False by (simp add: Nil)
      ultimately show ?thesis by (simp only: concat.simps) blast
    next
      case (Cons a more)
      have "page @ concat pages = takeWhile (accepted env) page @ (dropWhile (accepted env) page @ concat pages)"
        by simp
      moreover have "snd (firstFailure env k (page # pages)) = takeWhile (accepted env) page"
        using False by (simp add: Cons)
      ultimately show ?thesis by (simp only: concat.simps) blast
    qed
  qed
qed

lemma firstFailure_pulled:
  "(\<forall>i<length pages. \<not> getPage_rejects env (k + i))
     \<Longrightarrow> snd (firstFailure env k pages) = takeWhile (accepted env) (concat pages)"
proof (induction pages arbitrary: k)
  case Nil
  show ?case by simp
next
  case (Cons page pages)
  from Cons.prems have p0: "\<not> getPage_rejects env k" by force
  have later: "\<forall>i<length pages. \<not> getPage_rejects env (Suc k + i)"
  proof (intro allI impI)
    fix i assume "i < length pages"
    with Cons.prems have "\<not> getPage_rejects env (k + Suc i)" by force
    then show "\<not> getPage_rejects env (Suc k + i)" by simp
  qed
  show ?case
  proof (cases "dropWhile (accepted env) page")
    case Nil
    then have all: "\<forall>x\<in>set page. accepted env x" by simp
    then have tw: "takeWhile (accepted env) (page @ concat pages)
        = page @ takeWhile (accepted env) (concat pages)"
      by (simp add: takeWhile_append2)
    from Cons.IH[OF later] p0 tw show ?thesis by (simp add: Nil)
  next
    case (Cons a more)
    then have "a \<in> set page \<and> \<not> accepted env a"
      by (metis dropWhile_eq_Cons_conv in_set_conv_decomp)
    then have tw: "takeWhile (accepted env) (page @ concat pages) = takeWhile (accepted env) page"
      by (auto intro: takeWhile_append1)
    from p0 tw show ?thesis by (simp add: Cons)
  qed
qed

lemma firstFailure_None:
  "fst (firstFailure env k pages) = None
     \<Longrightarrow> (\<forall>i<length pages. \<not> getPage_rejects env (k + i)) \<and> list_all (accepted env) (concat pages)"
proof (induction pages arbitrary: k)
  case Nil
  show ?case by simp
next
  case (Cons page pages)
  from Cons.prems have p0: "\<not> getPage_rejects env k" by (auto split: if_splits)
  show ?case
  proof (cases "dropWhile (accepted env) page")
    case Nil
    then have all: "list_all (accepted env) page" by (simp add: list_all_iff)
    from Cons.prems p0 have "fst (firstFailure env (Suc k) pages) = None" by (simp add: Nil)
    from Cons.IH[OF this] have
      later: "\<forall>i<length pages. \<not> getPage_rejects env (Suc k + i)"
      and rest: "list_all (accepted env) (concat pages)" by simp_all
    have "\<not> getPage_rejects env (k + i)" if "i < length (page # pages)" for i
    proof (cases i)
      case 0
      with p0 show ?thesis by simp
    next
      case (Suc i')
      with that later have "\<not> getPage_rejects env (Suc k + i')" by simp
      with Suc show ?thesis by simp
    qed
    with all rest show ?thesis by simp
  next
    case (Cons a more)
    with Cons.prems p0 show ?thesis by simp
  qed
qed

text \<open>
  C6 as amended. The scan never throws and touches neither table. It queues the jobs of the
  assets of the population in order, up to the first call that is rejected, a page pull or
  an emission alike: the jobs queued before stay, nothing is queued after, and the error is
  logged last, right after the rejected call. When no call is rejected every asset gets its
  job and no error is logged.
\<close>

theorem scan_stops_at_first_failure:
  "returns (handleQueueMetadataExtraction env force) s
   \<and> assets (after (handleQueueMetadataExtraction env force) s) = assets s
   \<and> exifs (after (handleQueueMetadataExtraction env force) s) = exifs s
   \<and> (\<exists>queued rest. (if force then assets s else withoutExif s) = queued @ rest
         \<and> jobs (after (handleQueueMetadataExtraction env force) s) = jobs s @ map metadataJob queued)
   \<and> ((\<forall>k<length (usePagination JOBS_ASSET_PAGINATION_SIZE (if force then assets s else withoutExif s)).
          \<not> getPage_rejects env k)
        \<and> (\<forall>a\<in>set (if force then assets s else withoutExif s). \<not> queue_rejects env (metadataJob a))
       \<longrightarrow> jobs (after (handleQueueMetadataExtraction env force) s)
             = jobs s @ map metadataJob (if force then assets s else withoutExif s)
           \<and> (\<exists>evs. trace (after (handleQueueMetadataExtraction env force) s) = trace s @ evs
                    \<and> Logger ERROR \<notin> set evs))
   \<and> ((\<exists>k<length (usePagination JOBS_ASSET_PAGINATION_SIZE (if force then assets s else withoutExif s)).
          getPage_rejects env k)
        \<or> (\<exists>a\<in>set (if force then assets s else withoutExif s). queue_rejects env (metadataJob a))
       \<longrightarrow> last (trace (after (handleQueueMetadataExtraction env force) s)) = Logger ERROR)
   \<and> ((\<forall>k<length (usePagination JOBS_ASSET_PAGINATION_SIZE (if force then assets s else withoutExif s)).
          \<not> getPage_rejects env k)
       \<longrightarrow> jobs (after (handleQueueMetadataExtraction env force) s)
             = jobs s @ map metadataJob
                 (takeWhile (\<lambda>a. \<not> queue_rejects env (metadataJob a))
                    (if force then assets s else withoutExif s)))
   \<and> (\<forall>k. k < length (usePagination JOBS_ASSET_PAGINATION_SIZE (if force then assets s else withoutExif s))
          \<and> getPage_rejects env k \<and> (\<forall>i<k. \<not> getPage_rejects env i)
          \<and> (\<forall>a\<in>set (concat (take k (usePagination JOBS_ASSET_PAGINATION_SIZE
                                       (if force then assets s else withoutExif s)))).
                \<not> queue_rejects env (metadataJob a))
       \<longrightarrow> jobs (after (handleQueueMetadataExtraction env force) s)
             = jobs s @ map metadataJob
                 (concat (take k (usePagination JOBS_ASSET_PAGINATION_SIZE
                                    (if force then assets s else withoutExif s))))
           \<and> (\<exists>evs. trace (after (handleQueueMetadataExtraction env force) s)
                      = trace s @ evs @ [GetPage k, Logger ERROR]
                    \<and> Logger ERROR \<notin> set evs))
   \<and> (\<forall>k a. k < length (usePagination JOBS_ASSET_PAGINATION_SIZE (if force then assets s else withoutExif s))
          \<and> (\<forall>i\<le>k. \<not> getPage_rejects env i)
          \<and> (\<forall>x\<in>set (concat (take k (usePagination JOBS_ASSET_PAGINATION_SIZE
                                       (if force then assets s else withoutExif s)))).
                \<not> queue_rejects env (metadataJob x))
          \<and> find (\<lambda>x. queue_rejects env (metadataJob x))
               (usePagination JOBS_ASSET_PAGINATION_SIZE (if force then assets s else withoutExif s) ! k)
             = Some a
       \<longrightarrow> jobs (after (handleQueueMetadataExtraction env force) s)
             = jobs s @ map metadataJob
                 (takeWhile (\<lambda>x. \<not> queue_rejects env (metadataJob x))
                    (if force then assets s else withoutExif s))
           \<and> (\<exists>evs. trace (after (handleQueueMetadataExtraction env force) s)
                      = trace s @ evs @ [JobQueue (metadataJob a), Logger ERROR]
                    \<and> Logger ERROR \<notin> set evs))
   \<and> (getPage_rejects env 0 \<longrightarrow>
         jobs (after (handleQueueMetadataExtraction env force) s) = jobs s
         \<and> trace (after (handleQueueMetadataExtraction env force) s) = trace s @ [GetPage 0, Logger ERROR])"
proof -
  let ?pop = "if force then assets s else withoutExif s"
  let ?pages = "usePagination JOBS_ASSET_PAGINATION_SIZE ?pop"
  let ?H = "handleQueueMetadataExtraction env force"
  let ?acc = "\<lambda>a. \<not> queue_rejects env (metadataJob a)"
  let ?ff = "firstFailure env 0 ?pages"
  have acc: "accepted env = ?acc" by (simp add: accepted_def fun_eq_iff)
  have pop: "concat ?pages = ?pop" by (rule concat_usePagination)
  obtain r s1 where body: "scanPages env 0 ?pages s = (r, s1)" by (cases "scanPages env 0 ?pages s")
  have H: "?H s = (case r of Ok x \<Rightarrow> (Ok x, s1) | Throw \<Rightarrow> (Ok (), s1\<lparr>trace := trace s1 @ [Logger ERROR]\<rparr>))"
    using body by (simp add: handleQueueMetadataExtraction_def io_defs split: result.splits)
  note scan = scanPages_firstFailure[of env 0 ?pages s, unfolded body fst_conv snd_conv]
  have r: "r = (case fst ?ff of None \<Rightarrow> Ok () | Some e \<Rightarrow> Throw)" using scan by blast
  have j: "jobs (after ?H s) = jobs s @ map metadataJob (snd ?ff)"
    using scan H by (simp add: after_def split: result.splits)
  have t_ok: "\<exists>evs. trace (after ?H s) = trace s @ evs \<and> Logger ERROR \<notin> set evs"
    if "fst ?ff = None"
    using scan H r that by (simp add: after_def)
  have t_fail: "\<exists>evs. trace (after ?H s) = trace s @ evs @ [e, Logger ERROR] \<and> Logger ERROR \<notin> set evs"
    if "fst ?ff = Some e" for e
    using scan H r that by (simp add: after_def)
  have c1: "returns ?H s" using H by (simp add: returns_def split: result.splits)
  have c2: "assets (after ?H s) = assets s \<and> exifs (after ?H s) = exifs s"
    using scanPages_frame[of env 0 ?pages s] body H by (simp add: after_def split: result.splits)
  have c3: "\<exists>queued rest. ?pop = queued @ rest \<and> jobs (after ?H s) = jobs s @ map metadataJob queued"
  proof -
    from firstFailure_prefix[of ?pages env 0] obtain rest where "concat ?pages = snd ?ff @ rest" by blast
    then have "?pop = snd ?ff @ rest" by (simp only: pop)
    with j show ?thesis by blast
  qed
  have c4: "(\<forall>k<length ?pages. \<not> getPage_rejects env k) \<and> (\<forall>a\<in>set ?pop. ?acc a)
       \<longrightarrow> jobs (after ?H s) = jobs s @ map metadataJob ?pop
           \<and> (\<exists>evs. trace (after ?H s) = trace s @ evs \<and> Logger ERROR \<notin> set evs)"
  proof
    assume a: "(\<forall>k<length ?pages. \<not> getPage_rejects env k) \<and> (\<forall>a\<in>set ?pop. ?acc a)"
    then have "list_all (accepted env) (concat ?pages)" by (simp add: pop acc list_all_iff)
    with a firstFailure_none[of ?pages env 0] have "?ff = (None, concat ?pages)" by simp
    with j t_ok pop show "jobs (after ?H s) = jobs s @ map metadataJob ?pop
           \<and> (\<exists>evs. trace (after ?H s) = trace s @ evs \<and> Logger ERROR \<notin> set evs)" by simp
  qed
  have c5: "(\<exists>k<length ?pages. getPage_rejects env k) \<or> (\<exists>a\<in>set ?pop. queue_rejects env (metadataJob a))
       \<longrightarrow> last (trace (after ?H s)) = Logger ERROR"
  proof
    assume a: "(\<exists>k<length ?pages. getPage_rejects env k) \<or> (\<exists>a\<in>set ?pop. queue_rejects env (metadataJob a))"
    have "fst ?ff \<noteq> None"
    proof
      assume "fst ?ff = None"
      from firstFailure_None[OF this] have "(\<forall>i<length ?pages. \<not> getPage_rejects env i)"
        and "\<forall>a\<in>set ?pop. ?acc a" by (simp_all add: pop acc list_all_iff)
      with a show False by blast
    qed
    then obtain e where "fst ?ff = Some e" by blast
    from t_fail[OF this] show "last (trace (after ?H s)) = Logger ERROR" by auto
  qed
  have c6: "(\<forall>k<length ?pages. \<not> getPage_rejects env k)
       \<longrightarrow> jobs (after ?H s) = jobs s @ map metadataJob (takeWhile ?acc ?pop)"
    using firstFailure_pulled[of ?pages env 0] j by (simp add: pop acc)
  have c7: "\<forall>k. k < length ?pages \<and> getPage_rejects env k \<and> (\<forall>i<k. \<not> getPage_rejects env i)
          \<and> (\<forall>a\<in>set (concat (take k ?pages)). ?acc a)
       \<longrightarrow> jobs (after ?H s) = jobs s @ map metadataJob (concat (take k ?pages))
           \<and> (\<exists>evs. trace (after ?H s) = trace s @ evs @ [GetPage k, Logger ERROR] \<and> Logger ERROR \<notin> set evs)"
  proof (intro allI impI)
    fix k
    assume a: "k < length ?pages \<and> getPage_rejects env k \<and> (\<forall>i<k. \<not> getPage_rejects env i)
          \<and> (\<forall>a\<in>set (concat (take k ?pages)). ?acc a)"
    then have "list_all (accepted env) (concat (take k ?pages))" by (simp add: acc list_all_iff)
    with a firstFailure_page[of k ?pages env 0] have ff: "?ff = (Some (GetPage k), concat (take k ?pages))"
      by simp
    then have "fst ?ff = Some (GetPage k)" by simp
    from t_fail[OF this] j ff
    show "jobs (after ?H s) = jobs s @ map metadataJob (concat (take k ?pages))
           \<and> (\<exists>evs. trace (after ?H s) = trace s @ evs @ [GetPage k, Logger ERROR] \<and> Logger ERROR \<notin> set evs)"
      by simp
  qed
  have c8: "\<forall>k a. k < length ?pages \<and> (\<forall>i\<le>k. \<not> getPage_rejects env i)
          \<and> (\<forall>x\<in>set (concat (take k ?pages)). ?acc x)
          \<and> find (\<lambda>x. queue_rejects env (metadataJob x)) (?pages ! k) = Some a
       \<longrightarrow> jobs (after ?H s) = jobs s @ map metadataJob (takeWhile ?acc ?pop)
           \<and> (\<exists>evs. trace (after ?H s) = trace s @ evs @ [JobQueue (metadataJob a), Logger ERROR]
                    \<and> Logger ERROR \<notin> set evs)"
  proof (intro allI impI)
    fix k a
    assume a: "k < length ?pages \<and> (\<forall>i\<le>k. \<not> getPage_rejects env i)
          \<and> (\<forall>x\<in>set (concat (take k ?pages)). ?acc x)
          \<and> find (\<lambda>x. queue_rejects env (metadataJob x)) (?pages ! k) = Some a"
    then have all: "list_all (accepted env) (concat (take k ?pages))" by (simp add: acc list_all_iff)
    from a have f: "find (\<lambda>x. \<not> accepted env x) (?pages ! k) = Some a" by (simp add: acc)
    from a all f firstFailure_emission[of k ?pages env 0 a]
    have ff: "?ff = (Some (JobQueue (metadataJob a)), takeWhile (accepted env) (concat ?pages))" by simp
    then have "fst ?ff = Some (JobQueue (metadataJob a))" by simp
    from t_fail[OF this] j ff
    show "jobs (after ?H s) = jobs s @ map metadataJob (takeWhile ?acc ?pop)
           \<and> (\<exists>evs. trace (after ?H s) = trace s @ evs @ [JobQueue (metadataJob a), Logger ERROR]
                    \<and> Logger ERROR \<notin> set evs)"
      by (simp add: pop acc)
  qed
  have c9: "getPage_rejects env 0 \<longrightarrow>
         jobs (after ?H s) = jobs s \<and> trace (after ?H s) = trace s @ [GetPage 0, Logger ERROR]"
  proof
    assume rej: "getPage_rejects env 0"
    obtain page pages where pg: "?pages = page # pages" using usePagination_nonempty by blast
    from scanPages_first_page_rejected[OF rej, of page pages s] body pg
    have "r = Throw" "s1 = s\<lparr>trace := trace s @ [GetPage 0]\<rparr>" by simp_all
    with H show "jobs (after ?H s) = jobs s \<and> trace (after ?H s) = trace s @ [GetPage 0, Logger ERROR]"
      by (simp add: after_def)
  qed
  from c1 c2 c3 c4 c5 c6 c7 c8 c9 show ?thesis by blast
qed

lemma two_pages:
  "usePagination JOBS_ASSET_PAGINATION_SIZE (thousandStills @ [motionB]) = [thousandStills, [motionB]]"
proof -
  have len: "length thousandStills = 1000" by (simp add: thousandStills_def)
  have "usePagination 1000 (thousandStills @ [motionB])
          = thousandStills # usePagination 1000 [motionB]"
    by (subst usePagination.simps) (simp add: len)
  also have "usePagination 1000 [motionB] = [[motionB]]"
    by (subst usePagination.simps) simp
  finally show ?thesis by (simp add: JOBS_ASSET_PAGINATION_SIZE_def)
qed

theorem scan_stops_at_first_failure_witness:
  "jobs (after (handleQueueMetadataExtraction exampleEnv True) exampleWorld)
     = [metadataJob stillA, metadataJob motionB]
   \<and> jobs (after (handleQueueMetadataExtraction secondPageRejectingEnv True) crowdedWorld)
     = map metadataJob thousandStills
   \<and> last (trace (after (handleQueueMetadataExtraction secondPageRejectingEnv True) crowdedWorld))
     = Logger ERROR"
proof -
  have one: "usePagination JOBS_ASSET_PAGINATION_SIZE [stillA, motionB] = [[stillA, motionB]]"
    by (subst usePagination.simps) (simp add: JOBS_ASSET_PAGINATION_SIZE_def)
  have first: "jobs (after (handleQueueMetadataExtraction exampleEnv True) exampleWorld)
     = [metadataJob stillA, metadataJob motionB]"
    using scan_stops_at_first_failure[of exampleEnv True exampleWorld]
    by (simp add: exampleEnv_def exampleWorld_def one)
  have pages: "usePagination JOBS_ASSET_PAGINATION_SIZE (if True then assets crowdedWorld else withoutExif crowdedWorld)
                 = [thousandStills, [motionB]]"
    by (simp add: crowdedWorld_def exampleWorld_def two_pages)
  have hyp: "(1::nat) < length [thousandStills, [motionB]] \<and> getPage_rejects secondPageRejectingEnv 1
      \<and> (\<forall>i<1. \<not> getPage_rejects secondPageRejectingEnv i)
      \<and> (\<forall>a\<in>set (concat (take 1 [thousandStills, [motionB]])).
            \<not> queue_rejects secondPageRejectingEnv (metadataJob a))"
    by (simp add: secondPageRejectingEnv_def exampleEnv_def)
  from scan_stops_at_first_failure[of secondPageRejectingEnv True crowdedWorld, unfolded pages] hyp
  have "jobs (after (handleQueueMetadataExtraction secondPageRejectingEnv True) crowdedWorld)
          = jobs crowdedWorld @ map metadataJob (concat (take 1 [thousandStills, [motionB]]))
        \<and> (\<exists>evs. trace (after (handleQueueMetadataExtraction secondPageRejectingEnv True) crowdedWorld)
                   = trace crowdedWorld @ evs @ [GetPage 1, Logger ERROR] \<and> Logger ERROR \<notin> set evs)"
    by blast
  then have second: "jobs (after (handleQueueMetadataExtraction secondPageRejectingEnv True) crowdedWorld)
          = map metadataJob thousandStills"
    and third: "last (trace (after (handleQueueMetadataExtraction secondPageRejectingEnv True) crowdedWorld))
          = Logger ERROR"
    by (auto simp: crowdedWorld_def exampleWorld_def)
  from first second third show ?thesis by simp
qed

text \<open>
  C6 as stated fails: the queue rejects the job of the first asset of the pass, and the job
  of the second asset is never emitted.
\<close>

theorem emission_failure_stops_the_scan:
  "jobs (after (handleQueueMetadataExtraction
                  (exampleEnv\<lparr>queue_rejects := (\<lambda>j. id (data_asset j) = ''B'')\<rparr>) True)
           (exampleWorld\<lparr>assets := [motionB, stillA]\<rparr>)) = []
   \<and> trace (after (handleQueueMetadataExtraction
                  (exampleEnv\<lparr>queue_rejects := (\<lambda>j. id (data_asset j) = ''B'')\<rparr>) True)
           (exampleWorld\<lparr>assets := [motionB, stillA]\<rparr>))
     = [GetPage 0, JobQueue (metadataJob motionB), Logger ERROR]"
  by (simp add: handleQueueMetadataExtraction_def usePagination.simps JOBS_ASSET_PAGINATION_SIZE_def
      getPage_def jobQueue_def metadataJob_def io_defs example_defs)

section \<open>Assets that are not visible\<close>

lemma extractExifInfo_ignores_isVisible:
  "extractExifInfo env (asset\<lparr>isVisible := b\<rparr>) = extractExifInfo env asset"
  by (simp add: image_defs del: getExifProperty.simps
      cong: if_cong option.case_cong prod.case_cong)

text \<open>
  C7 as amended. For an asset that is not visible the video handler and the sidecar sync
  handler return at once and leave the world as it is: nothing is read, searched, written or
  queued. The image handler does not consult the flag.
\<close>

theorem hidden_asset_is_skipped_by_video_extraction:
  "\<not> isVisible asset \<Longrightarrow>
     extractVideoMetadata env asset s = (Ok (), s)
   \<and> handleSidecarSync env asset s = (Ok (), s)
   \<and> extractExifInfo env asset = extractExifInfo env (asset\<lparr>isVisible := True\<rparr>)"
  by (simp add: extractVideoMetadata_def handleSidecarSync_def ret_def
      extractExifInfo_ignores_isVisible)

theorem hidden_asset_is_skipped_by_video_extraction_witness:
  "extractVideoMetadata exampleEnv (motionB\<lparr>isVisible := False\<rparr>) exampleWorld = (Ok (), exampleWorld)"
  using hidden_asset_is_skipped_by_video_extraction[of "motionB\<lparr>isVisible := False\<rparr>"
      exampleEnv exampleWorld]
  by simp

text \<open>
  C7 as stated fails for the image handler: on an asset that is not visible it reads the
  file and upserts a metadata record.
\<close>

theorem image_extraction_runs_on_hidden_asset:
  "isVisible (stillA\<lparr>isVisible := False\<rparr>) = False
   \<and> exifs exampleWorld = []
   \<and> map assetId (exifs (after (extractExifInfo exampleEnv (stillA\<lparr>isVisible := False\<rparr>))
                            exampleWorld)) = [''A'']
   \<and> hd (trace (after (extractExifInfo exampleEnv (stillA\<lparr>isVisible := False\<rparr>)) exampleWorld))
       = ExiftoolRead ''/a.heic''"
  by (simp add: image_defs truthy_defs repository_defs io_defs example_defs)

section \<open>Computations that only call out\<close>

lemma traceOnlyI: "(\<And>s. m s = (r, s\<lparr>trace := trace s @ evs\<rparr>)) \<Longrightarrow> traceOnly m"
  unfolding traceOnly_def by blast

lemma traceOnly_ret: "traceOnly (ret x)"
  by (rule traceOnlyI[where evs = "[]"]) (simp add: ret_def)

lemma traceOnly_throw: "traceOnly throw"
  by (rule traceOnlyI[where evs = "[]"]) (simp add: throw_def)

lemma traceOnly_emit: "traceOnly (emit ev)"
  by (rule traceOnlyI[where evs = "[ev]"]) (simp add: emit_def)

lemma traceOnly_bnd:
  assumes "traceOnly m" and "\<And>x. traceOnly (f x)"
  shows "traceOnly (bnd m f)"
proof -
  from assms(1) obtain r evs where m: "\<And>s. m s = (r, s\<lparr>trace := trace s @ evs\<rparr>)"
    unfolding traceOnly_def by blast
  show ?thesis
  proof (cases r)
    case Throw
    show ?thesis
      by (rule traceOnlyI[where r = Throw and evs = evs]) (simp add: bnd_def m Throw)
  next
    case (Ok x)
    from assms(2)[of x] obtain r' evs' where f: "\<And>s. f x s = (r', s\<lparr>trace := trace s @ evs'\<rparr>)"
      unfolding traceOnly_def by blast
    show ?thesis
      by (rule traceOnlyI[where r = r' and evs = "evs @ evs'"]) (simp add: bnd_def m Ok f)
  qed
qed

lemma traceOnly_tryCatch:
  assumes "traceOnly m" and "traceOnly h"
  shows "traceOnly (tryCatch m h)"
proof -
  from assms(1) obtain r evs where m: "\<And>s. m s = (r, s\<lparr>trace := trace s @ evs\<rparr>)"
    unfolding traceOnly_def by blast
  from assms(2) obtain r' evs' where h: "\<And>s. h s = (r', s\<lparr>trace := trace s @ evs'\<rparr>)"
    unfolding traceOnly_def by blast
  show ?thesis
  proof (cases r)
    case Throw
    show ?thesis
      by (rule traceOnlyI[where r = r' and evs = "evs @ evs'"]) (simp add: tryCatch_def m Throw h)
  next
    case (Ok x)
    show ?thesis
      by (rule traceOnlyI[where r = "Ok x" and evs = evs]) (simp add: tryCatch_def m Ok)
  qed
qed

lemma traceOnly_call: "traceOnly (call ev answer)"
  unfolding call_def
  by (intro traceOnly_bnd traceOnly_emit) (auto split: option.splits intro: traceOnly_ret traceOnly_throw)

lemma traceOnly_if: "traceOnly a \<Longrightarrow> traceOnly b \<Longrightarrow> traceOnly (if c then a else b)"
  by simp

lemmas traceOnly_intros = traceOnly_ret traceOnly_throw traceOnly_emit traceOnly_call
  traceOnly_bnd traceOnly_tryCatch traceOnly_if

lemma traceOnly_readTags: "traceOnly (readTags env path)"
  unfolding readTags_def by (intro traceOnly_intros)

lemma traceOnly_exifToDate: "traceOnly (exifToDate v)"
  unfolding exifToDate_def by (cases v) (auto intro: traceOnly_intros)

lemma traceOnly_imageExif: "traceOnly (imageExif env asset sidecar media)"
  unfolding imageExif_def Let_def by (intro traceOnly_intros traceOnly_exifToDate)

lemma traceOnly_readImageExif: "traceOnly (readImageExif env asset)"
  unfolding readImageExif_def
  by (intro traceOnly_bnd traceOnly_readTags traceOnly_imageExif)
     (auto split: option.splits intro: traceOnly_ret traceOnly_readTags)

lemma traceOnly_applyReverseGeocoding: "traceOnly (applyReverseGeocoding env asset e)"
  unfolding applyReverseGeocoding_def
  by (auto split: option.splits prod.splits intro!: traceOnly_intros)

lemma traceOnly_inspectImage: "traceOnly (inspectImage env asset e)"
  unfolding inspectImage_def by (intro traceOnly_intros)

lemma traceOnly_videoLocation: "traceOnly (videoLocation tags e)"
  unfolding videoLocation_def
  by (auto split: option.splits tagval.splits intro!: traceOnly_intros)

lemma traceOnly_videoTimeZone: "traceOnly (videoTimeZone env e)"
  unfolding videoTimeZone_def
  by (auto split: option.splits prod.splits intro!: traceOnly_intros)

lemma traceOnly_readVideoExif: "traceOnly (readVideoExif env asset)"
  unfolding readVideoExif_def by (intro traceOnly_intros traceOnly_readTags)

section \<open>Saved rows and upserted records\<close>

lemma setField_keeps [simp]:
  "id (setField f y) = id y" "ownerId (setField f y) = ownerId y" "type (setField f y) = type y"
  by (cases f; simp)+

lemma setFields_keeps [simp]:
  "id (setFields fs y) = id y \<and> ownerId (setFields fs y) = ownerId y \<and> type (setFields fs y) = type y"
  unfolding setFields_def by (induction fs arbitrary: y) simp_all

lemma find_map_inv: "(\<And>y. P (f y) = P y) \<Longrightarrow> find P (map f xs) = map_option f (find P xs)"
  by (induction xs) auto

lemma isLivePhotoMatch_setFields [simp]:
  "isLivePhotoMatch opts E (setFields fs y) = isLivePhotoMatch opts E y"
  by (simp add: isLivePhotoMatch_def)

lemma find_match_saved:
  "find (isLivePhotoMatch opts E) (savedRows i fs A)
     = map_option (\<lambda>y. if id y = i then setFields fs y else y) (find (isLivePhotoMatch opts E) A)"
  unfolding savedRows_def by (rule find_map_inv) simp

lemma find_id_saved:
  "find (\<lambda>x. id x = j) (savedRows i fs A)
     = map_option (\<lambda>y. if id y = i then setFields fs y else y) (find (\<lambda>x. id x = j) A)"
  unfolding savedRows_def by (rule find_map_inv) simp

lemma set_upsertExif:
  "set (upsertExif e E) = insert e {r \<in> set E. assetId r \<noteq> assetId e}"
  by (auto simp: upsertExif_def list_ex_iff)

lemma upsertExif_idem: "upsertExif e (upsertExif e E) = upsertExif e E"
proof (cases "list_ex (\<lambda>r. assetId r = assetId e) E")
  case True
  let ?f = "\<lambda>r. if assetId r = assetId e then e else r"
  from True have ex: "list_ex (\<lambda>r. assetId r = assetId e) (map ?f E)"
    by (induction E) auto
  have "map ?f (map ?f E) = map ?f E" by (induction E) auto
  with True ex show ?thesis by (simp add: upsertExif_def)
next
  case False
  let ?f = "\<lambda>r. if assetId r = assetId e then e else r"
  from False have "map ?f E = E" by (induction E) auto
  with False show ?thesis by (simp add: upsertExif_def)
qed

lemma isLivePhotoMatch_upsert:
  "assetId e = opt_otherAssetId opts \<Longrightarrow>
     isLivePhotoMatch opts (upsertExif e E) = isLivePhotoMatch opts E"
proof (rule ext)
  fix y :: AssetEntity
  assume a: "assetId e = opt_otherAssetId opts"
  have "id y \<noteq> assetId e \<Longrightarrow>
        list_ex (\<lambda>r. assetId r = id y \<and> livePhotoCID r = Some c) (upsertExif e E)
          = list_ex (\<lambda>r. assetId r = id y \<and> livePhotoCID r = Some c) E" for c
    by (auto simp: list_ex_iff set_upsertExif)
  with a show "isLivePhotoMatch opts (upsertExif e E) y = isLivePhotoMatch opts E y"
    by (cases "id y = assetId e") (simp_all add: isLivePhotoMatch_def)
qed

lemma bnd_Ok:
  "bnd m f s = (Ok y, s') \<Longrightarrow> \<exists>x s1. m s = (Ok x, s1) \<and> f x s1 = (Ok y, s')"
  by (auto simp: bnd_def split: prod.splits result.splits)

lemma applyReverseGeocoding_keeps:
  "applyReverseGeocoding env asset e s = (Ok e', s') \<Longrightarrow>
     assetId e' = assetId e \<and> livePhotoCID e' = livePhotoCID e"
  unfolding applyReverseGeocoding_def
  by (auto simp add: io_defs split: prod.splits result.splits option.splits if_splits)

lemma inspectImage_keeps:
  "inspectImage env asset e s = (Ok e', s') \<Longrightarrow>
     assetId e' = assetId e \<and> livePhotoCID e' = livePhotoCID e"
  unfolding inspectImage_def
  by (auto simp add: io_defs split: prod.splits result.splits option.splits if_splits)

lemma imageExif_assetId:
  "imageExif env asset sidecar media s = (Ok (e, d), s') \<Longrightarrow> assetId e = id asset"
  unfolding imageExif_def Let_def
  by (auto simp add: io_defs simp del: getExifProperty.simps
      split: prod.splits result.splits option.splits)

lemma readImageExif_assetId:
  "readImageExif env asset s = (Ok (e, d), s') \<Longrightarrow> assetId e = id asset"
  unfolding readImageExif_def
  by (auto dest!: bnd_Ok dest: imageExif_assetId)

lemma videoLocation_keeps:
  "videoLocation tags e s = (Ok e', s') \<Longrightarrow>
     assetId e' = assetId e \<and> livePhotoCID e' = livePhotoCID e"
  unfolding videoLocation_def setCoordinates_def
  by (auto simp add: io_defs split: prod.splits result.splits option.splits if_splits tagval.splits)

lemma videoTimeZone_keeps:
  "videoTimeZone env e s = (Ok e', s') \<Longrightarrow>
     assetId e' = assetId e \<and> livePhotoCID e' = livePhotoCID e"
  unfolding videoTimeZone_def
  by (auto simp add: io_defs split: prod.splits result.splits option.splits if_splits)

lemma videoStream_keeps:
  "assetId (videoStream env st e) = assetId e \<and> livePhotoCID (videoStream env st e) = livePhotoCID e"
  by (simp add: videoStream_def)

lemma videoStreams_keeps:
  "assetId (fold (videoStream env) sts e) = assetId e
   \<and> livePhotoCID (fold (videoStream env) sts e) = livePhotoCID e"
  by (induction sts arbitrary: e) (simp_all add: videoStream_keeps)

lemma readVideoExif_assetId:
  "readVideoExif env asset s = (Ok (d, e), s') \<Longrightarrow> assetId e = id asset"
  unfolding readVideoExif_def
  by (auto dest!: bnd_Ok simp: ret_def videoExif_def new_ExifEntity_def)

section \<open>The tables after each stage\<close>

lemma traceOnly_run:
  assumes "traceOnly m"
  shows "fst (m s) = pureResult m \<and> assets (snd (m s)) = assets s \<and> exifs (snd (m s)) = exifs s
       \<and> jobs (snd (m s)) = jobs s \<and> paused (snd (m s)) = paused s"
proof -
  from assms obtain r evs where m: "\<And>s. m s = (r, s\<lparr>trace := trace s @ evs\<rparr>)"
    unfolding traceOnly_def by blast
  show ?thesis by (simp add: m pureResult_def)
qed

lemma bnd_split:
  "bnd m f s = (case fst (m s) of Ok x \<Rightarrow> f x (snd (m s)) | Throw \<Rightarrow> (Throw, snd (m s)))"
  by (simp add: bnd_def split: prod.splits result.splits)

lemma tryCatch_split:
  "tryCatch m h s = (case fst (m s) of Ok x \<Rightarrow> (Ok x, snd (m s)) | Throw \<Rightarrow> h (snd (m s)))"
  by (simp add: tryCatch_def split: prod.splits result.splits)

lemma assetSave_run:
  "fst (assetSave env i fs s) =
     (if saveFails env i fs (assets s) then Throw
      else Ok (setFields fs (the (find (\<lambda>x. id x = i) (assets s)))))
   \<and> assets (snd (assetSave env i fs s)) =
       (if saveFails env i fs (assets s) then assets s else savedRows i fs (assets s))
   \<and> exifs (snd (assetSave env i fs s)) = exifs s
   \<and> jobs (snd (assetSave env i fs s)) = jobs s"
  by (simp add: assetSave_def saveFails_def io_defs split: option.splits)

lemma exifUpsert_run:
  "fst (exifUpsert env e s) = (if upsert_rejects env e then Throw else Ok ())
   \<and> assets (snd (exifUpsert env e s)) = assets s
   \<and> exifs (snd (exifUpsert env e s)) = (if upsert_rejects env e then exifs s else upsertExif e (exifs s))
   \<and> jobs (snd (exifUpsert env e s)) = jobs s"
  by (simp add: exifUpsert_def io_defs)

lemma jobQueue_run:
  "fst (jobQueue env j s) = (if queue_rejects env j then Throw else Ok ())
   \<and> assets (snd (jobQueue env j s)) = assets s
   \<and> exifs (snd (jobQueue env j s)) = exifs s
   \<and> jobs (snd (jobQueue env j s)) = (if queue_rejects env j then jobs s else jobs s @ [j])"
  by (simp add: jobQueue_def io_defs)

lemma findLivePhotoMatch_run:
  "fst (findLivePhotoMatch env opts s) =
     (if findLivePhotoMatch_rejects env opts then Throw
      else Ok (find (isLivePhotoMatch opts (exifs s)) (assets s)))
   \<and> assets (snd (findLivePhotoMatch env opts s)) = assets s
   \<and> exifs (snd (findLivePhotoMatch env opts s)) = exifs s
   \<and> jobs (snd (findLivePhotoMatch env opts s)) = jobs s"
  by (simp add: findLivePhotoMatch_def io_defs)

lemma emit_run:
  "fst (emit ev s) = Ok () \<and> assets (snd (emit ev s)) = assets s \<and> exifs (snd (emit ev s)) = exifs s
   \<and> jobs (snd (emit ev s)) = jobs s"
  by (simp add: emit_def)

lemma pairWithMotionAsset_run:
  "fst (pairWithMotionAsset env asset e s)
     = (if fst (motionPairing env asset e (assets s) (exifs s)) then Ok () else Throw)
   \<and> assets (snd (pairWithMotionAsset env asset e s)) = snd (motionPairing env asset e (assets s) (exifs s))
   \<and> exifs (snd (pairWithMotionAsset env asset e s)) = exifs s
   \<and> jobs (snd (pairWithMotionAsset env asset e s)) = jobs s"
  unfolding pairWithMotionAsset_def motionPairing_def pairTables_def
  by (simp add: bnd_split findLivePhotoMatch_run assetSave_run ret_def split: option.splits)

lemma pairWithPhotoAsset_run:
  "fst (pairWithPhotoAsset env asset e s)
     = (if fst (photoPairing env asset e (assets s) (exifs s)) then Ok () else Throw)
   \<and> assets (snd (pairWithPhotoAsset env asset e s)) = snd (photoPairing env asset e (assets s) (exifs s))
   \<and> exifs (snd (pairWithPhotoAsset env asset e s)) = exifs s
   \<and> jobs (snd (pairWithPhotoAsset env asset e s)) = jobs s"
  unfolding pairWithPhotoAsset_def photoPairing_def pairTables_def
  by (simp add: bnd_split findLivePhotoMatch_run assetSave_run ret_def split: option.splits)

lemma traceOnly_completeImageExif: "traceOnly (completeImageExif env asset e)"
  unfolding completeImageExif_def
  by (intro traceOnly_bnd traceOnly_applyReverseGeocoding traceOnly_inspectImage)

lemma traceOnly_completeVideoExif: "traceOnly (completeVideoExif env asset d e)"
  unfolding completeVideoExif_def
  by (intro traceOnly_bnd traceOnly_videoLocation traceOnly_videoTimeZone
      traceOnly_applyReverseGeocoding traceOnly_ret)

lemma completeImageExif_keeps:
  assumes "completeImageExif env asset e s = (Ok e', s')"
  shows "assetId e' = assetId e \<and> livePhotoCID e' = livePhotoCID e"
proof -
  from assms obtain x s1 where
    "applyReverseGeocoding env asset e s = (Ok x, s1)" "inspectImage env asset x s1 = (Ok e', s')"
    unfolding completeImageExif_def by (blast dest: bnd_Ok)
  then show ?thesis
    using applyReverseGeocoding_keeps inspectImage_keeps by metis
qed

lemma completeVideoExif_keeps:
  assumes "completeVideoExif env asset d e s = (Ok e', s')"
  shows "assetId e' = assetId e \<and> livePhotoCID e' = livePhotoCID e"
proof -
  from assms obtain x1 s1 x2 s2 x3 s3 where
    "videoLocation (format_tags d) e s = (Ok x1, s1)" "videoTimeZone env x1 s1 = (Ok x2, s2)"
    "applyReverseGeocoding env asset x2 s2 = (Ok x3, s3)"
    "ret (fold (videoStream env) (streams d) x3) s3 = (Ok e', s')"
    unfolding completeVideoExif_def by (blast dest: bnd_Ok)
  then show ?thesis
    using videoLocation_keeps[of "format_tags d" e s x1 s1] videoTimeZone_keeps[of env x1 s1 x2 s2]
      applyReverseGeocoding_keeps[of env asset x2 s2 x3 s3] videoStreams_keeps[of env "streams d" x3]
    by (simp add: ret_def)
qed

lemma isoFields_run:
  "fst ((case fca of
            None \<Rightarrow> ret []
          | Some d \<Rightarrow> (case toISOString env d of None \<Rightarrow> throw | Some t \<Rightarrow> ret [FileCreatedAt t])) s)
     = (case isoFields env fca of None \<Rightarrow> Throw | Some fs \<Rightarrow> Ok fs)
   \<and> snd ((case fca of
            None \<Rightarrow> ret []
          | Some d \<Rightarrow> (case toISOString env d of None \<Rightarrow> throw | Some t \<Rightarrow> ret [FileCreatedAt t])) s) = s"
  by (simp add: isoFields_def ret_def throw_def split: option.splits)

lemma persistImage_run:
  "assets (snd (persistImage env asset e fca s))
     = fst (persistTables env (id asset) e (isoFields env fca) (assets s) (exifs s))
   \<and> exifs (snd (persistImage env asset e fca s))
     = snd (persistTables env (id asset) e (isoFields env fca) (assets s) (exifs s))
   \<and> (fst (persistImage env asset e fca s) = Throw \<longrightarrow> jobs (snd (persistImage env asset e fca s)) = jobs s)"
  unfolding persistImage_def persistTables_def
  by (simp add: bnd_split exifUpsert_run isoFields_run assetSave_run jobQueue_run split: option.splits)

lemma persistVideo_run:
  "assets (snd (persistVideo env asset e dur fca s))
     = fst (persistTables env (id asset) e (Some [Duration dur, FileCreatedAt fca]) (assets s) (exifs s))
   \<and> exifs (snd (persistVideo env asset e dur fca s))
     = snd (persistTables env (id asset) e (Some [Duration dur, FileCreatedAt fca]) (assets s) (exifs s))
   \<and> (fst (persistVideo env asset e dur fca s) = Throw \<longrightarrow> jobs (snd (persistVideo env asset e dur fca s)) = jobs s)"
  unfolding persistVideo_def persistTables_def
  by (simp add: bnd_split exifUpsert_run assetSave_run jobQueue_run)

lemmas pure_runs =
  traceOnly_run[OF traceOnly_readImageExif] traceOnly_run[OF traceOnly_completeImageExif]
  traceOnly_run[OF traceOnly_readVideoExif] traceOnly_run[OF traceOnly_completeVideoExif]

lemma extractExifInfo_tables:
  "assets (after (extractExifInfo env asset) s) = fst (imageTables env asset (assets s) (exifs s))
   \<and> exifs (after (extractExifInfo env asset) s) = snd (imageTables env asset (assets s) (exifs s))"
  unfolding extractExifInfo_def finishImageExif_def imageTables_def after_def
  by (simp add: tryCatch_split bnd_split pure_runs pairWithMotionAsset_run persistImage_run emit_run
      split: result.splits prod.splits)

lemma extractVideoMetadata_tables:
  "assets (after (extractVideoMetadata env asset) s) = fst (videoTables env asset (assets s) (exifs s))
   \<and> exifs (after (extractVideoMetadata env asset) s) = snd (videoTables env asset (assets s) (exifs s))"
  unfolding extractVideoMetadata_def finishVideoExif_def videoTables_def videoFields_def after_def
  by (simp add: tryCatch_split bnd_split pure_runs pairWithPhotoAsset_run persistVideo_run emit_run ret_def
      split: result.splits prod.splits)

section \<open>Running a stage again\<close>

lemma setField_plain:
  "plainField f \<Longrightarrow>
     setField f (y\<lparr>livePhotoVideoId := v\<rparr>) = (setField f y)\<lparr>livePhotoVideoId := v\<rparr>
   \<and> setField f (y\<lparr>isVisible := b\<rparr>) = (setField f y)\<lparr>isVisible := b\<rparr>"
  by (cases f) (simp_all add: plainField_def)

lemma setFields_plain:
  "list_all plainField fs \<Longrightarrow>
     setFields fs (y\<lparr>livePhotoVideoId := v\<rparr>) = (setFields fs y)\<lparr>livePhotoVideoId := v\<rparr>
   \<and> setFields fs (y\<lparr>isVisible := b\<rparr>) = (setFields fs y)\<lparr>isVisible := b\<rparr>"
  unfolding setFields_def
  by (induction fs arbitrary: y) (simp_all add: setField_plain)

lemma setFields_Nil [simp]: "setFields [] y = y"
  by (simp add: setFields_def)

lemma setFields_single [simp]: "setFields [f] y = setField f y"
  by (simp add: setFields_def)

lemma saveFails_saved [simp]: "saveFails env i fs (savedRows j gs A) = saveFails env i fs A"
  by (simp add: saveFails_def find_id_saved)

lemma savedRows_Nil [simp]: "savedRows i [] A = A"
  by (simp add: savedRows_def map_idI)

lemma link_absorbed:
  "list_all plainField fs \<Longrightarrow>
     savedRows i [LivePhotoVideoId v] (savedRows j fs (savedRows i [LivePhotoVideoId v] A))
       = savedRows j fs (savedRows i [LivePhotoVideoId v] A)"
  by (simp add: savedRows_def setFields_plain)

lemma hidden_absorbed:
  "list_all plainField fs \<Longrightarrow>
     savedRows i [IsVisible b] (savedRows j fs (savedRows i [IsVisible b] A))
       = savedRows j fs (savedRows i [IsVisible b] A)"
  by (simp add: savedRows_def setFields_plain)

lemma savedRows_commute:
  "i \<noteq> j \<Longrightarrow> savedRows i fs (savedRows j gs A) = savedRows j gs (savedRows i fs A)"
  by (simp add: savedRows_def)

lemma link_hidden_commute:
  "savedRows i [LivePhotoVideoId v] (savedRows j [IsVisible b] A)
     = savedRows j [IsVisible b] (savedRows i [LivePhotoVideoId v] A)"
  by (simp add: savedRows_def)

lemma plain_link_commute:
  "list_all plainField fs \<Longrightarrow>
     savedRows i fs (savedRows j [LivePhotoVideoId v] A) = savedRows j [LivePhotoVideoId v] (savedRows i fs A)"
  by (simp add: savedRows_def setFields_plain)

lemma plain_hidden_commute:
  "list_all plainField fs \<Longrightarrow>
     savedRows i fs (savedRows j [IsVisible b] A) = savedRows j [IsVisible b] (savedRows i fs A)"
  by (simp add: savedRows_def setFields_plain)

lemma find_match_id:
  "find (isLivePhotoMatch opts E) A = Some m \<Longrightarrow>
     id m \<noteq> opt_otherAssetId opts \<and> ownerId m = opt_ownerId opts \<and> type m = opt_type opts
   \<and> m \<in> set A \<and> find (\<lambda>x. id x = id m) A \<noteq> None"
  by (auto simp: find_Some_iff isLivePhotoMatch_def find_None_iff intro: nth_mem)

text \<open>
  Running the pairing step again, after the later writes of the same handler (a save of plain
  fields of the asset's own row, an upsert of its own record), returns the same and changes
  nothing.
\<close>

lemma pairTables_again:
  assumes own: "opt_otherAssetId opts = own"
    and saves: "(\<forall>m. save1 m = (own, [LivePhotoVideoId m]) \<and> save2 m = (m, [IsVisible False]))
              \<or> (\<forall>m. save1 m = (m, [LivePhotoVideoId own]) \<and> save2 m = (own, [IsVisible False]))"
    and plain: "list_all plainField fs"
    and E': "E' = E \<or> (\<exists>e. assetId e = own \<and> E' = upsertExif e E)"
  shows "pairTables env opts save1 save2 (savedRows own fs (snd (pairTables env opts save1 save2 A E))) E'
         = (fst (pairTables env opts save1 save2 A E),
            savedRows own fs (snd (pairTables env opts save1 save2 A E)))"
proof -
  have match: "isLivePhotoMatch opts E' = isLivePhotoMatch opts E"
    using E' own by (auto simp: isLivePhotoMatch_upsert)
  show ?thesis
  proof (cases "findLivePhotoMatch_rejects env opts")
    case True
    then show ?thesis by (simp add: pairTables_def)
  next
    case False
    show ?thesis
    proof (cases "find (isLivePhotoMatch opts E) A")
      case None
      with False show ?thesis by (simp add: pairTables_def match find_match_saved)
    next
      case (Some m)
      from find_match_id[OF Some] own have m: "id m \<noteq> own" by simp
      from saves show ?thesis
      proof
        assume s: "\<forall>m. save1 m = (own, [LivePhotoVideoId m]) \<and> save2 m = (m, [IsVisible False])"
        show ?thesis
          using False Some m plain
          by (simp add: pairTables_def match find_match_saved s)
             (simp add: savedRows_def setFields_plain)
      next
        assume s: "\<forall>m. save1 m = (m, [LivePhotoVideoId own]) \<and> save2 m = (own, [IsVisible False])"
        show ?thesis
          using False Some m plain
          by (simp add: pairTables_def match find_match_saved s)
             (simp add: savedRows_def setFields_plain)
      qed
    qed
  qed
qed

lemma persistTables_shape:
  assumes "toSave = None \<or> (\<exists>fs0. toSave = Some fs0 \<and> list_all plainField fs0)"
  shows "(\<exists>fs. list_all plainField fs \<and> fst (persistTables env i e toSave A E) = savedRows i fs A)
       \<and> (snd (persistTables env i e toSave A E) = E
            \<or> snd (persistTables env i e toSave A E) = upsertExif e E)"
proof -
  have nil: "list_all plainField [] \<and> A = savedRows i [] A" by simp
  from assms show ?thesis
  proof
    assume "toSave = None"
    then show ?thesis by (auto simp: persistTables_def intro: exI[of _ "[]"])
  next
    assume "\<exists>fs0. toSave = Some fs0 \<and> list_all plainField fs0"
    then obtain fs0 where fs0: "toSave = Some fs0" "list_all plainField fs0" by blast
    show ?thesis
    proof (cases "upsert_rejects env e \<or> saveFails env i fs0 A")
      case True
      with fs0 show ?thesis by (auto simp: persistTables_def intro: exI[of _ "[]"])
    next
      case False
      with fs0 show ?thesis by (auto simp: persistTables_def)
    qed
  qed
qed

lemma persistTables_again:
  assumes "toSave = None \<or> (\<exists>fs0. toSave = Some fs0 \<and> (\<forall>y. setFields fs0 (setFields fs0 y) = setFields fs0 y))"
  shows "persistTables env i e toSave (fst (persistTables env i e toSave A E))
           (snd (persistTables env i e toSave A E)) = persistTables env i e toSave A E"
  using assms
  by (auto simp: persistTables_def upsertExif_idem savedRows_def)

lemma isoFields_plain:
  "isoFields env fca = None
   \<or> (\<exists>fs0. isoFields env fca = Some fs0 \<and> list_all plainField fs0)"
  by (auto simp: isoFields_def plainField_def split: option.splits)

lemma isoFields_idem:
  "isoFields env fca = None
   \<or> (\<exists>fs0. isoFields env fca = Some fs0 \<and> (\<forall>y. setFields fs0 (setFields fs0 y) = setFields fs0 y))"
  by (auto simp: isoFields_def split: option.splits)

lemma videoFields_plain: "list_all plainField (videoFields env asset d)"
  by (simp add: videoFields_def plainField_def)

lemma videoFields_idem:
  "setFields (videoFields env asset d) (setFields (videoFields env asset d) y)
     = setFields (videoFields env asset d) y"
  by (simp add: videoFields_def setFields_def)

lemma motionPairing_again:
  assumes "list_all plainField fs"
    and "E' = E \<or> (\<exists>e2. assetId e2 = id asset \<and> E' = upsertExif e2 E)"
  shows "motionPairing env asset e (savedRows (id asset) fs (snd (motionPairing env asset e A E))) E'
         = (fst (motionPairing env asset e A E),
            savedRows (id asset) fs (snd (motionPairing env asset e A E)))"
proof (cases "livePhotoCID e")
  case None
  then show ?thesis by (simp add: motionPairing_def)
next
  case (Some cid)
  show ?thesis
  proof (cases "truthy cid \<and> \<not> truthyStr (livePhotoVideoId asset)")
    case False
    with Some show ?thesis by (auto simp: motionPairing_def)
  next
    case True
    have "pairTables env (LivePhotoSearchOptions cid (id asset) (ownerId asset) VIDEO)
              (\<lambda>m. (id asset, [LivePhotoVideoId m])) (\<lambda>m. (m, [IsVisible False]))
              (savedRows (id asset) fs
                 (snd (pairTables env (LivePhotoSearchOptions cid (id asset) (ownerId asset) VIDEO)
                        (\<lambda>m. (id asset, [LivePhotoVideoId m])) (\<lambda>m. (m, [IsVisible False])) A E))) E'
          = (fst (pairTables env (LivePhotoSearchOptions cid (id asset) (ownerId asset) VIDEO)
                        (\<lambda>m. (id asset, [LivePhotoVideoId m])) (\<lambda>m. (m, [IsVisible False])) A E),
             savedRows (id asset) fs
                 (snd (pairTables env (LivePhotoSearchOptions cid (id asset) (ownerId asset) VIDEO)
                        (\<lambda>m. (id asset, [LivePhotoVideoId m])) (\<lambda>m. (m, [IsVisible False])) A E)))"
      by (rule pairTables_again) (use assms in simp_all)
    with Some True show ?thesis by (simp add: motionPairing_def)
  qed
qed

lemma photoPairing_again:
  assumes "list_all plainField fs"
    and "E' = E \<or> (\<exists>e2. assetId e2 = id asset \<and> E' = upsertExif e2 E)"
  shows "photoPairing env asset e (savedRows (id asset) fs (snd (photoPairing env asset e A E))) E'
         = (fst (photoPairing env asset e A E),
            savedRows (id asset) fs (snd (photoPairing env asset e A E)))"
proof (cases "livePhotoCID e")
  case None
  then show ?thesis by (simp add: photoPairing_def)
next
  case (Some cid)
  show ?thesis
  proof (cases "truthy cid")
    case False
    with Some show ?thesis by (simp add: photoPairing_def)
  next
    case True
    have "pairTables env (LivePhotoSearchOptions cid (id asset) (ownerId asset) IMAGE)
              (\<lambda>m. (m, [LivePhotoVideoId (id asset)])) (\<lambda>m. (id asset, [IsVisible False]))
              (savedRows (id asset) fs
                 (snd (pairTables env (LivePhotoSearchOptions cid (id asset) (ownerId asset) IMAGE)
                        (\<lambda>m. (m, [LivePhotoVideoId (id asset)])) (\<lambda>m. (id asset, [IsVisible False])) A E))) E'
          = (fst (pairTables env (LivePhotoSearchOptions cid (id asset) (ownerId asset) IMAGE)
                        (\<lambda>m. (m, [LivePhotoVideoId (id asset)])) (\<lambda>m. (id asset, [IsVisible False])) A E),
             savedRows (id asset) fs
                 (snd (pairTables env (LivePhotoSearchOptions cid (id asset) (ownerId asset) IMAGE)
                        (\<lambda>m. (m, [LivePhotoVideoId (id asset)])) (\<lambda>m. (id asset, [IsVisible False])) A E)))"
      by (rule pairTables_again) (use assms in simp_all)
    with Some True show ?thesis by (simp add: photoPairing_def)
  qed
qed

lemma pureResult_readImageExif:
  "pureResult (readImageExif env asset) = Ok (e, fca) \<Longrightarrow> assetId e = id asset"
  unfolding pureResult_def
  by (rule readImageExif_assetId[of env asset emptyWorld e fca "snd (readImageExif env asset emptyWorld)"])
     (simp add: prod_eq_iff)

lemma pureResult_completeImageExif:
  "pureResult (completeImageExif env asset e) = Ok e2 \<Longrightarrow> assetId e2 = assetId e \<and> livePhotoCID e2 = livePhotoCID e"
  unfolding pureResult_def
  by (rule completeImageExif_keeps[of env asset e emptyWorld e2 "snd (completeImageExif env asset e emptyWorld)"])
     (simp add: prod_eq_iff)

lemma pureResult_readVideoExif:
  "pureResult (readVideoExif env asset) = Ok (d, e) \<Longrightarrow> assetId e = id asset"
  unfolding pureResult_def
  by (rule readVideoExif_assetId[of env asset emptyWorld d e "snd (readVideoExif env asset emptyWorld)"])
     (simp add: prod_eq_iff)

lemma pureResult_completeVideoExif:
  "pureResult (completeVideoExif env asset d e) = Ok e2 \<Longrightarrow> assetId e2 = assetId e \<and> livePhotoCID e2 = livePhotoCID e"
  unfolding pureResult_def
  by (rule completeVideoExif_keeps[of env asset d e emptyWorld e2 "snd (completeVideoExif env asset d e emptyWorld)"])
     (simp add: prod_eq_iff)

lemma imageTables_again:
  "imageTables env asset (fst (imageTables env asset A E)) (snd (imageTables env asset A E))
     = imageTables env asset A E"
proof (cases "pureResult (readImageExif env asset)")
  case Throw
  then show ?thesis by (simp add: imageTables_def)
next
  case (Ok x)
  obtain e fca where x: "x = (e, fca)" by (cases x)
  from Ok x have aid: "assetId e = id asset" by (simp add: pureResult_readImageExif)
  let ?P = "motionPairing env asset e A E"
  have again0: "motionPairing env asset e (snd ?P) E = ?P"
    using motionPairing_again[of "[]" E E asset env e A] by simp
  show ?thesis
  proof (cases "fst ?P")
    case False
    with Ok x again0 show ?thesis by (simp add: imageTables_def)
  next
    case True
    show ?thesis
    proof (cases "pureResult (completeImageExif env asset e)")
      case Throw
      with Ok x again0 True show ?thesis by (simp add: imageTables_def)
    next
      case (Ok e2)
      from pureResult_completeImageExif[OF Ok] aid have aid2: "assetId e2 = id asset" by simp
      let ?Q = "persistTables env (id asset) e2 (isoFields env fca) (snd ?P) E"
      have tables: "imageTables env asset A E = ?Q"
        using \<open>pureResult (readImageExif env asset) = Ok x\<close> x True Ok by (simp add: imageTables_def)
      from persistTables_shape[where toSave = "isoFields env fca" and env = env and i = "id asset"
          and e = e2 and A = "snd ?P" and E = E, OF isoFields_plain]
      obtain fs where fs: "list_all plainField fs" "fst ?Q = savedRows (id asset) fs (snd ?P)"
        and E2: "snd ?Q = E \<or> snd ?Q = upsertExif e2 E"
        by blast
      from E2 aid2 have E2': "snd ?Q = E \<or> (\<exists>e2. assetId e2 = id asset \<and> snd ?Q = upsertExif e2 E)"
        by blast
      from motionPairing_again[OF fs(1) E2', of env e A] fs(2) True
      have pair2: "motionPairing env asset e (fst ?Q) (snd ?Q) = (True, fst ?Q)" by simp
      have "imageTables env asset (fst ?Q) (snd ?Q)
              = persistTables env (id asset) e2 (isoFields env fca) (fst ?Q) (snd ?Q)"
        using \<open>pureResult (readImageExif env asset) = Ok x\<close> x Ok pair2 by (simp add: imageTables_def)
      also have "\<dots> = ?Q" by (rule persistTables_again[OF isoFields_idem])
      finally show ?thesis by (simp add: tables)
    qed
  qed
qed

lemma videoTables_again:
  "videoTables env asset (fst (videoTables env asset A E)) (snd (videoTables env asset A E))
     = videoTables env asset A E"
proof (cases "isVisible asset")
  case False
  then show ?thesis by (simp add: videoTables_def)
next
  case vis: True
  show ?thesis
  proof (cases "pureResult (readVideoExif env asset)")
    case Throw
    with vis show ?thesis by (simp add: videoTables_def)
  next
    case (Ok x)
    obtain d e where x: "x = (d, e)" by (cases x)
    from Ok x have aid: "assetId e = id asset" by (simp add: pureResult_readVideoExif)
    let ?P = "photoPairing env asset e A E"
    have again0: "photoPairing env asset e (snd ?P) E = ?P"
      using photoPairing_again[of "[]" E E asset env e A] by simp
    show ?thesis
    proof (cases "fst ?P")
      case False
      with vis Ok x again0 show ?thesis by (simp add: videoTables_def)
    next
      case True
      show ?thesis
      proof (cases "pureResult (completeVideoExif env asset d e)")
        case Throw
        with vis Ok x again0 True show ?thesis by (simp add: videoTables_def)
      next
        case (Ok e2)
        from pureResult_completeVideoExif[OF Ok] aid have aid2: "assetId e2 = id asset" by simp
        let ?Q = "persistTables env (id asset) e2 (Some (videoFields env asset d)) (snd ?P) E"
        have tables: "videoTables env asset A E = ?Q"
          using vis \<open>pureResult (readVideoExif env asset) = Ok x\<close> x True Ok
          by (simp add: videoTables_def)
        have plain: "Some (videoFields env asset d) = None
           \<or> (\<exists>fs0. Some (videoFields env asset d) = Some fs0 \<and> list_all plainField fs0)"
          by (simp add: videoFields_plain)
        have idem: "Some (videoFields env asset d) = None
           \<or> (\<exists>fs0. Some (videoFields env asset d) = Some fs0
                 \<and> (\<forall>y. setFields fs0 (setFields fs0 y) = setFields fs0 y))"
          by (simp add: videoFields_idem)
        from persistTables_shape[where env = env and i = "id asset" and e = e2 and A = "snd ?P"
            and E = E, OF plain]
        obtain fs where fs: "list_all plainField fs" "fst ?Q = savedRows (id asset) fs (snd ?P)"
          and E2: "snd ?Q = E \<or> snd ?Q = upsertExif e2 E"
          by blast
        from E2 aid2 have E2': "snd ?Q = E \<or> (\<exists>e2. assetId e2 = id asset \<and> snd ?Q = upsertExif e2 E)"
          by blast
        from photoPairing_again[OF fs(1) E2', of env e A] fs(2) True
        have pair2: "photoPairing env asset e (fst ?Q) (snd ?Q) = (True, fst ?Q)" by simp
        have "videoTables env asset (fst ?Q) (snd ?Q)
                = persistTables env (id asset) e2 (Some (videoFields env asset d)) (fst ?Q) (snd ?Q)"
          using vis \<open>pureResult (readVideoExif env asset) = Ok x\<close> x Ok pair2
          by (simp add: videoTables_def)
        also have "\<dots> = ?Q" by (rule persistTables_again[OF idem])
        finally show ?thesis by (simp add: tables)
      qed
    qed
  qed
qed

lemma distinct_upsertExif:
  "distinct (map assetId E) \<Longrightarrow> distinct (map assetId (upsertExif e E))"
proof (cases "list_ex (\<lambda>r. assetId r = assetId e) E")
  case True
  have "map assetId (map (\<lambda>r. if assetId r = assetId e then e else r) E) = map assetId E"
    by (induction E) auto
  with True have "map assetId (upsertExif e E) = map assetId E"
    by (simp only: upsertExif_def if_True)
  moreover assume "distinct (map assetId E)"
  ultimately show ?thesis by simp
next
  case False
  assume "distinct (map assetId E)"
  with False show ?thesis by (auto simp: upsertExif_def list_ex_iff)
qed

lemma upsertExif_wholesale: "r \<in> set (upsertExif e E) \<Longrightarrow> assetId r = assetId e \<Longrightarrow> r = e"
  by (auto simp: set_upsertExif)

lemma imageTables_exifs:
  "snd (imageTables env asset A E) = E \<or> (\<exists>e2. snd (imageTables env asset A E) = upsertExif e2 E)"
  by (auto simp: imageTables_def persistTables_def split: result.splits option.splits)

lemma videoTables_exifs:
  "snd (videoTables env asset A E) = E \<or> (\<exists>e2. snd (videoTables env asset A E) = upsertExif e2 E)"
  by (auto simp: videoTables_def persistTables_def split: result.splits option.splits)

section \<open>A still and its video, with no other candidate\<close>

lemma find_unique:
  assumes "distinct (map f xs)" and "x \<in> set xs" and "P x"
    and "\<And>y. y \<in> set xs \<Longrightarrow> P y \<Longrightarrow> f y = f x"
  shows "find P xs = Some x"
  using assms
proof (induction xs)
  case Nil
  then show ?case by simp
next
  case (Cons z zs)
  show ?case
  proof (cases "P z")
    case True
    from Cons.prems(4)[of z] True have fz: "f z = f x" by simp
    have "z = x"
    proof (rule ccontr)
      assume "z \<noteq> x"
      with Cons.prems(2) have "x \<in> set zs" by simp
      then have "f x \<in> f ` set zs" by blast
      with Cons.prems(1) fz show False by simp
    qed
    with True show ?thesis by simp
  next
    case False
    with Cons.prems(2,3) have xs: "x \<in> set zs" by auto
    have "find P zs = Some x"
    proof (rule Cons.IH)
      show "distinct (map f zs)" using Cons.prems(1) by simp
      show "x \<in> set zs" by (rule xs)
      show "P x" by (rule Cons.prems(3))
      fix y assume "y \<in> set zs" "P y"
      then show "f y = f x" using Cons.prems(4)[of y] by simp
    qed
    with False show ?thesis by simp
  qed
qed

lemma isLivePhotoMatch_hasCID:
  "isLivePhotoMatch (LivePhotoSearchOptions cid other owner ty) E x =
     (id x \<noteq> other \<and> ownerId x = owner \<and> type x = ty \<and> hasCID E (id x) cid)"
  by (simp add: isLivePhotoMatch_def hasCID_def)

lemma hasCID_only:
  "soleCandidates cid a b A E \<Longrightarrow> y \<in> set A \<Longrightarrow> ownerId y = ownerId a
     \<Longrightarrow> type y = IMAGE \<or> type y = VIDEO \<Longrightarrow> hasCID E (id y) cid
     \<Longrightarrow> id y = id a \<or> id y = id b"
  by (auto simp: soleCandidates_def list_all_iff split: if_splits)

lemma ids_differ: "soleCandidates cid a b A E \<Longrightarrow> id a \<noteq> id b"
  by (auto simp: soleCandidates_def list_ex_iff distinct_map inj_on_def)

text \<open>What the still's search finds: the video, when its stored record carries the identifier.\<close>

lemma find_motion:
  assumes sc: "soleCandidates cid a b A E"
  shows "if hasCID E (id b) cid
         then \<exists>m. find (isLivePhotoMatch (LivePhotoSearchOptions cid (id a) (ownerId a) VIDEO) E) A = Some m
                  \<and> id m = id b
         else find (isLivePhotoMatch (LivePhotoSearchOptions cid (id a) (ownerId a) VIDEO) E) A = None"
proof -
  let ?P = "isLivePhotoMatch (LivePhotoSearchOptions cid (id a) (ownerId a) VIDEO) E"
  have only: "id y = id b" if "y \<in> set A" "?P y" for y
  proof -
    from that(2) have h: "hasCID E (id y) cid" "id y \<noteq> id a" "ownerId y = ownerId a"
      "type y = IMAGE \<or> type y = VIDEO"
      by (simp_all add: isLivePhotoMatch_hasCID)
    from hasCID_only[OF sc that(1) h(3) h(4) h(1)] h(2) show ?thesis by simp
  qed
  show ?thesis
  proof (cases "hasCID E (id b) cid")
    case True
    from sc obtain m where m: "m \<in> set A" "id m = id b" "type m = VIDEO" "ownerId m = ownerId a"
      by (auto simp: soleCandidates_def list_ex_iff)
    from sc have d: "distinct (map id A)" by (simp add: soleCandidates_def)
    have Pm: "?P m"
      using m True ids_differ[OF sc] by (simp add: isLivePhotoMatch_hasCID)
    have "find ?P A = Some m"
    proof (rule find_unique[where f=AssetEntity.id and P="?P" and x=m and xs=A, OF d m(1) Pm])
      fix y assume "y \<in> set A" and "?P y"
      from only[OF this] m(2) show "id y = id m" by simp
    qed
    with True m(2) show ?thesis by simp
  next
    case False
    have "\<not> ?P y" if "y \<in> set A" for y
    proof
      assume Py: "?P y"
      then have "hasCID E (id y) cid" by (simp add: isLivePhotoMatch_hasCID)
      with only[OF that Py] False show False by simp
    qed
    then have "find ?P A = None" by (auto simp: find_None_iff)
    with False show ?thesis by simp
  qed
qed

text \<open>What the video's search finds: the still, when its stored record carries the identifier.\<close>

lemma find_photo:
  assumes sc: "soleCandidates cid a b A E"
  shows "if hasCID E (id a) cid
         then \<exists>p. find (isLivePhotoMatch (LivePhotoSearchOptions cid (id b) (ownerId b) IMAGE) E) A = Some p
                  \<and> id p = id a
         else find (isLivePhotoMatch (LivePhotoSearchOptions cid (id b) (ownerId b) IMAGE) E) A = None"
proof -
  let ?P = "isLivePhotoMatch (LivePhotoSearchOptions cid (id b) (ownerId b) IMAGE) E"
  from sc have owner: "ownerId b = ownerId a" by (simp add: soleCandidates_def)
  have only: "id y = id a" if "y \<in> set A" "?P y" for y
  proof -
    from that(2) owner have h: "hasCID E (id y) cid" "id y \<noteq> id b" "ownerId y = ownerId a"
      "type y = IMAGE \<or> type y = VIDEO"
      by (simp_all add: isLivePhotoMatch_hasCID)
    from hasCID_only[OF sc that(1) h(3) h(4) h(1)] h(2) show ?thesis by simp
  qed
  show ?thesis
  proof (cases "hasCID E (id a) cid")
    case True
    from sc obtain p where p: "p \<in> set A" "id p = id a" "type p = IMAGE" "ownerId p = ownerId a"
      by (auto simp: soleCandidates_def list_ex_iff)
    from sc have d: "distinct (map id A)" and ow: "ownerId b = ownerId a"
      by (simp_all add: soleCandidates_def)
    have Pp: "?P p"
      using p True ow ids_differ[OF sc] by (simp add: isLivePhotoMatch_hasCID)
    have "find ?P A = Some p"
    proof (rule find_unique[where f=AssetEntity.id and P="?P" and x=p and xs=A, OF d p(1) Pp])
      fix y assume "y \<in> set A" and "?P y"
      from only[OF this] p(2) show "id y = id p" by simp
    qed
    with True p(2) show ?thesis by simp
  next
    case False
    have "\<not> ?P y" if "y \<in> set A" for y
    proof
      assume Py: "?P y"
      then have "hasCID E (id y) cid" by (simp add: isLivePhotoMatch_hasCID)
      with only[OF that Py] False show False by simp
    qed
    then have "find ?P A = None" by (auto simp: find_None_iff)
    with False show ?thesis by simp
  qed
qed

lemma rows_present:
  assumes "soleCandidates cid a b A E" and "\<forall>i fs. \<not> save_rejects env i fs"
  shows "\<not> saveFails env (id a) fs A \<and> \<not> saveFails env (id b) fs A"
  using assms by (auto simp: soleCandidates_def saveFails_def find_None_iff list_ex_iff)

lemma motionPairing_sole:
  assumes sc: "soleCandidates cid a b A E"
    and cid: "livePhotoCID e = Some cid" "truthy cid" "\<not> truthyStr (livePhotoVideoId a)"
    and nofind: "\<forall>opts. \<not> findLivePhotoMatch_rejects env opts"
    and nosave: "\<forall>i fs. \<not> save_rejects env i fs"
  shows "motionPairing env a e A E
         = (True, if hasCID E (id b) cid
                  then savedRows (id b) [IsVisible False] (savedRows (id a) [LivePhotoVideoId (id b)] A)
                  else A)"
proof (cases "hasCID E (id b) cid")
  case True
  with find_motion[OF sc] obtain m
    where m: "find (isLivePhotoMatch (LivePhotoSearchOptions cid (id a) (ownerId a) VIDEO) E) A = Some m"
      and mb: "id m = id b" by auto
  show ?thesis
    by (simp add: motionPairing_def pairTables_def cid nofind m mb True rows_present[OF sc nosave])
next
  case False
  with find_motion[OF sc]
  have "find (isLivePhotoMatch (LivePhotoSearchOptions cid (id a) (ownerId a) VIDEO) E) A = None" by simp
  then show ?thesis
    by (simp add: motionPairing_def pairTables_def cid nofind False)
qed

lemma photoPairing_sole:
  assumes sc: "soleCandidates cid a b A E"
    and cid: "livePhotoCID e = Some cid" "truthy cid"
    and nofind: "\<forall>opts. \<not> findLivePhotoMatch_rejects env opts"
    and nosave: "\<forall>i fs. \<not> save_rejects env i fs"
  shows "photoPairing env b e A E
         = (True, if hasCID E (id a) cid
                  then savedRows (id b) [IsVisible False] (savedRows (id a) [LivePhotoVideoId (id b)] A)
                  else A)"
proof (cases "hasCID E (id a) cid")
  case True
  with find_photo[OF sc] obtain p
    where p: "find (isLivePhotoMatch (LivePhotoSearchOptions cid (id b) (ownerId b) IMAGE) E) A = Some p"
      and pa: "id p = id a" by auto
  show ?thesis
    by (simp add: photoPairing_def pairTables_def cid nofind p pa True rows_present[OF sc nosave])
next
  case False
  with find_photo[OF sc]
  have "find (isLivePhotoMatch (LivePhotoSearchOptions cid (id b) (ownerId b) IMAGE) E) A = None" by simp
  then show ?thesis
    by (simp add: photoPairing_def pairTables_def cid nofind False)
qed

lemma ids_saved: "map id (savedRows i fs A) = map id A"
  by (induction A) (simp_all add: savedRows_def)

lemma row_saved:
  "list_ex (\<lambda>x. id x = j \<and> type x = t \<and> ownerId x = u) (savedRows i fs A)
     = list_ex (\<lambda>x. id x = j \<and> type x = t \<and> ownerId x = u) A"
  by (induction A) (simp_all add: savedRows_def)

lemma list_all_map_inv: "(\<And>y. P (f y) = P y) \<Longrightarrow> list_all P (map f xs) = list_all P xs"
  by (induction xs) simp_all

lemma candidates_saved:
  "list_all (\<lambda>x. if ownerId x = u \<and> (type x = IMAGE \<or> type x = VIDEO) \<and> hasCID E (id x) cid
                    then id x = i1 \<or> id x = i2 else True) (savedRows i fs A)
     = list_all (\<lambda>x. if ownerId x = u \<and> (type x = IMAGE \<or> type x = VIDEO) \<and> hasCID E (id x) cid
                      then id x = i1 \<or> id x = i2 else True) A"
  unfolding savedRows_def by (rule list_all_map_inv) auto

lemma soleCandidates_saved: "soleCandidates cid a b (savedRows i fs A) E = soleCandidates cid a b A E"
  by (simp add: soleCandidates_def ids_saved row_saved candidates_saved)

lemma hasCID_upsert:
  "hasCID (upsertExif e E) i cid = (if assetId e = i then livePhotoCID e = Some cid else hasCID E i cid)"
  by (auto simp: hasCID_def list_ex_iff set_upsertExif)

lemma soleCandidates_upsert:
  assumes "soleCandidates cid a b A E" and "assetId e = id a \<or> assetId e = id b"
  shows "soleCandidates cid a b A (upsertExif e E)"
proof -
  have "(if ownerId x = ownerId a \<and> (type x = IMAGE \<or> type x = VIDEO) \<and> hasCID (upsertExif e E) (id x) cid
         then id x = id a \<or> id x = id b else True)"
    if "x \<in> set A" for x
    using assms that by (auto simp: soleCandidates_def list_all_iff hasCID_upsert split: if_splits)
  then have "list_all (\<lambda>x. if ownerId x = ownerId a \<and> (type x = IMAGE \<or> type x = VIDEO)
                              \<and> hasCID (upsertExif e E) (id x) cid
                           then id x = id a \<or> id x = id b else True) A"
    by (simp add: list_all_iff)
  with assms(1) show ?thesis by (simp add: soleCandidates_def)
qed

lemma imageTables_sole:
  assumes sc: "soleCandidates cid a b A E"
    and read: "pureResult (readImageExif env a) = Ok (ea, fa)"
    and cid: "livePhotoCID ea = Some cid" "truthy cid" "\<not> truthyStr (livePhotoVideoId a)"
    and compl: "pureResult (completeImageExif env a ea) = Ok ea2"
    and iso: "isoFields env fa = Some fsa"
    and nofind: "\<forall>opts. \<not> findLivePhotoMatch_rejects env opts"
    and nosave: "\<forall>i fs. \<not> save_rejects env i fs"
    and noupsert: "\<forall>e. \<not> upsert_rejects env e"
  shows "imageTables env a A E
         = (savedRows (id a) fsa
              (if hasCID E (id b) cid
               then savedRows (id b) [IsVisible False] (savedRows (id a) [LivePhotoVideoId (id b)] A)
               else A),
            upsertExif ea2 E)"
  by (simp add: imageTables_def read motionPairing_sole[OF sc cid nofind nosave] compl
      persistTables_def iso noupsert rows_present[OF sc nosave])

lemma videoTables_sole:
  assumes sc: "soleCandidates cid a b A E"
    and vis: "isVisible b"
    and read: "pureResult (readVideoExif env b) = Ok (d, eb)"
    and cid: "livePhotoCID eb = Some cid" "truthy cid"
    and compl: "pureResult (completeVideoExif env b d eb) = Ok eb2"
    and nofind: "\<forall>opts. \<not> findLivePhotoMatch_rejects env opts"
    and nosave: "\<forall>i fs. \<not> save_rejects env i fs"
    and noupsert: "\<forall>e. \<not> upsert_rejects env e"
  shows "videoTables env b A E
         = (savedRows (id b) (videoFields env b d)
              (if hasCID E (id a) cid
               then savedRows (id b) [IsVisible False] (savedRows (id a) [LivePhotoVideoId (id b)] A)
               else A),
            upsertExif eb2 E)"
  by (simp add: videoTables_def vis read photoPairing_sole[OF sc cid nofind nosave] compl
      persistTables_def noupsert rows_present[OF sc nosave])

text \<open>The asset table of a linked pair, whichever writes came first.\<close>

lemma linked_rows:
  assumes "list_all plainField fs" and "list_all plainField gs" and "i \<noteq> j"
    and "P = A \<or> P = savedRows j [IsVisible False] (savedRows i [LivePhotoVideoId j] A)"
  shows "savedRows j gs (savedRows j [IsVisible False] (savedRows i [LivePhotoVideoId j] (savedRows i fs P)))
         = map (\<lambda>x. if id x = i then (setFields fs x)\<lparr>livePhotoVideoId := Some j\<rparr>
                     else if id x = j then (setFields gs x)\<lparr>isVisible := False\<rparr> else x) A"
    and "savedRows i fs (savedRows j [IsVisible False] (savedRows i [LivePhotoVideoId j] (savedRows j gs P)))
         = map (\<lambda>x. if id x = i then (setFields fs x)\<lparr>livePhotoVideoId := Some j\<rparr>
                     else if id x = j then (setFields gs x)\<lparr>isVisible := False\<rparr> else x) A"
  using assms by (auto simp: savedRows_def setFields_plain)

section \<open>The order of the two extractions\<close>

lemma plain_keeps:
  "list_all plainField fs \<Longrightarrow>
     livePhotoVideoId (setFields fs x) = livePhotoVideoId x \<and> isVisible (setFields fs x) = isVisible x"
  unfolding setFields_def
proof (induction fs arbitrary: x)
  case Nil
  then show ?case by simp
next
  case (Cons f fs)
  then show ?case by (cases f) (simp_all add: plainField_def)
qed

text \<open>
  C2, as amended. A still \<open>a\<close> and a video \<open>b\<close> of one owner carry the same content
  identifier and are the only candidates of a search. The job of the still carries no link
  yet, the job of the video carries a visible asset, and every step of both jobs succeeds.
  Then the image extraction of \<open>a\<close> followed by the video extraction of \<open>b\<close> leaves the
  same asset table and the same metadata records as the two in the other order: the row of
  \<open>a\<close> holds the link to \<open>b\<close>, the row of \<open>b\<close> is not visible and its own link is as it
  was, every other row is untouched, and each of the two assets has the one record its job
  built.
\<close>

theorem live_photo_pairing_is_order_independent:
  assumes sole: "soleCandidates cid a b (assets s) (exifs s)"
    and still: "fst (readImageExif env a s) = Ok (ea, fa)" "livePhotoCID ea = Some cid"
      "fst (completeImageExif env a ea s) = Ok ea2" "isoFields env fa = Some fsa"
      "\<not> truthyStr (livePhotoVideoId a)"
    and motion: "fst (readVideoExif env b s) = Ok (d, eb)" "livePhotoCID eb = Some cid"
      "fst (completeVideoExif env b d eb s) = Ok eb2" "isVisible b"
    and cid: "truthy cid"
    and nofind: "\<forall>opts. \<not> findLivePhotoMatch_rejects env opts"
    and nosave: "\<forall>i fs. \<not> save_rejects env i fs"
    and noupsert: "\<forall>e. \<not> upsert_rejects env e"
  shows "assets (after (extractVideoMetadata env b) (after (extractExifInfo env a) s))
           = assets (after (extractExifInfo env a) (after (extractVideoMetadata env b) s))
       \<and> set (exifs (after (extractVideoMetadata env b) (after (extractExifInfo env a) s)))
           = set (exifs (after (extractExifInfo env a) (after (extractVideoMetadata env b) s)))
       \<and> assets (after (extractVideoMetadata env b) (after (extractExifInfo env a) s))
           = map (\<lambda>x. if id x = id a then (setFields fsa x)\<lparr>livePhotoVideoId := Some (id b)\<rparr>
                       else if id x = id b then (setFields (videoFields env b d) x)\<lparr>isVisible := False\<rparr>
                       else x) (assets s)
       \<and> map (\<lambda>x. (id x, livePhotoVideoId x, isVisible x))
             (assets (after (extractVideoMetadata env b) (after (extractExifInfo env a) s)))
           = map (\<lambda>x. (id x, if id x = id a then Some (id b) else livePhotoVideoId x,
                        if id x = id b then False else isVisible x)) (assets s)
       \<and> set (exifs (after (extractVideoMetadata env b) (after (extractExifInfo env a) s)))
           = {ea2, eb2} \<union> {r \<in> set (exifs s). assetId r \<noteq> id a \<and> assetId r \<noteq> id b}"
proof -
  let ?A = "assets s" and ?E = "exifs s"
  let ?link = "\<lambda>A. savedRows (id b) [IsVisible False] (savedRows (id a) [LivePhotoVideoId (id b)] A)"
  let ?vf = "videoFields env b d"
  let ?paired = "map (\<lambda>x. if id x = id a then (setFields fsa x)\<lparr>livePhotoVideoId := Some (id b)\<rparr>
                       else if id x = id b then (setFields ?vf x)\<lparr>isVisible := False\<rparr>
                       else x) ?A"
  have ri: "pureResult (readImageExif env a) = Ok (ea, fa)"
    using traceOnly_run[OF traceOnly_readImageExif, of env a s] still(1) by simp
  have ci: "pureResult (completeImageExif env a ea) = Ok ea2"
    using traceOnly_run[OF traceOnly_completeImageExif, of env a ea s] still(3) by simp
  have rv: "pureResult (readVideoExif env b) = Ok (d, eb)"
    using traceOnly_run[OF traceOnly_readVideoExif, of env b s] motion(1) by simp
  have cv: "pureResult (completeVideoExif env b d eb) = Ok eb2"
    using traceOnly_run[OF traceOnly_completeVideoExif, of env b d eb s] motion(3) by simp
  have ea2: "assetId ea2 = id a" "livePhotoCID ea2 = Some cid"
    using pureResult_completeImageExif[OF ci] pureResult_readImageExif[OF ri] still(2) by simp_all
  have eb2: "assetId eb2 = id b" "livePhotoCID eb2 = Some cid"
    using pureResult_completeVideoExif[OF cv] pureResult_readVideoExif[OF rv] motion(2) by simp_all
  have ne: "id a \<noteq> id b" by (rule ids_differ[OF sole])
  have pa: "list_all plainField fsa" using isoFields_plain[of env fa] still(4) by simp
  have pv: "list_all plainField ?vf" by (rule videoFields_plain)

  define A1 where "A1 = savedRows (id a) fsa (if hasCID ?E (id b) cid then ?link ?A else ?A)"
  define B1 where "B1 = savedRows (id b) ?vf (if hasCID ?E (id a) cid then ?link ?A else ?A)"
  have i1: "imageTables env a ?A ?E = (A1, upsertExif ea2 ?E)"
    unfolding A1_def
    by (rule imageTables_sole[OF sole ri still(2) cid still(5) ci still(4) nofind nosave noupsert])
  have v1: "videoTables env b ?A ?E = (B1, upsertExif eb2 ?E)"
    unfolding B1_def
    by (rule videoTables_sole[OF sole motion(4) rv motion(2) cid cv nofind nosave noupsert])
  have scA: "soleCandidates cid a b A1 (upsertExif ea2 ?E)"
    unfolding A1_def using sole ea2(1) by (simp add: soleCandidates_saved soleCandidates_upsert)
  have scB: "soleCandidates cid a b B1 (upsertExif eb2 ?E)"
    unfolding B1_def using sole eb2(1) by (simp add: soleCandidates_saved soleCandidates_upsert)
  have v2: "videoTables env b A1 (upsertExif ea2 ?E)
              = (savedRows (id b) ?vf (?link A1), upsertExif eb2 (upsertExif ea2 ?E))"
    using videoTables_sole[OF scA motion(4) rv motion(2) cid cv nofind nosave noupsert]
    by (simp add: hasCID_upsert ea2)
  have i2: "imageTables env a B1 (upsertExif eb2 ?E)
              = (savedRows (id a) fsa (?link B1), upsertExif ea2 (upsertExif eb2 ?E))"
    using imageTables_sole[OF scB ri still(2) cid still(5) ci still(4) nofind nosave noupsert]
    by (simp add: hasCID_upsert eb2)
  have first: "assets (after (extractVideoMetadata env b) (after (extractExifInfo env a) s))
                 = savedRows (id b) ?vf (?link A1)"
    and firstE: "exifs (after (extractVideoMetadata env b) (after (extractExifInfo env a) s))
                 = upsertExif eb2 (upsertExif ea2 ?E)"
    by (simp_all add: extractVideoMetadata_tables extractExifInfo_tables i1 v2)
  have second: "assets (after (extractExifInfo env a) (after (extractVideoMetadata env b) s))
                 = savedRows (id a) fsa (?link B1)"
    and secondE: "exifs (after (extractExifInfo env a) (after (extractVideoMetadata env b) s))
                 = upsertExif ea2 (upsertExif eb2 ?E)"
    by (simp_all add: extractVideoMetadata_tables extractExifInfo_tables v1 i2)
  have p1: "savedRows (id b) ?vf (?link A1) = ?paired"
    unfolding A1_def by (rule linked_rows(1)[OF pa pv ne]) simp
  have p2: "savedRows (id a) fsa (?link B1) = ?paired"
    unfolding B1_def by (rule linked_rows(2)[OF pa pv ne]) simp
  have proj: "map (\<lambda>x. (id x, livePhotoVideoId x, isVisible x)) ?paired
                = map (\<lambda>x. (id x, if id x = id a then Some (id b) else livePhotoVideoId x,
                             if id x = id b then False else isVisible x)) ?A"
    using ne by (simp add: plain_keeps[OF pa] plain_keeps[OF pv])
  have e1: "set (upsertExif eb2 (upsertExif ea2 ?E))
              = {ea2, eb2} \<union> {r \<in> set ?E. assetId r \<noteq> id a \<and> assetId r \<noteq> id b}"
    using ne by (auto simp: set_upsertExif ea2 eb2)
  have e2: "set (upsertExif ea2 (upsertExif eb2 ?E))
              = {ea2, eb2} \<union> {r \<in> set ?E. assetId r \<noteq> id a \<and> assetId r \<noteq> id b}"
    using ne by (auto simp: set_upsertExif ea2 eb2)
  show ?thesis
    unfolding first second firstE secondE p1 p2 e1 e2 proj by simp
qed

lemmas pairing_defs = linkedStill_def linkedWorld_def hiddenMotion_def hiddenWorld_def
  strangerVideo_def neighbourWorld_def

theorem live_photo_pairing_is_order_independent_witness:
  "map (\<lambda>x. (id x, livePhotoVideoId x, isVisible x))
     (assets (after (extractVideoMetadata exampleEnv motionB) (after (extractExifInfo exampleEnv stillA) neighbourWorld)))
     = [(''A'', Some ''B'', True), (''C'', None, True), (''B'', None, False)]
   \<and> assets (after (extractVideoMetadata exampleEnv motionB) (after (extractExifInfo exampleEnv stillA) neighbourWorld))
     = assets (after (extractExifInfo exampleEnv stillA) (after (extractVideoMetadata exampleEnv motionB) neighbourWorld))"
proof -
  have sole: "soleCandidates (TString ''X'') stillA motionB (assets neighbourWorld) (exifs neighbourWorld)"
    by (simp add: soleCandidates_def hasCID_def example_defs pairing_defs new_ExifEntity_def)
  have "\<exists>ea fa ea2 fsa. fst (readImageExif exampleEnv stillA neighbourWorld) = Ok (ea, fa)
          \<and> livePhotoCID ea = Some (TString ''X'')
          \<and> fst (completeImageExif exampleEnv stillA ea neighbourWorld) = Ok ea2
          \<and> isoFields exampleEnv fa = Some fsa"
    by (simp add: image_defs io_defs example_defs pairing_defs truthy_defs isoFields_def)
  then obtain ea fa ea2 fsa where still: "fst (readImageExif exampleEnv stillA neighbourWorld) = Ok (ea, fa)"
      "livePhotoCID ea = Some (TString ''X'')"
      "fst (completeImageExif exampleEnv stillA ea neighbourWorld) = Ok ea2"
      "isoFields exampleEnv fa = Some fsa" by blast
  have "\<exists>d eb eb2. fst (readVideoExif exampleEnv motionB neighbourWorld) = Ok (d, eb)
          \<and> livePhotoCID eb = Some (TString ''X'')
          \<and> fst (completeVideoExif exampleEnv motionB d eb neighbourWorld) = Ok eb2"
    by (simp add: video_defs io_defs example_defs pairing_defs truthy_defs)
  then obtain d eb eb2 where motion: "fst (readVideoExif exampleEnv motionB neighbourWorld) = Ok (d, eb)"
      "livePhotoCID eb = Some (TString ''X'')"
      "fst (completeVideoExif exampleEnv motionB d eb neighbourWorld) = Ok eb2" by blast
  have rest: "\<not> truthyStr (livePhotoVideoId stillA)" "isVisible motionB" "truthy (TString ''X'')"
      "\<forall>opts. \<not> findLivePhotoMatch_rejects exampleEnv opts" "\<forall>i fs. \<not> save_rejects exampleEnv i fs"
      "\<forall>e. \<not> upsert_rejects exampleEnv e"
    by (simp_all add: example_defs truthy_defs)
  note paired = live_photo_pairing_is_order_independent[OF sole still rest(1) motion rest(2-6)]
  have start: "map (\<lambda>x. (id x, if id x = id stillA then Some (id motionB) else livePhotoVideoId x,
                          if id x = id motionB then False else isVisible x)) (assets neighbourWorld)
                 = [(''A'', Some ''B'', True), (''C'', None, True), (''B'', None, False)]"
    by (simp add: example_defs pairing_defs)
  from paired have "map (\<lambda>x. (id x, livePhotoVideoId x, isVisible x))
     (assets (after (extractVideoMetadata exampleEnv motionB) (after (extractExifInfo exampleEnv stillA) neighbourWorld)))
     = map (\<lambda>x. (id x, if id x = id stillA then Some (id motionB) else livePhotoVideoId x,
                          if id x = id motionB then False else isVisible x)) (assets neighbourWorld)"
    by blast
  with start paired show ?thesis by (simp only:)
qed

text \<open>
  C2 as stated fails. The job of the still carries a link already (to \<open>Z\<close>): the still
  does not search, the video does. Image first, the video finds the still's record, links
  the still to itself and hides; video first, it finds nothing, and the still keeps its old
  link with the video visible. Further, when the video's job carries a hidden asset, or when
  the upserts fail, neither order links the two.
\<close>

theorem linked_still_pairs_in_one_order_only:
  "livePhotoVideoId linkedStill = Some ''Z''
   \<and> map livePhotoVideoId
        (assets (after (extractVideoMetadata exampleEnv motionB)
                   (after (extractExifInfo exampleEnv linkedStill) linkedWorld))) = [Some ''B'', None]
   \<and> map isVisible
        (assets (after (extractVideoMetadata exampleEnv motionB)
                   (after (extractExifInfo exampleEnv linkedStill) linkedWorld))) = [True, False]
   \<and> map livePhotoVideoId
        (assets (after (extractExifInfo exampleEnv linkedStill)
                   (after (extractVideoMetadata exampleEnv motionB) linkedWorld))) = [Some ''Z'', None]
   \<and> map isVisible
        (assets (after (extractExifInfo exampleEnv linkedStill)
                   (after (extractVideoMetadata exampleEnv motionB) linkedWorld))) = [True, True]
   \<and> isVisible hiddenMotion = False
   \<and> map livePhotoVideoId
        (assets (after (extractVideoMetadata exampleEnv hiddenMotion)
                   (after (extractExifInfo exampleEnv stillA) hiddenWorld))) = [None, None]
   \<and> map livePhotoVideoId
        (assets (after (extractExifInfo exampleEnv stillA)
                   (after (extractVideoMetadata exampleEnv hiddenMotion) hiddenWorld))) = [None, None]
   \<and> map livePhotoVideoId
        (assets (after (extractVideoMetadata upsertRejectingEnv motionB)
                   (after (extractExifInfo upsertRejectingEnv stillA) exampleWorld))) = [None, None]
   \<and> map livePhotoVideoId
        (assets (after (extractExifInfo upsertRejectingEnv stillA)
                   (after (extractVideoMetadata upsertRejectingEnv motionB) exampleWorld))) = [None, None]"
  by (simp add: image_defs video_defs truthy_defs repository_defs io_defs example_defs
      upsertRejectingEnv_def pairing_defs)

section \<open>A failure after the pairing\<close>

lemma persistTables_plain:
  "map (\<lambda>x. (id x, livePhotoVideoId x, isVisible x)) (fst (persistTables env i e (isoFields env fca) A E))
     = map (\<lambda>x. (id x, livePhotoVideoId x, isVisible x)) A"
  using isoFields_plain[of env fca]
  by (auto simp: persistTables_def savedRows_def plain_keeps)

lemma persistTables_exifs:
  "snd (persistTables env i e toSave A E) = (if upsert_rejects env e then E else upsertExif e E)"
  by (simp add: persistTables_def split: option.splits)

text \<open>
  C10, as amended: the pairing is written before the record. When a later step of the same
  image job throws, the handler still returns normally with the error logged last, no job
  is queued, and the link and the visibility stay as the pairing left them. The record is
  not written when the header probe or the upsert throws; it is written when a step after
  the upsert throws.
\<close>

theorem failure_after_pairing_is_logged_not_undone:
  assumes read: "readImageExif env asset s = (Ok (newExif, fca), s0)"
    and pair: "pairWithMotionAsset env asset newExif s0 = (Ok (), s1)"
    and fail: "fst (finishImageExif env asset newExif fca s1) = Throw"
  shows "fst (extractExifInfo env asset s) = Ok ()
       \<and> last (trace (after (extractExifInfo env asset) s)) = Logger ERROR
       \<and> jobs (after (extractExifInfo env asset) s) = jobs s
       \<and> map (\<lambda>x. (id x, livePhotoVideoId x, isVisible x)) (assets (after (extractExifInfo env asset) s))
           = map (\<lambda>x. (id x, livePhotoVideoId x, isVisible x)) (assets s1)
       \<and> (\<forall>cid m. livePhotoCID newExif = Some cid \<and> truthy cid \<and> \<not> truthyStr (livePhotoVideoId asset)
              \<and> find (isLivePhotoMatch (LivePhotoSearchOptions cid (id asset) (ownerId asset) VIDEO) (exifs s))
                   (assets s) = Some m
            \<longrightarrow> assets s1 = savedRows (id m) [IsVisible False]
                              (savedRows (id asset) [LivePhotoVideoId (id m)] (assets s)))
       \<and> exifs (after (extractExifInfo env asset) s)
           = (case fst (completeImageExif env asset newExif s1) of
                Throw \<Rightarrow> exifs s
              | Ok e2 \<Rightarrow> if upsert_rejects env e2 then exifs s else upsertExif e2 (exifs s))"
proof -
  define s2 where "s2 = snd (finishImageExif env asset newExif fca s1)"
  have fin: "finishImageExif env asset newExif fca s1 = (Throw, s2)"
    using fail by (simp add: s2_def prod_eq_iff)
  have run: "extractExifInfo env asset s = (Ok (), s2\<lparr>trace := trace s2 @ [Logger ERROR]\<rparr>)"
    by (simp add: extractExifInfo_def tryCatch_def bnd_def emit_def read pair fin)
  have t0: "assets s0 = assets s \<and> exifs s0 = exifs s \<and> jobs s0 = jobs s"
    using traceOnly_run[OF traceOnly_readImageExif, of env asset s] read by simp
  have t1: "exifs s1 = exifs s \<and> jobs s1 = jobs s
          \<and> assets s1 = snd (motionPairing env asset newExif (assets s) (exifs s))
          \<and> fst (motionPairing env asset newExif (assets s) (exifs s))"
    using pairWithMotionAsset_run[of env asset newExif s0] pair t0 by (simp split: if_splits)
  let ?c = "completeImageExif env asset newExif s1"
  have tc: "assets (snd ?c) = assets s1 \<and> exifs (snd ?c) = exifs s1 \<and> jobs (snd ?c) = jobs s1"
    using traceOnly_run[OF traceOnly_completeImageExif, of env asset newExif s1] by simp
  have s2: "jobs s2 = jobs s1
          \<and> map (\<lambda>x. (id x, livePhotoVideoId x, isVisible x)) (assets s2)
              = map (\<lambda>x. (id x, livePhotoVideoId x, isVisible x)) (assets s1)
          \<and> exifs s2 = (case fst ?c of
                Throw \<Rightarrow> exifs s1
              | Ok e2 \<Rightarrow> if upsert_rejects env e2 then exifs s1 else upsertExif e2 (exifs s1))"
  proof (cases "fst ?c")
    case Throw
    then have "s2 = snd ?c" by (simp add: s2_def finishImageExif_def bnd_split)
    with Throw tc show ?thesis by simp
  next
    case (Ok e2)
    then have eq: "finishImageExif env asset newExif fca s1 = persistImage env asset e2 fca (snd ?c)"
      by (simp add: finishImageExif_def bnd_split)
    with fail have thr: "fst (persistImage env asset e2 fca (snd ?c)) = Throw" by simp
    have "s2 = snd (persistImage env asset e2 fca (snd ?c))" by (simp add: s2_def eq)
    with Ok tc thr persistImage_run[of env asset e2 fca "snd ?c"] show ?thesis
      by (simp add: persistTables_plain persistTables_exifs)
  qed
  have paired: "assets s1 = savedRows (id m) [IsVisible False]
                              (savedRows (id asset) [LivePhotoVideoId (id m)] (assets s))"
    if "livePhotoCID newExif = Some cid" "truthy cid" "\<not> truthyStr (livePhotoVideoId asset)"
      "find (isLivePhotoMatch (LivePhotoSearchOptions cid (id asset) (ownerId asset) VIDEO) (exifs s))
         (assets s) = Some m" for cid m
    using t1 that by (simp add: motionPairing_def pairTables_def split: if_splits)
  have c1: "fst (extractExifInfo env asset s) = Ok ()" by (simp add: run)
  have c2: "last (trace (after (extractExifInfo env asset) s)) = Logger ERROR"
    by (simp add: run after_def)
  have c3: "jobs (after (extractExifInfo env asset) s) = jobs s"
    using s2 t1 by (simp add: run after_def)
  have c4: "map (\<lambda>x. (id x, livePhotoVideoId x, isVisible x)) (assets (after (extractExifInfo env asset) s))
           = map (\<lambda>x. (id x, livePhotoVideoId x, isVisible x)) (assets s1)"
    using s2 by (simp add: run after_def)
  have c6: "exifs (after (extractExifInfo env asset) s)
           = (case fst ?c of
                Throw \<Rightarrow> exifs s
              | Ok e2 \<Rightarrow> if upsert_rejects env e2 then exifs s else upsertExif e2 (exifs s))"
    using s2 t1 by (simp add: run after_def split: result.splits)
  from c1 c2 c3 c4 c6 paired show ?thesis by blast
qed

lemmas failing_defs = storedMotionWorld_def dateSaveRejectingEnv_def upsertRejectingEnv_def

theorem failure_after_pairing_is_logged_not_undone_witness:
  "fst (extractExifInfo upsertRejectingEnv stillA storedMotionWorld) = Ok ()
   \<and> last (trace (after (extractExifInfo upsertRejectingEnv stillA) storedMotionWorld)) = Logger ERROR
   \<and> jobs (after (extractExifInfo upsertRejectingEnv stillA) storedMotionWorld) = []
   \<and> map livePhotoVideoId (assets (after (extractExifInfo upsertRejectingEnv stillA) storedMotionWorld))
       = [Some ''B'', None]
   \<and> map isVisible (assets (after (extractExifInfo upsertRejectingEnv stillA) storedMotionWorld))
       = [True, False]"
proof -
  let ?r = "readImageExif upsertRejectingEnv stillA storedMotionWorld"
  have "\<exists>e f. fst ?r = Ok (e, f)
          \<and> fst (pairWithMotionAsset upsertRejectingEnv stillA e (snd ?r)) = Ok ()
          \<and> fst (finishImageExif upsertRejectingEnv stillA e f
                   (snd (pairWithMotionAsset upsertRejectingEnv stillA e (snd ?r)))) = Throw
          \<and> map livePhotoVideoId (assets (snd (pairWithMotionAsset upsertRejectingEnv stillA e (snd ?r))))
              = [Some ''B'', None]
          \<and> map isVisible (assets (snd (pairWithMotionAsset upsertRejectingEnv stillA e (snd ?r))))
              = [True, False]"
    by (simp add: image_defs truthy_defs repository_defs io_defs example_defs failing_defs)
  then obtain e f where r: "fst ?r = Ok (e, f)"
    and p: "fst (pairWithMotionAsset upsertRejectingEnv stillA e (snd ?r)) = Ok ()"
    and t: "fst (finishImageExif upsertRejectingEnv stillA e f
                   (snd (pairWithMotionAsset upsertRejectingEnv stillA e (snd ?r)))) = Throw"
    and l: "map livePhotoVideoId (assets (snd (pairWithMotionAsset upsertRejectingEnv stillA e (snd ?r))))
              = [Some ''B'', None]"
    and v: "map isVisible (assets (snd (pairWithMotionAsset upsertRejectingEnv stillA e (snd ?r))))
              = [True, False]"
    by (elim exE conjE) (rule that; assumption)
  let ?s1 = "snd (pairWithMotionAsset upsertRejectingEnv stillA e (snd ?r))"
  have r': "?r = (Ok (e, f), snd ?r)" using r by (simp add: prod_eq_iff)
  have p': "pairWithMotionAsset upsertRejectingEnv stillA e (snd ?r) = (Ok (), ?s1)"
    using p by (simp add: prod_eq_iff)
  note kept = failure_after_pairing_is_logged_not_undone[OF r' p' t]
  from kept have four: "map (\<lambda>x. (id x, livePhotoVideoId x, isVisible x))
            (assets (after (extractExifInfo upsertRejectingEnv stillA) storedMotionWorld))
          = map (\<lambda>x. (id x, livePhotoVideoId x, isVisible x)) (assets ?s1)" by blast
  have "map livePhotoVideoId (assets (after (extractExifInfo upsertRejectingEnv stillA) storedMotionWorld))
          = map livePhotoVideoId (assets ?s1)"
    using arg_cong[OF four, of "map (\<lambda>t. fst (snd t))"] by (simp add: comp_def)
  moreover have "map isVisible (assets (after (extractExifInfo upsertRejectingEnv stillA) storedMotionWorld))
          = map isVisible (assets ?s1)"
    using arg_cong[OF four, of "map (\<lambda>t. snd (snd t))"] by (simp add: comp_def)
  moreover have "jobs storedMotionWorld = []" by (simp add: failing_defs example_defs)
  ultimately show ?thesis using kept l v by simp
qed

text \<open>
  C10 as stated fails when the save of the capture date throws: the pairing is kept, no job is
  queued and the error is logged, but the record of the asset has been written.
\<close>

theorem record_is_written_before_the_failing_save:
  "map assetId (exifs storedMotionWorld) = [''B'']
   \<and> fst (extractExifInfo dateSaveRejectingEnv stillA storedMotionWorld) = Ok ()
   \<and> map assetId (exifs (after (extractExifInfo dateSaveRejectingEnv stillA) storedMotionWorld)) = [''B'', ''A'']
   \<and> map livePhotoVideoId (assets (after (extractExifInfo dateSaveRejectingEnv stillA) storedMotionWorld))
       = [Some ''B'', None]
   \<and> map isVisible (assets (after (extractExifInfo dateSaveRejectingEnv stillA) storedMotionWorld))
       = [True, False]
   \<and> jobs (after (extractExifInfo dateSaveRejectingEnv stillA) storedMotionWorld) = []
   \<and> drop 7 (trace (after (extractExifInfo dateSaveRejectingEnv stillA) storedMotionWorld))
       = [AssetSave ''A'' [FileCreatedAt ''2023-01-01T10:00:00.000Z''], Logger ERROR]"
  by (simp add: image_defs truthy_defs repository_defs io_defs example_defs failing_defs)

section \<open>Extraction run twice\<close>

lemma imageTables_record:
  "snd (imageTables env asset A E) = E
   \<or> (\<exists>e fca e2. pureResult (readImageExif env asset) = Ok (e, fca)
         \<and> pureResult (completeImageExif env asset e) = Ok e2 \<and> assetId e2 = id asset
         \<and> snd (imageTables env asset A E) = upsertExif e2 E)"
proof (cases "pureResult (readImageExif env asset)")
  case Throw
  then show ?thesis by (simp add: imageTables_def)
next
  case (Ok x)
  obtain e fca where x: "x = (e, fca)" by (cases x)
  note read = Ok[unfolded x]
  show ?thesis
  proof (cases "pureResult (completeImageExif env asset e)")
    case Throw
    with read show ?thesis by (simp add: imageTables_def)
  next
    case (Ok e2)
    have "assetId e2 = id asset"
      using pureResult_completeImageExif[OF Ok] pureResult_readImageExif[OF read] by simp
    with read Ok show ?thesis
      by (simp add: imageTables_def persistTables_exifs)
  qed
qed

lemma videoTables_record:
  "snd (videoTables env asset A E) = E
   \<or> (\<exists>d e e2. pureResult (readVideoExif env asset) = Ok (d, e)
         \<and> pureResult (completeVideoExif env asset d e) = Ok e2 \<and> assetId e2 = id asset
         \<and> snd (videoTables env asset A E) = upsertExif e2 E)"
proof (cases "pureResult (readVideoExif env asset)")
  case Throw
  then show ?thesis by (simp add: videoTables_def)
next
  case (Ok x)
  obtain d e where x: "x = (d, e)" by (cases x)
  note read = Ok[unfolded x]
  show ?thesis
  proof (cases "pureResult (completeVideoExif env asset d e)")
    case Throw
    with read show ?thesis by (simp add: videoTables_def)
  next
    case (Ok e2)
    have "assetId e2 = id asset"
      using pureResult_completeVideoExif[OF Ok] pureResult_readVideoExif[OF read] by simp
    with read Ok show ?thesis
      by (simp add: videoTables_def persistTables_exifs)
  qed
qed

text \<open>
  C8: a second run of the image or of the video extraction on the same asset, with the same
  files and the same answers of the collaborators, leaves the metadata records and the asset
  rows as the first run left them. The record a run writes is built from the files alone and
  replaces the stored one of the asset whole; records that had one asset each still have.
\<close>

theorem extraction_twice_is_extraction_once:
  "exifs (after (extractExifInfo env asset) (after (extractExifInfo env asset) s))
     = exifs (after (extractExifInfo env asset) s)
   \<and> assets (after (extractExifInfo env asset) (after (extractExifInfo env asset) s))
     = assets (after (extractExifInfo env asset) s)
   \<and> exifs (after (extractVideoMetadata env asset) (after (extractVideoMetadata env asset) s))
     = exifs (after (extractVideoMetadata env asset) s)
   \<and> assets (after (extractVideoMetadata env asset) (after (extractVideoMetadata env asset) s))
     = assets (after (extractVideoMetadata env asset) s)
   \<and> (exifs (after (extractExifInfo env asset) s) = exifs s
      \<or> (\<exists>e fca e2. pureResult (readImageExif env asset) = Ok (e, fca)
            \<and> pureResult (completeImageExif env asset e) = Ok e2 \<and> assetId e2 = id asset
            \<and> exifs (after (extractExifInfo env asset) s) = upsertExif e2 (exifs s)))
   \<and> (exifs (after (extractVideoMetadata env asset) s) = exifs s
      \<or> (\<exists>d e e2. pureResult (readVideoExif env asset) = Ok (d, e)
            \<and> pureResult (completeVideoExif env asset d e) = Ok e2 \<and> assetId e2 = id asset
            \<and> exifs (after (extractVideoMetadata env asset) s) = upsertExif e2 (exifs s)))
   \<and> (distinct (map assetId (exifs s)) \<longrightarrow>
        distinct (map assetId (exifs (after (extractExifInfo env asset) s)))
      \<and> distinct (map assetId (exifs (after (extractVideoMetadata env asset) s))))
   \<and> (\<forall>r\<in>set (upsertExif e' E). assetId r = assetId e' \<longrightarrow> r = e')"
proof -
  have image: "exifs (after (extractExifInfo env asset) (after (extractExifInfo env asset) s))
     = exifs (after (extractExifInfo env asset) s)
   \<and> assets (after (extractExifInfo env asset) (after (extractExifInfo env asset) s))
     = assets (after (extractExifInfo env asset) s)"
    using imageTables_again[of env asset "assets s" "exifs s"]
    by (simp add: extractExifInfo_tables)
  have video: "exifs (after (extractVideoMetadata env asset) (after (extractVideoMetadata env asset) s))
     = exifs (after (extractVideoMetadata env asset) s)
   \<and> assets (after (extractVideoMetadata env asset) (after (extractVideoMetadata env asset) s))
     = assets (after (extractVideoMetadata env asset) s)"
    using videoTables_again[of env asset "assets s" "exifs s"]
    by (simp add: extractVideoMetadata_tables)
  have irec: "exifs (after (extractExifInfo env asset) s) = exifs s
      \<or> (\<exists>e fca e2. pureResult (readImageExif env asset) = Ok (e, fca)
            \<and> pureResult (completeImageExif env asset e) = Ok e2 \<and> assetId e2 = id asset
            \<and> exifs (after (extractExifInfo env asset) s) = upsertExif e2 (exifs s))"
    using imageTables_record[of env asset "assets s" "exifs s"]
    by (simp add: extractExifInfo_tables)
  have vrec: "exifs (after (extractVideoMetadata env asset) s) = exifs s
      \<or> (\<exists>d e e2. pureResult (readVideoExif env asset) = Ok (d, e)
            \<and> pureResult (completeVideoExif env asset d e) = Ok e2 \<and> assetId e2 = id asset
            \<and> exifs (after (extractVideoMetadata env asset) s) = upsertExif e2 (exifs s))"
    using videoTables_record[of env asset "assets s" "exifs s"]
    by (simp add: extractVideoMetadata_tables)
  have one: "distinct (map assetId (exifs s)) \<longrightarrow>
        distinct (map assetId (exifs (after (extractExifInfo env asset) s)))
      \<and> distinct (map assetId (exifs (after (extractVideoMetadata env asset) s)))"
    using imageTables_exifs[of env asset "assets s" "exifs s"]
      videoTables_exifs[of env asset "assets s" "exifs s"]
    by (auto simp: extractExifInfo_tables extractVideoMetadata_tables distinct_upsertExif)
  have whole: "\<forall>r\<in>set (upsertExif e' E). assetId r = assetId e' \<longrightarrow> r = e'"
    by (simp add: upsertExif_wholesale)
  from image video irec vrec one whole show ?thesis by blast
qed

theorem extraction_twice_is_extraction_once_witness:
  "distinct (map assetId (exifs storedMotionWorld))
   \<and> map assetId (exifs (after (extractExifInfo exampleEnv stillA) storedMotionWorld)) = [''B'', ''A'']
   \<and> exifs (after (extractExifInfo exampleEnv stillA) (after (extractExifInfo exampleEnv stillA) storedMotionWorld))
       = exifs (after (extractExifInfo exampleEnv stillA) storedMotionWorld)
   \<and> assets (after (extractExifInfo exampleEnv stillA) (after (extractExifInfo exampleEnv stillA) storedMotionWorld))
       = assets (after (extractExifInfo exampleEnv stillA) storedMotionWorld)
   \<and> distinct (map assetId (exifs (after (extractExifInfo exampleEnv stillA) storedMotionWorld)))
   \<and> upsertExif (new_ExifEntity\<lparr>assetId := ''B''\<rparr>) (exifs storedMotionWorld)
       = [new_ExifEntity\<lparr>assetId := ''B''\<rparr>]"
proof -
  have d: "distinct (map assetId (exifs storedMotionWorld))"
    by (simp add: failing_defs example_defs)
  have ids: "map assetId (exifs (after (extractExifInfo exampleEnv stillA) storedMotionWorld)) = [''B'', ''A'']"
    by (simp add: image_defs truthy_defs repository_defs io_defs example_defs failing_defs)
  have up: "upsertExif (new_ExifEntity\<lparr>assetId := ''B''\<rparr>) (exifs storedMotionWorld)
       = [new_ExifEntity\<lparr>assetId := ''B''\<rparr>]"
    by (simp add: upsertExif_def failing_defs example_defs)
  note twice = extraction_twice_is_extraction_once[of exampleEnv stillA storedMotionWorld
      "new_ExifEntity\<lparr>assetId := ''B''\<rparr>" "exifs storedMotionWorld"]
  from twice d ids up show ?thesis by (simp only:)
qed

section \<open>The image record and its two tag sources\<close>

lemma getExifProperty_append:
  "\<forall>p\<in>set before. tagOf sidecar p = None \<and> tagOf media p = None
   \<Longrightarrow> getExifProperty sidecar media (before @ rest) = getExifProperty sidecar media rest"
  by (induction before) auto

lemma exifToDate_result: "fst (exifToDate v s) = pureResult (exifToDate v)"
  using traceOnly_run[OF traceOnly_exifToDate, of v s] by simp

lemma call_run:
  "fst (call ev answer s) = (case answer of Some x \<Rightarrow> Ok x | None \<Rightarrow> Throw)"
  by (simp add: call_def bnd_def emit_def ret_def throw_def split: option.splits)

lemma imageExif_throws:
  "(fst (imageExif env asset sidecar media s) = Throw) =
     (fst (exifToDate (orString (getExifProperty sidecar media [''DateTimeOriginal'', ''CreateDate''])
                         (fileCreatedAt asset)) s) = Throw
      \<or> fst (exifToDate (orString (getExifProperty sidecar media [''ModifyDate''])
                         (fileModifiedAt asset)) s) = Throw
      \<or> fs_statSync env (originalPath asset) = None)"
  unfolding imageExif_def Let_def
  by (simp add: bnd_split call_run exifToDate_result ret_def
      del: getExifProperty.simps split: result.splits option.splits)

lemma imageExif_record:
  assumes built: "fst (imageExif env asset sidecar media s) = Ok (newExif, d)"
  shows "assetId newExif = id asset
   \<and> fileSizeInByte newExif = fs_statSync env (originalPath asset)
   \<and> exif_make newExif = getExifProperty sidecar media [''Make'']
   \<and> model newExif = getExifProperty sidecar media [''Model'']
   \<and> exifImageHeight newExif = getExifProperty sidecar media [''ExifImageHeight'', ''ImageHeight'']
   \<and> exifImageWidth newExif = getExifProperty sidecar media [''ExifImageWidth'', ''ImageWidth'']
   \<and> exposureTime newExif = getExifProperty sidecar media [''ExposureTime'']
   \<and> orientation newExif
       = (case getExifProperty sidecar media [''Orientation''] of
            None \<Rightarrow> Undefined | Some v \<Rightarrow> Val (toStr env v))
   \<and> fst (exifToDate (orString (getExifProperty sidecar media [''DateTimeOriginal'', ''CreateDate''])
                         (fileCreatedAt asset)) s) = Ok (dateTimeOriginal newExif)
   \<and> d = dateTimeOriginal newExif
   \<and> fst (exifToDate (orString (getExifProperty sidecar media [''ModifyDate''])
                         (fileModifiedAt asset)) s) = Ok (modifyDate newExif)
   \<and> timeZone newExif
       = exifTimeZone (orString (getExifProperty sidecar media [''DateTimeOriginal'', ''CreateDate''])
                         (fileCreatedAt asset))
   \<and> lensModel newExif = getExifProperty sidecar media [''LensModel'']
   \<and> fNumber newExif = getExifProperty sidecar media [''FNumber'']
   \<and> focalLength newExif
       = (case getExifProperty sidecar media [''FocalLength''] of
            None \<Rightarrow> None
          | Some v \<Rightarrow> if truthy v then Some (parseFloat (toStr env v)) else None)
   \<and> iso newExif
       = (case getExifProperty sidecar media [''ISO''] of
            None \<Rightarrow> None
          | Some (TArray xs) \<Rightarrow> (case xs of [] \<Rightarrow> None | x # _ \<Rightarrow> Some x)
          | Some v \<Rightarrow> if truthy v then Some v else None)
   \<and> latitude newExif = getExifProperty sidecar media [''GPSLatitude'']
   \<and> longitude newExif = getExifProperty sidecar media [''GPSLongitude'']
   \<and> livePhotoCID newExif = getExifProperty sidecar media [''MediaGroupUUID'']"
proof -
  let ?c = "orString (getExifProperty sidecar media [''DateTimeOriginal'', ''CreateDate'']) (fileCreatedAt asset)"
  let ?m = "orString (getExifProperty sidecar media [''ModifyDate'']) (fileModifiedAt asset)"
  from built imageExif_throws[of env asset sidecar media s]
  have nothrow: "fst (exifToDate ?c s) \<noteq> Throw" "fst (exifToDate ?m s) \<noteq> Throw"
    "fs_statSync env (originalPath asset) \<noteq> None" by auto
  then obtain fc fm size' where
    fc: "pureResult (exifToDate ?c) = Ok fc" and fm: "pureResult (exifToDate ?m) = Ok fm"
    and size': "fs_statSync env (originalPath asset) = Some size'"
    by (simp add: exifToDate_result) (metis result.exhaust)
  from built have rec: "newExif = new_ExifEntity
             \<lparr>assetId := id asset,
              fileSizeInByte := Some size',
              exif_make := getExifProperty sidecar media [''Make''],
              model := getExifProperty sidecar media [''Model''],
              exifImageHeight := getExifProperty sidecar media [''ExifImageHeight'', ''ImageHeight''],
              exifImageWidth := getExifProperty sidecar media [''ExifImageWidth'', ''ImageWidth''],
              exposureTime := getExifProperty sidecar media [''ExposureTime''],
              orientation :=
                (case getExifProperty sidecar media [''Orientation''] of
                   None \<Rightarrow> Undefined | Some v \<Rightarrow> Val (toStr env v)),
              dateTimeOriginal := fc,
              modifyDate := fm,
              timeZone := exifTimeZone ?c,
              lensModel := getExifProperty sidecar media [''LensModel''],
              fNumber := getExifProperty sidecar media [''FNumber''],
              focalLength :=
                (case getExifProperty sidecar media [''FocalLength''] of
                   None \<Rightarrow> None
                 | Some v \<Rightarrow> if truthy v then Some (parseFloat (toStr env v)) else None),
              iso :=
                (case getExifProperty sidecar media [''ISO''] of
                   None \<Rightarrow> None
                 | Some (TArray xs) \<Rightarrow> (case xs of [] \<Rightarrow> None | x # _ \<Rightarrow> Some x)
                 | Some v \<Rightarrow> if truthy v then Some v else None),
              latitude := getExifProperty sidecar media [''GPSLatitude''],
              longitude := getExifProperty sidecar media [''GPSLongitude''],
              livePhotoCID := getExifProperty sidecar media [''MediaGroupUUID'']\<rparr>"
    and d: "d = fc"
    unfolding imageExif_def Let_def
    by (auto simp add: bnd_split call_run exifToDate_result ret_def fc fm size'
        simp del: getExifProperty.simps)
  show ?thesis
    unfolding rec d by (simp add: exifToDate_result fc fm size' del: getExifProperty.simps)
qed

lemma readTags_result: "fst (readTags env path s) = Ok (exiftool_read env path)"
  by (simp add: readTags_def tryCatch_def bnd_def call_def emit_def ret_def throw_def
      split: option.splits)

lemma readImageExif_merges:
  "fst (readImageExif env asset s)
     = fst (imageExif env asset
              (case sidecarPath asset of
                 None \<Rightarrow> Some Map.empty
               | Some p \<Rightarrow> if p = [] then Some Map.empty else exiftool_read env p)
              (exiftool_read env (originalPath asset)) s)"
proof -
  have im: "fst (imageExif env asset sc md t) = pureResult (imageExif env asset sc md)" for sc md t
    using traceOnly_run[OF traceOnly_imageExif, of env asset sc md t] by simp
  show ?thesis
    unfolding readImageExif_def
    by (simp add: bnd_split readTags_result ret_def im split: option.splits)
qed

lemma readVideoExif_cid:
  assumes "fst (readVideoExif env asset s) = Ok (d, e)"
  shows "livePhotoCID e
     = (if truthyOpt (tagOf (exiftool_read env
                               (case sidecarPath asset of
                                  None \<Rightarrow> originalPath asset
                                | Some p \<Rightarrow> if p = [] then originalPath asset else p))
                        ''ContentIdentifier'')
        then tagOf (exiftool_read env
                      (case sidecarPath asset of
                         None \<Rightarrow> originalPath asset
                       | Some p \<Rightarrow> if p = [] then originalPath asset else p))
               ''ContentIdentifier''
        else None)"
  using assms unfolding readVideoExif_def
  by (auto simp add: bnd_split readTags_result call_run ret_def videoExif_def
      split: option.splits result.splits)

lemma applyReverseGeocoding_places:
  "applyReverseGeocoding env asset e s = (Ok e', s') \<Longrightarrow>
     \<exists>c st ci. e' = e\<lparr>country := c, state := st, city := ci\<rparr>"
proof -
  assume run: "applyReverseGeocoding env asset e s = (Ok e', s')"
  have same: "e = e\<lparr>country := country e, state := state e, city := city e\<rparr>" by simp
  from run have "e' = e \<or> (\<exists>c st ci. e' = e\<lparr>country := c, state := st, city := ci\<rparr>)"
    unfolding applyReverseGeocoding_def
    by (auto simp add: io_defs split: prod.splits result.splits option.splits if_splits)
  with same show ?thesis by metis
qed

lemma inspectImage_header:
  "inspectImage env asset e s = (Ok e', s') \<Longrightarrow>
     \<exists>h w orient. e' = e\<lparr>exifImageHeight := h, exifImageWidth := w, orientation := orient\<rparr>
       \<and> (exifImageHeight e \<noteq> None \<longrightarrow> h = exifImageHeight e)
       \<and> (exifImageWidth e \<noteq> None \<longrightarrow> w = exifImageWidth e)
       \<and> (orientation e \<noteq> Null \<longrightarrow> orient = orientation e)"
proof -
  assume run: "inspectImage env asset e s = (Ok e', s')"
  show ?thesis
  proof (cases "falsyOpt (exifImageHeight e) \<or> falsyOpt (exifImageWidth e)
         \<or> falsyOrientation (orientation e)")
    case False
    with run have "e' = e" by (simp add: inspectImage_def ret_def)
    then have "e' = e\<lparr>exifImageHeight := exifImageHeight e, exifImageWidth := exifImageWidth e,
                        orientation := orientation e\<rparr>" by simp
    then show ?thesis by blast
  next
    case True
    let ?built = "\<lambda>metadata. e\<lparr>exifImageHeight :=
                       (if exifImageHeight e = None then numOrNull (sharp_height metadata)
                        else exifImageHeight e),
                     exifImageWidth :=
                       (if exifImageWidth e = None then numOrNull (sharp_width metadata)
                        else exifImageWidth e),
                     orientation :=
                       (if orientation e = Null then
                          (case sharp_orientation metadata of
                             None \<Rightarrow> Null
                           | Some n \<Rightarrow> Val (toStr env (TNumber n)))
                        else orientation e)\<rparr>"
    from run True have "bnd (call (SharpMetadataOf (originalPath asset)) (sharp_metadata env (originalPath asset)))
          (\<lambda>metadata. ret (?built metadata)) s = (Ok e', s')"
      by (simp only: inspectImage_def if_True)
    from bnd_Ok[OF this] obtain metadata s1 where "ret (?built metadata) s1 = (Ok e', s')" by blast
    then have "e' = ?built metadata" by (simp add: ret_def)
    then show ?thesis by (intro exI conjI) (assumption | simp)+
  qed
qed

text \<open>What the place names and the image header leave of the record built from the tags.\<close>

lemma completeImageExif_fields:
  assumes "fst (completeImageExif env asset e s) = Ok e'"
  shows "assetId e' = assetId e \<and> fileSizeInByte e' = fileSizeInByte e
   \<and> exif_make e' = exif_make e \<and> model e' = model e \<and> exposureTime e' = exposureTime e
   \<and> dateTimeOriginal e' = dateTimeOriginal e \<and> modifyDate e' = modifyDate e
   \<and> timeZone e' = timeZone e \<and> lensModel e' = lensModel e \<and> fNumber e' = fNumber e
   \<and> focalLength e' = focalLength e \<and> iso e' = iso e \<and> latitude e' = latitude e
   \<and> longitude e' = longitude e \<and> livePhotoCID e' = livePhotoCID e
   \<and> (exifImageHeight e \<noteq> None \<longrightarrow> exifImageHeight e' = exifImageHeight e)
   \<and> (exifImageWidth e \<noteq> None \<longrightarrow> exifImageWidth e' = exifImageWidth e)
   \<and> (orientation e \<noteq> Null \<longrightarrow> orientation e' = orientation e)"
proof -
  from assms have "completeImageExif env asset e s = (Ok e', snd (completeImageExif env asset e s))"
    by (simp add: prod_eq_iff)
  then obtain x s1 where
    g: "applyReverseGeocoding env asset e s = (Ok x, s1)"
    and i: "inspectImage env asset x s1 = (Ok e', snd (completeImageExif env asset e s))"
    unfolding completeImageExif_def by (blast dest: bnd_Ok)
  from applyReverseGeocoding_places[OF g] obtain c st ci where
    x: "x = e\<lparr>country := c, state := st, city := ci\<rparr>" by blast
  from inspectImage_header[OF i] obtain h w orient where
    e': "e' = x\<lparr>exifImageHeight := h, exifImageWidth := w, orientation := orient\<rparr>"
    and keep: "exifImageHeight x \<noteq> None \<longrightarrow> h = exifImageHeight x"
      "exifImageWidth x \<noteq> None \<longrightarrow> w = exifImageWidth x"
      "orientation x \<noteq> Null \<longrightarrow> orient = orientation x"
    by blast
  from keep show ?thesis unfolding e' x by simp
qed

text \<open>
  C1, as amended. The lookup goes through the requested names in order and stops at the
  first name that either source populates; of that name it returns the sidecar's value when
  the sidecar has one, else the embedded one. So the sidecar's value of \<open>F\<close> is what a
  lookup returns when no name requested before \<open>F\<close> is populated in either source, and the
  embedded value of \<open>F\<close> when, in addition, the sidecar has none; the asset's own
  (filesystem) timestamp is used only when no requested name is populated in either source.
  The image handler merges the tags of the file with those of the sidecar (none when the
  asset has no sidecar); it builds a record unless a date cannot be converted or the file
  cannot be inspected, and every field of the record is the lookup of its names: unchanged
  for most fields, as a string for the orientation, as a number for the focal length (null
  when the value is falsy), the first element of an array or null for a falsy value for the
  ISO, converted for the two dates. The place names and the image header, which complete the
  record afterwards, leave these fields as they are; only a dimension that is null is then
  taken from the image header. The video handler reads one tag source only, the sidecar
  when the asset has one and else the file.
\<close>

theorem first_populated_alias_sidecar_first:
  "getExifProperty sidecar media properties
     = (case find (\<lambda>p. tagOf sidecar p \<noteq> None \<or> tagOf media p \<noteq> None) properties of
          None \<Rightarrow> None
        | Some p \<Rightarrow> (case tagOf sidecar p of Some x \<Rightarrow> Some x | None \<Rightarrow> tagOf media p))
   \<and> ((\<forall>p\<in>set before. tagOf sidecar p = None \<and> tagOf media p = None) \<and> tagOf sidecar F = Some v
        \<longrightarrow> getExifProperty sidecar media (before @ F # rest) = Some v)
   \<and> ((\<forall>p\<in>set before. tagOf sidecar p = None \<and> tagOf media p = None)
        \<and> tagOf sidecar F = None \<and> tagOf media F = Some w
        \<longrightarrow> getExifProperty sidecar media (before @ F # rest) = Some w)
   \<and> ((\<forall>p\<in>set properties. tagOf sidecar p = None \<and> tagOf media p = None)
        \<longrightarrow> orString (getExifProperty sidecar media properties) t = TString t)
   \<and> (getExifProperty sidecar media properties = Some x
        \<longrightarrow> orString (getExifProperty sidecar media properties) t = x)
   \<and> fst (readImageExif env asset s)
       = fst (imageExif env asset
                (case sidecarPath asset of
                   None \<Rightarrow> Some Map.empty
                 | Some p \<Rightarrow> if p = [] then Some Map.empty else exiftool_read env p)
                (exiftool_read env (originalPath asset)) s)
   \<and> ((fst (imageExif env asset sidecar media s) = Throw) =
        (fst (exifToDate (orString (getExifProperty sidecar media [''DateTimeOriginal'', ''CreateDate''])
                            (fileCreatedAt asset)) s) = Throw
         \<or> fst (exifToDate (orString (getExifProperty sidecar media [''ModifyDate''])
                            (fileModifiedAt asset)) s) = Throw
         \<or> fs_statSync env (originalPath asset) = None))
   \<and> (\<forall>newExif d. fst (imageExif env asset sidecar media s) = Ok (newExif, d) \<longrightarrow>
         assetId newExif = id asset
       \<and> fileSizeInByte newExif = fs_statSync env (originalPath asset)
       \<and> exif_make newExif = getExifProperty sidecar media [''Make'']
       \<and> model newExif = getExifProperty sidecar media [''Model'']
       \<and> exifImageHeight newExif = getExifProperty sidecar media [''ExifImageHeight'', ''ImageHeight'']
       \<and> exifImageWidth newExif = getExifProperty sidecar media [''ExifImageWidth'', ''ImageWidth'']
       \<and> exposureTime newExif = getExifProperty sidecar media [''ExposureTime'']
       \<and> orientation newExif
           = (case getExifProperty sidecar media [''Orientation''] of
                None \<Rightarrow> Undefined | Some v \<Rightarrow> Val (toStr env v))
       \<and> fst (exifToDate (orString (getExifProperty sidecar media [''DateTimeOriginal'', ''CreateDate''])
                             (fileCreatedAt asset)) s) = Ok (dateTimeOriginal newExif)
       \<and> d = dateTimeOriginal newExif
       \<and> fst (exifToDate (orString (getExifProperty sidecar media [''ModifyDate''])
                             (fileModifiedAt asset)) s) = Ok (modifyDate newExif)
       \<and> timeZone newExif
           = exifTimeZone (orString (getExifProperty sidecar media [''DateTimeOriginal'', ''CreateDate''])
                             (fileCreatedAt asset))
       \<and> lensModel newExif = getExifProperty sidecar media [''LensModel'']
       \<and> fNumber newExif = getExifProperty sidecar media [''FNumber'']
       \<and> focalLength newExif
           = (case getExifProperty sidecar media [''FocalLength''] of
                None \<Rightarrow> None
              | Some v \<Rightarrow> if truthy v then Some (parseFloat (toStr env v)) else None)
       \<and> iso newExif
           = (case getExifProperty sidecar media [''ISO''] of
                None \<Rightarrow> None
              | Some (TArray xs) \<Rightarrow> (case xs of [] \<Rightarrow> None | x # _ \<Rightarrow> Some x)
              | Some v \<Rightarrow> if truthy v then Some v else None)
       \<and> latitude newExif = getExifProperty sidecar media [''GPSLatitude'']
       \<and> longitude newExif = getExifProperty sidecar media [''GPSLongitude'']
       \<and> livePhotoCID newExif = getExifProperty sidecar media [''MediaGroupUUID''])
   \<and> (\<forall>data' videoExif'. fst (readVideoExif env asset s) = Ok (data', videoExif') \<longrightarrow>
         livePhotoCID videoExif'
           = (if truthyOpt (tagOf (exiftool_read env
                                     (case sidecarPath asset of
                                        None \<Rightarrow> originalPath asset
                                      | Some p \<Rightarrow> if p = [] then originalPath asset else p))
                              ''ContentIdentifier'')
              then tagOf (exiftool_read env
                            (case sidecarPath asset of
                               None \<Rightarrow> originalPath asset
                             | Some p \<Rightarrow> if p = [] then originalPath asset else p))
                     ''ContentIdentifier''
              else None))
   \<and> (\<forall>e e'. fst (completeImageExif env asset e s) = Ok e' \<longrightarrow>
         assetId e' = assetId e \<and> fileSizeInByte e' = fileSizeInByte e
       \<and> exif_make e' = exif_make e \<and> model e' = model e \<and> exposureTime e' = exposureTime e
       \<and> dateTimeOriginal e' = dateTimeOriginal e \<and> modifyDate e' = modifyDate e
       \<and> timeZone e' = timeZone e \<and> lensModel e' = lensModel e \<and> fNumber e' = fNumber e
       \<and> focalLength e' = focalLength e \<and> iso e' = iso e \<and> latitude e' = latitude e
       \<and> longitude e' = longitude e \<and> livePhotoCID e' = livePhotoCID e
       \<and> (exifImageHeight e \<noteq> None \<longrightarrow> exifImageHeight e' = exifImageHeight e)
       \<and> (exifImageWidth e \<noteq> None \<longrightarrow> exifImageWidth e' = exifImageWidth e)
       \<and> (orientation e \<noteq> Null \<longrightarrow> orientation e' = orientation e))"
proof -
  have sidecar_first:
    "(\<forall>p\<in>set before. tagOf sidecar p = None \<and> tagOf media p = None) \<and> tagOf sidecar F = Some v
        \<longrightarrow> getExifProperty sidecar media (before @ F # rest) = Some v"
    by (simp add: getExifProperty_append)
  have embedded_next:
    "(\<forall>p\<in>set before. tagOf sidecar p = None \<and> tagOf media p = None)
        \<and> tagOf sidecar F = None \<and> tagOf media F = Some w
        \<longrightarrow> getExifProperty sidecar media (before @ F # rest) = Some w"
    by (simp add: getExifProperty_append)
  have fallback:
    "(\<forall>p\<in>set properties. tagOf sidecar p = None \<and> tagOf media p = None)
       \<longrightarrow> orString (getExifProperty sidecar media properties) t = TString t"
    by (simp add: getExifProperty_unpopulated orString_def)
  have found: "getExifProperty sidecar media properties = Some x
        \<longrightarrow> orString (getExifProperty sidecar media properties) t = x"
    by (simp add: orString_def)
  note lookup = getExifProperty_find[of sidecar media properties]
  note merged = readImageExif_merges[of env asset s]
  note throws = imageExif_throws[of env asset sidecar media s]
  show ?thesis
    by (intro conjI)
      (rule lookup sidecar_first embedded_next fallback found merged throws
       | (intro allI impI,
          (erule imageExif_record | erule readVideoExif_cid | erule completeImageExif_fields)))+
qed

lemmas sidecar_defs = sidecarTags_def embeddedTags_def sidecarEnv_def stillWithSidecar_def

theorem first_populated_alias_sidecar_first_witness:
  "tagOf (Some sidecarTags) ''ExifImageHeight'' = None
   \<and> tagOf (Some embeddedTags) ''ExifImageHeight'' = None
   \<and> tagOf (Some sidecarTags) ''ImageHeight'' = Some (TNumber (Num 480))
   \<and> tagOf (Some embeddedTags) ''ImageHeight'' = Some (TNumber (Num 100))
   \<and> tagOf (Some sidecarTags) ''Model'' = None
   \<and> tagOf (Some embeddedTags) ''Model'' = Some (TString ''M'')
   \<and> getExifProperty (Some sidecarTags) (Some embeddedTags) [''ExifImageHeight'', ''ImageHeight'']
       = Some (TNumber (Num 480))
   \<and> (\<exists>newExif d. fst (readImageExif sidecarEnv stillWithSidecar exampleWorld) = Ok (newExif, d)
         \<and> exif_make newExif = Some (TString ''Sidecar'')
         \<and> model newExif = Some (TString ''M'')
         \<and> exifImageHeight newExif = Some (TNumber (Num 480)))"
proof -
  let ?sc = "Some sidecarTags" and ?md = "Some embeddedTags"
  note merged = first_populated_alias_sidecar_first[where sidecar = ?sc and media = ?md
      and before = "[''ExifImageHeight'']" and F = "''ImageHeight''" and v = "TNumber (Num 480)"
      and rest = "[]" and env = sidecarEnv and asset = stillWithSidecar and s = exampleWorld]
  note sidecar_first = merged[THEN conjunct2, THEN conjunct1]
  note sources_read = merged[THEN conjunct2, THEN conjunct2, THEN conjunct2, THEN conjunct2,
      THEN conjunct2, THEN conjunct1]
  note throws = merged[THEN conjunct2, THEN conjunct2, THEN conjunct2, THEN conjunct2,
      THEN conjunct2, THEN conjunct2, THEN conjunct1]
  note built_fields = merged[THEN conjunct2, THEN conjunct2, THEN conjunct2, THEN conjunct2,
      THEN conjunct2, THEN conjunct2, THEN conjunct2, THEN conjunct1, rule_format]
  have tags: "tagOf ?sc ''ExifImageHeight'' = None" "tagOf ?md ''ExifImageHeight'' = None"
    "tagOf ?sc ''ImageHeight'' = Some (TNumber (Num 480))"
    "tagOf ?md ''ImageHeight'' = Some (TNumber (Num 100))"
    "tagOf ?sc ''Model'' = None" "tagOf ?md ''Model'' = Some (TString ''M'')"
    by (simp_all add: tagOf_def sidecar_defs)
  have "(\<forall>p\<in>set [''ExifImageHeight'']. tagOf ?sc p = None \<and> tagOf ?md p = None)
      \<and> tagOf ?sc ''ImageHeight'' = Some (TNumber (Num 480))"
    using tags by simp
  with sidecar_first have "getExifProperty ?sc ?md ([''ExifImageHeight''] @ ''ImageHeight'' # [])
      = Some (TNumber (Num 480))" by (rule mp)
  then have height: "getExifProperty ?sc ?md [''ExifImageHeight'', ''ImageHeight'']
      = Some (TNumber (Num 480))" by simp
  have sources: "(case sidecarPath stillWithSidecar of
                   None \<Rightarrow> Some Map.empty
                 | Some p \<Rightarrow> if p = [] then Some Map.empty else exiftool_read sidecarEnv p) = ?sc"
    "exiftool_read sidecarEnv (originalPath stillWithSidecar) = ?md"
    by (simp_all add: sidecar_defs example_defs)
  from sources_read have read: "fst (readImageExif sidecarEnv stillWithSidecar exampleWorld)
       = fst (imageExif sidecarEnv stillWithSidecar ?sc ?md exampleWorld)"
    by (simp only: sources)
  have dates: "fst (exifToDate (orString (getExifProperty ?sc ?md [''DateTimeOriginal'', ''CreateDate''])
                            (fileCreatedAt stillWithSidecar)) exampleWorld) \<noteq> Throw"
    "fst (exifToDate (orString (getExifProperty ?sc ?md [''ModifyDate''])
                            (fileModifiedAt stillWithSidecar)) exampleWorld) \<noteq> Throw"
    "fs_statSync sidecarEnv (originalPath stillWithSidecar) \<noteq> None"
    by (simp_all add: exifToDate_def orString_def tagOf_def truthy_defs ret_def sidecar_defs example_defs)
  then have "fst (imageExif sidecarEnv stillWithSidecar ?sc ?md exampleWorld) \<noteq> Throw"
    by (simp only: throws) simp
  then obtain newExif d where
    built: "fst (imageExif sidecarEnv stillWithSidecar ?sc ?md exampleWorld) = Ok (newExif, d)"
    by (cases "fst (imageExif sidecarEnv stillWithSidecar ?sc ?md exampleWorld)") auto
  from built_fields[OF built] have "exif_make newExif = getExifProperty ?sc ?md [''Make'']
      \<and> model newExif = getExifProperty ?sc ?md [''Model'']
      \<and> exifImageHeight newExif = getExifProperty ?sc ?md [''ExifImageHeight'', ''ImageHeight'']"
    by blast
  with height have fields: "exif_make newExif = Some (TString ''Sidecar'')"
    "model newExif = Some (TString ''M'')"
    "exifImageHeight newExif = Some (TNumber (Num 480))"
    by (simp_all add: tagOf_def sidecar_defs)
  from built read have "fst (readImageExif sidecarEnv stillWithSidecar exampleWorld) = Ok (newExif, d)"
    by (simp only:)
  with fields have "\<exists>newExif d. fst (readImageExif sidecarEnv stillWithSidecar exampleWorld) = Ok (newExif, d)
         \<and> exif_make newExif = Some (TString ''Sidecar'')
         \<and> model newExif = Some (TString ''M'')
         \<and> exifImageHeight newExif = Some (TNumber (Num 480))"
    by blast
  with tags height show ?thesis by (intro conjI)
qed

text \<open>
  C1 as stated fails. The sidecar and the embedded tags both define \<open>CreateDate\<close>, and the
  capture date of the record is neither: it is the embedded \<open>DateTimeOriginal\<close>, the name
  requested first. Both define \<open>ISO\<close>, the sidecar as 0, and the record's ISO is null.
\<close>

theorem embedded_alias_beats_sidecar_alias:
  "tagOf (exiftool_read sidecarEnv ''/a.xmp'') ''CreateDate'' = Some (TString ''2021-01-01T00:00:00.000Z'')
   \<and> tagOf (exiftool_read sidecarEnv ''/a.heic'') ''CreateDate'' = Some (TString ''2020-01-01T00:00:00.000Z'')
   \<and> tagOf (exiftool_read sidecarEnv ''/a.heic'') ''DateTimeOriginal''
       = Some (TString ''2019-01-01T00:00:00.000Z'')
   \<and> sidecarPath stillWithSidecar = Some ''/a.xmp''
   \<and> originalPath stillWithSidecar = ''/a.heic''
   \<and> map dateTimeOriginal (exifs (after (extractExifInfo sidecarEnv stillWithSidecar) exampleWorld))
       = [Some (DateOfString ''2019-01-01T00:00:00.000Z'')]
   \<and> tagOf (exiftool_read sidecarEnv ''/a.xmp'') ''ISO'' = Some (TNumber (Num 0))
   \<and> tagOf (exiftool_read sidecarEnv ''/a.heic'') ''ISO'' = Some (TNumber (Num 800))
   \<and> map iso (exifs (after (extractExifInfo sidecarEnv stillWithSidecar) exampleWorld)) = [None]"
  by (simp add: image_defs truthy_defs repository_defs io_defs example_defs sidecar_defs)

end
